(* ===== verification/Prelude.thy ===== *)
theory Prelude
  imports Main "HOL-Library.Word"
begin

text \<open>
  What every component of the device tree shares: the C integer conversions of a 32-bit ARM build
  (\<open>BoardConfigCommon.mk\<close> sets \<open>TARGET_ARCH := arm\<close>), the error numbers the
  sources return, the faults of C (a null pointer, a buffer overrun) as values, the decimal text
  that \<open>printf("%d")\<close> makes and \<open>atoi\<close> reads, big-endian byte strings,
  and the loop that drops the right channel of interleaved stereo samples.
\<close>

section \<open>Automation collections\<close>

named_theorems cint_defs \<open>definitions of the C integer conversions\<close>
named_theorems trace_simps \<open>what an operation appends to the call trace\<close>

section \<open>C integers\<close>

text \<open>
  A value of a C integer type is an \<open>int\<close>; the conversions write the wrap-around out.
  \<open>u32\<close> is the conversion to \<open>uint32_t\<close>, \<open>unsigned int\<close> and (on this
  target) \<open>size_t\<close>; \<open>s32\<close> the conversion to \<open>int\<close>.
\<close>

type_synonym u8 = "8 word"
type_synonym s16 = "16 word"
type_synonym mask = "32 word"

definition u32 :: "int \<Rightarrow> int" where
  [cint_defs]: "u32 x = x mod 4294967296"

definition s32 :: "int \<Rightarrow> int" where
  [cint_defs]: "s32 x = (x + 2147483648) mod 4294967296 - 2147483648"

definition u64 :: "int \<Rightarrow> int" where
  [cint_defs]: "u64 x = x mod 18446744073709551616"

definition s64 :: "int \<Rightarrow> int" where
  [cint_defs]: "s64 x = (x + 9223372036854775808) mod 18446744073709551616 - 9223372036854775808"

lemma u32_id [simp]: "0 \<le> x \<Longrightarrow> x < 4294967296 \<Longrightarrow> u32 x = x"
  by (simp add: u32_def)

lemma u32_bounds [simp]: "0 \<le> u32 x" "u32 x < 4294967296"
  by (simp_all add: u32_def)

lemma s32_id [simp]: "- 2147483648 \<le> x \<Longrightarrow> x < 2147483648 \<Longrightarrow> s32 x = x"
  by (simp add: s32_def)

lemma s32_bounds [simp]: "- 2147483648 \<le> s32 x" "s32 x < 2147483648"
  by (simp_all add: s32_def)

lemma s32_u32 [simp]: "s32 (u32 x) = s32 x"
  by (simp add: s32_def u32_def mod_simps)

lemma u64_id [simp]: "0 \<le> x \<Longrightarrow> x < 18446744073709551616 \<Longrightarrow> u64 x = x"
  by (simp add: u64_def)

lemma u64_bounds [simp]: "0 \<le> u64 x" "u64 x < 18446744073709551616"
  by (simp_all add: u64_def)

lemma s64_id [simp]: "- 9223372036854775808 \<le> x \<Longrightarrow> x < 9223372036854775808 \<Longrightarrow> s64 x = x"
  by (simp add: s64_def)

lemma s64_u64 [simp]: "s64 (u64 x) = s64 x"
  by (simp add: s64_def u64_def mod_simps)

text \<open>Integer division of C truncates towards zero.\<close>

definition cdiv :: "int \<Rightarrow> int \<Rightarrow> int" where
  "cdiv a b = (if 0 \<le> a \<longleftrightarrow> 0 < b then \<bar>a\<bar> div \<bar>b\<bar> else - (\<bar>a\<bar> div \<bar>b\<bar>))"

lemma cdiv_pos [simp]: "0 \<le> a \<Longrightarrow> 0 < b \<Longrightarrow> cdiv a b = a div b"
  by (simp add: cdiv_def)

section \<open>Error numbers and faults\<close>

abbreviation (input) EINVAL :: int where "EINVAL \<equiv> 22"
abbreviation (input) ENOMEM :: int where "ENOMEM \<equiv> 12"
abbreviation (input) ENODEV :: int where "ENODEV \<equiv> 19"
abbreviation (input) EPIPE :: int where "EPIPE \<equiv> 32"
abbreviation (input) ENOSYS :: int where "ENOSYS \<equiv> 38"

text \<open>
  A step of the code that C leaves undefined is a fault: the call through a null pointer, the
  write or read outside of an allocated block, a division by zero, the overflow of a signed counter.
  A library that stops the process and a wait that is never woken are faults too. \<open>Inl\<close> is the fault, \<open>Inr\<close>
  the normal return.
\<close>

datatype fault = NullDeref | OutOfBounds | DivByZero | Overflow | Aborted | Blocked

type_synonym 'a res = "fault + 'a"

definition bind_res :: "'a res \<Rightarrow> ('a \<Rightarrow> 'b res) \<Rightarrow> 'b res" where
  "bind_res r f = (case r of Inl e \<Rightarrow> Inl e | Inr x \<Rightarrow> f x)"

lemma bind_res_simps [simp]:
  "bind_res (Inl e) f = Inl e" "bind_res (Inr x) f = f x"
  by (simp_all add: bind_res_def)

lemma bind_res_cong [fundef_cong]:
  "r = r' \<Longrightarrow> (\<And>x. r' = Inr x \<Longrightarrow> f x = g x) \<Longrightarrow> bind_res r f = bind_res r' g"
  by (cases r') simp_all

lemma bind_res_Inr:
  "bind_res r f = Inr y \<longleftrightarrow> (\<exists>x. r = Inr x \<and> f x = Inr y)"
  by (cases r) auto

lemma bind_res_Inr3:
  "bind_res r (\<lambda>(a, b, c). f a b c) = Inr y \<longleftrightarrow> (\<exists>a b c. r = Inr (a, b, c) \<and> f a b c = Inr y)"
  by (auto simp: bind_res_Inr)

section \<open>Byte strings, most significant byte first\<close>

text \<open>
  \<open>be_bytes n v\<close> is the loop \<^verbatim>\<open>for i < n: *p++ = v >> ((n - i - 1) * 8)\<close>
  of \<open>keyblob_save\<close>; \<open>be_value\<close> the accumulation
  \<^verbatim>\<open>v = (v << 8) | *p++\<close> of \<open>keyblob_restore\<close>, on unbounded integers.
\<close>

definition be_bytes :: "nat \<Rightarrow> int \<Rightarrow> u8 list" where
  "be_bytes n v = map (\<lambda>i. word_of_int (v div 256 ^ (n - i - 1))) [0..<n]"

definition be_value :: "u8 list \<Rightarrow> int" where
  "be_value bs = foldl (\<lambda>v b. v * 256 + uint b) 0 bs"

lemma length_be_bytes [simp]: "length (be_bytes n v) = n"
  by (simp add: be_bytes_def)

lemma be_value_append [simp]: "be_value (bs @ [b]) = be_value bs * 256 + uint b"
  by (simp add: be_value_def)

lemma be_value_Nil [simp]: "be_value [] = 0"
  by (simp add: be_value_def)

lemma be_bytes_Suc: "be_bytes (Suc n) v = be_bytes n (v div 256) @ [word_of_int v]"
proof -
  have "v div 256 ^ (Suc n - i - 1) = v div 256 div 256 ^ (n - i - 1)" if "i < n" for i
  proof -
    from that have e: "Suc n - i - 1 = Suc (n - i - 1)" by simp
    show ?thesis unfolding e by (simp add: zdiv_zmult2_eq)
  qed
  then show ?thesis by (simp add: be_bytes_def)
qed

lemma be_value_bytes: "be_value (be_bytes n v) = v mod 256 ^ n"
proof (induction n arbitrary: v)
  case 0
  then show ?case by (simp add: be_bytes_def)
next
  case (Suc n)
  have "be_value (be_bytes (Suc n) v) = (v div 256) mod 256 ^ n * 256 + v mod 256"
    by (simp add: be_bytes_Suc Suc.IH uint_word_of_int)
  also have "\<dots> = v mod (256 * 256 ^ n)"
    by (simp add: zmod_zmult2_eq)
  finally show ?case by simp
qed

lemma be_value_nonneg [simp]: "0 \<le> be_value bs"
  by (induction bs rule: rev_induct) auto

lemma be_value_bound: "be_value bs < 256 ^ length bs"
proof (induction bs rule: rev_induct)
  case Nil
  then show ?case by simp
next
  case (snoc b bs)
  have "uint b < 256" using uint_lt2p [of b] by simp
  with snoc show ?case by simp
qed

lemma be_bytes_value: "be_bytes (length bs) (be_value bs) = bs"
proof (induction bs rule: rev_induct)
  case Nil
  then show ?case by (simp add: be_bytes_def)
next
  case (snoc b bs)
  have b: "uint b < 256" using uint_lt2p [of b] by simp
  then have "(be_value bs * 256 + uint b) div 256 = be_value bs" by simp
  moreover have "(word_of_int (be_value bs * 256 + uint b) :: u8) = b"
  proof -
    have "(be_value bs * 256 + uint b) mod 256 = uint b" using b by simp
    then have "take_bit 8 (be_value bs * 256 + uint b) = take_bit 8 (uint b)"
      by (simp add: take_bit_eq_mod)
    then have "(word_of_int (be_value bs * 256 + uint b) :: u8) = word_of_int (uint b)"
      by (simp only: word_of_int_eq_iff) simp
    then show ?thesis by (simp only: word_of_int_uint)
  qed
  ultimately show ?case using snoc by (simp add: be_bytes_Suc)
qed

section \<open>Decimal text\<close>

definition digit_char :: "nat \<Rightarrow> char" where
  "digit_char d = char_of (48 + d)"

fun show_nat :: "nat \<Rightarrow> string" where
  "show_nat n = (if n < 10 then [digit_char n] else show_nat (n div 10) @ [digit_char (n mod 10)])"

declare show_nat.simps [simp del]

text \<open>The text of \<^verbatim>\<open>printf("%d", v)\<close>.\<close>

definition show_int :: "int \<Rightarrow> string" where
  "show_int v = (if v < 0 then CHR ''-'' # show_nat (nat (- v)) else show_nat (nat v))"

definition is_digit :: "char \<Rightarrow> bool" where
  "is_digit c = (48 \<le> (of_char c :: nat) \<and> (of_char c :: nat) \<le> 57)"

definition digit_val :: "char \<Rightarrow> nat" where
  "digit_val c = of_char c - 48"

definition is_space :: "char \<Rightarrow> bool" where
  "is_space c = (c = CHR '' '' \<or> (9 \<le> (of_char c :: nat) \<and> (of_char c :: nat) \<le> 13))"

fun atoi_digits :: "nat \<Rightarrow> string \<Rightarrow> nat" where
  "atoi_digits acc [] = acc"
| "atoi_digits acc (c # cs) = (if is_digit c then atoi_digits (10 * acc + digit_val c) cs else acc)"

text \<open>
  \<open>atoi\<close> of the C library: leading white space, an optional sign, digits up to the first
  other character; 0 when there is none.
\<close>

definition atoi :: "string \<Rightarrow> int" where
  "atoi s =
     (case dropWhile is_space s of
        [] \<Rightarrow> 0
      | c # cs \<Rightarrow>
          if c = CHR ''-'' then - int (atoi_digits 0 cs)
          else if c = CHR ''+'' then int (atoi_digits 0 cs)
          else int (atoi_digits 0 (c # cs)))"

lemma digit_char_props [simp]:
  assumes "d < 10"
  shows "is_digit (digit_char d)" "digit_val (digit_char d) = d"
    "\<not> is_space (digit_char d)" "digit_char d \<noteq> CHR ''-''" "digit_char d \<noteq> CHR ''+''"
proof -
  have c: "(of_char (digit_char d) :: nat) = 48 + d"
    using assms by (simp add: digit_char_def)
  show "is_digit (digit_char d)" "digit_val (digit_char d) = d"
    using assms c by (simp_all add: is_digit_def digit_val_def)
  show "digit_char d \<noteq> CHR ''-''" using c by auto
  show "digit_char d \<noteq> CHR ''+''" using c by auto
  show "\<not> is_space (digit_char d)" using c assms by (auto simp: is_space_def)
qed

lemma atoi_digits_show_nat:
  "atoi_digits acc (show_nat n @ cs) = atoi_digits (acc * 10 ^ length (show_nat n) + n) cs"
proof (induction n arbitrary: acc cs rule: show_nat.induct)
  case (1 n)
  show ?case
  proof (cases "n < 10")
    case True
    then show ?thesis by (simp add: show_nat.simps [of n] mult.commute)
  next
    case False
    then have e: "show_nat n = show_nat (n div 10) @ [digit_char (n mod 10)]"
      by (simp add: show_nat.simps [of n])
    have "10 * (acc * 10 ^ length (show_nat (n div 10)) + n div 10) + n mod 10
        = acc * 10 ^ length (show_nat n) + n"
      by (simp add: e algebra_simps)
    with "1.IH" [OF False] show ?thesis by (simp add: e algebra_simps)
  qed
qed

lemma show_nat_head:
  "\<exists>d cs. show_nat n = digit_char d # cs \<and> d < 10"
proof (induction n rule: show_nat.induct)
  case (1 n)
  show ?case
  proof (cases "n < 10")
    case True
    then show ?thesis by (auto simp: show_nat.simps [of n])
  next
    case False
    with "1.IH" obtain d cs where "show_nat (n div 10) = digit_char d # cs" "d < 10" by blast
    with False show ?thesis by (auto simp: show_nat.simps [of n])
  qed
qed

lemma show_nat_no_space: "c \<in> set (show_nat n) \<Longrightarrow> \<not> is_space c"
proof (induction n rule: show_nat.induct)
  case (1 n)
  then show ?case by (subst (asm) show_nat.simps) (auto split: if_splits)
qed

text \<open>Reading back what was printed, up to a character that is no digit.\<close>

lemma atoi_show_nat:
  assumes "cs = [] \<or> \<not> is_digit (hd cs)"
  shows "atoi (show_nat n @ cs) = int n"
proof -
  obtain d ds where d: "show_nat n = digit_char d # ds" "d < 10"
    using show_nat_head by blast
  have "atoi_digits 0 (show_nat n @ cs) = n"
    unfolding atoi_digits_show_nat using assms by (cases cs) auto
  with d show ?thesis by (simp add: atoi_def)
qed

lemma atoi_show_int: "atoi (show_int v) = v"
proof (cases "v < 0")
  case True
  then have "atoi (show_int v) = - int (atoi_digits 0 (show_nat (nat (- v)) @ []))"
    by (simp add: show_int_def atoi_def is_space_def)
  with True show ?thesis by (simp add: atoi_digits_show_nat del: append_Nil2)
next
  case False
  then show ?thesis using atoi_show_nat [of "[]" "nat v"] by (simp add: show_int_def)
qed

section \<open>Dropping the right channel of interleaved stereo\<close>

text \<open>
  The loop \<^verbatim>\<open>for (; i < n; i++) buf[i] = buf[i * 2];\<close>, in place, as
  \<open>get_next_buffer\<close> and \<open>out_write\<close> of \<open>audio_hw.c\<close> run it from
  \<open>i = 1\<close>. A read behind the end of the block is a fault.
\<close>

function discard_right :: "nat \<Rightarrow> nat \<Rightarrow> s16 list \<Rightarrow> s16 list res" where
  "discard_right i n buf =
     (if i < n
      then if 2 * i < length buf then discard_right (Suc i) n (buf[i := buf ! (2 * i)])
           else Inl OutOfBounds
      else Inr buf)"
  by pat_completeness auto
termination
  by (relation "measure (\<lambda>(i, n, buf). n - i)") auto

declare discard_right.simps [simp del]

text \<open>The left channel: every second sample, starting with the first.\<close>

definition left_channel :: "nat \<Rightarrow> s16 list \<Rightarrow> s16 list" where
  "left_channel n buf = map (\<lambda>k. buf ! (2 * k)) [0..<n]"

lemma length_left_channel [simp]: "length (left_channel n buf) = n"
  by (simp add: left_channel_def)

lemma nth_left_channel [simp]: "k < n \<Longrightarrow> left_channel n buf ! k = buf ! (2 * k)"
  by (simp add: left_channel_def)

lemma discard_right_nth:
  assumes "1 \<le> i" "n = 0 \<or> 2 * (n - 1) < length buf"
  shows "\<exists>out. discard_right i n buf = Inr out \<and> length out = length buf \<and>
    (\<forall>k. k < length buf \<longrightarrow> out ! k = (if i \<le> k \<and> k < n then buf ! (2 * k) else buf ! k))"
  using assms
proof (induction i n buf rule: discard_right.induct)
  case (1 i n buf)
  show ?case
  proof (cases "i < n")
    case False
    then show ?thesis by (auto simp: discard_right.simps [of i n buf])
  next
    case True
    let ?b = "buf[i := buf ! (2 * i)]"
    from True "1.prems" have r: "2 * i < length buf" by auto
    from "1.IH" [OF True r] "1.prems" obtain out where
      out: "discard_right (Suc i) n ?b = Inr out" "length out = length buf"
        "\<forall>k. k < length buf \<longrightarrow> out ! k = (if Suc i \<le> k \<and> k < n then ?b ! (2 * k) else ?b ! k)"
      by auto
    have "out ! k = (if i \<le> k \<and> k < n then buf ! (2 * k) else buf ! k)" if "k < length buf" for k
    proof -
      consider "k < i" | "k = i" | "i < k" by linarith
      then show ?thesis using that True out(3) "1.prems"(1) by cases (auto simp: nth_list_update)
    qed
    with out True r show ?thesis by (auto simp: discard_right.simps [of i n buf])
  qed
qed

text \<open>
  The loop from 1 is the left channel followed by what was behind it: the in-place copy never
  overwrites a sample it still has to read.
\<close>

lemma discard_right_left_channel:
  assumes "2 * n \<le> length buf"
  shows "discard_right 1 n buf = Inr (left_channel n buf @ drop n buf)"
proof -
  from assms have "n = 0 \<or> 2 * (n - 1) < length buf" by auto
  from discard_right_nth [OF order_refl this] obtain out where
    out: "discard_right 1 n buf = Inr out" "length out = length buf"
      "\<forall>k. k < length buf \<longrightarrow> out ! k = (if 1 \<le> k \<and> k < n then buf ! (2 * k) else buf ! k)"
    by blast
  have "out = left_channel n buf @ drop n buf"
  proof (rule nth_equalityI)
    show "length out = length (left_channel n buf @ drop n buf)"
      using out(2) assms by simp
    fix k assume "k < length out"
    with out show "out ! k = (left_channel n buf @ drop n buf) ! k"
      by (cases "k = 0") (auto simp: nth_append)
  qed
  with out(1) show ?thesis by simp
qed

text \<open>Storing a block that a driver call wrote at the start of an allocated buffer.\<close>

definition store_block :: "s16 list \<Rightarrow> s16 list \<Rightarrow> s16 list res" where
  "store_block buf data =
     (if length data \<le> length buf then Inr (data @ drop (length data) buf) else Inl OutOfBounds)"

lemma store_block_length: "store_block buf data = Inr b \<Longrightarrow> length b = length buf"
  by (auto simp: store_block_def split: if_splits)

end
