(* ===== verification/Lock_Order.thy ===== *)
theory Lock_Order
  imports Prelude
begin

text \<open>
  The mutex discipline of the audio HAL, on its own. \<open>audio_hw.c\<close> notes that "when
  multiple mutexes have to be acquired, always take the audio_device mutex first, followed by the
  stream_in and/or stream_out mutexes". Here a thread is the script of its lock and unlock calls,
  \<open>lock_step\<close> interleaves the threads of a system, and the discipline (one gate mutex
  that is only taken with nothing held; any other mutex only under the gate or with nothing held)
  is shown to exclude deadlock. The locale \<open>gated_ops\<close> is the interface a component
  fulfils: its operations, which of them complete, and the lock script each of these runs.
\<close>

section \<open>Scripts and the discipline\<close>

datatype 'm lock_event = Acquire 'm | Release 'm

fun disciplined :: "'m \<Rightarrow> 'm list \<Rightarrow> 'm lock_event list \<Rightarrow> bool" where
  "disciplined g held [] = (held = [])"
| "disciplined g held (Acquire m # es) =
     (m \<notin> set held \<and> (held = [] \<or> m \<noteq> g \<and> g \<in> set held) \<and> disciplined g (m # held) es)"
| "disciplined g held (Release m # es) =
     (m \<in> set held \<and> disciplined g (removeAll m held) es)"

text \<open>A script that runs from nothing held to nothing held can be followed by another.\<close>

lemma disciplined_append:
  "disciplined g held xs \<Longrightarrow> disciplined g [] ys \<Longrightarrow> disciplined g held (xs @ ys)"
  by (induction g held xs rule: disciplined.induct) auto

lemma disciplined_concat:
  "(\<And>x. x \<in> set xs \<Longrightarrow> disciplined g [] (f x)) \<Longrightarrow> disciplined g [] (concat (map f xs))"
  by (induction xs) (auto intro: disciplined_append)

section \<open>Interleaving\<close>

record ('t, 'm) lock_sys =
  script :: "'t \<Rightarrow> 'm lock_event list"
  held :: "'t \<Rightarrow> 'm list"

inductive lock_step :: "('t, 'm) lock_sys \<Rightarrow> ('t, 'm) lock_sys \<Rightarrow> bool" where
  acquire: "script s t = Acquire m # es \<Longrightarrow> \<forall>u. m \<notin> set (held s u) \<Longrightarrow>
     lock_step s (s\<lparr>script := (script s)(t := es), held := (held s)(t := m # held s t)\<rparr>)"
| release: "script s t = Release m # es \<Longrightarrow>
     lock_step s (s\<lparr>script := (script s)(t := es),
                    held := (held s)(t := removeAll m (held s t))\<rparr>)"

definition lock_inv :: "'m \<Rightarrow> ('t, 'm) lock_sys \<Rightarrow> bool" where
  "lock_inv g s \<longleftrightarrow> (\<forall>t. disciplined g (held s t) (script s t)) \<and>
     (\<forall>t u m. m \<in> set (held s t) \<longrightarrow> m \<in> set (held s u) \<longrightarrow> t = u)"

definition lock_start :: "('t \<Rightarrow> 'm lock_event list) \<Rightarrow> ('t, 'm) lock_sys" where
  "lock_start scr = \<lparr>script = scr, held = (\<lambda>_. [])\<rparr>"

definition all_done :: "('t, 'm) lock_sys \<Rightarrow> bool" where
  "all_done s \<longleftrightarrow> (\<forall>t. script s t = [])"

lemma lock_inv_start:
  "(\<And>t. disciplined g [] (scr t)) \<Longrightarrow> lock_inv g (lock_start scr)"
  by (simp add: lock_inv_def lock_start_def)

lemma lock_step_inv:
  assumes "lock_step s s'" "lock_inv g s"
  shows "lock_inv g s'"
  using assms
proof (induction rule: lock_step.induct)
  case (acquire s t m es)
  from acquire.prems have "disciplined g (held s t) (script s t)" by (simp add: lock_inv_def)
  with acquire show ?case by (auto simp: lock_inv_def)
next
  case (release s t m es)
  from release.prems have "disciplined g (held s t) (script s t)" by (simp add: lock_inv_def)
  with release show ?case by (auto simp: lock_inv_def)
qed

text \<open>
  No deadlock: while some thread has work left, some thread can move. A thread that is blocked
  while it holds a mutex holds the gate; two threads cannot both hold the gate.
\<close>

lemma blocked_holder_has_gate:
  assumes "lock_inv g s" "script s t = Acquire m # es" "held s t \<noteq> []"
  shows "g \<in> set (held s t)"
proof -
  from assms(1) have "disciplined g (held s t) (script s t)" by (simp add: lock_inv_def)
  with assms(2,3) show ?thesis by simp
qed

lemma stuck_holder:
  assumes "lock_inv g s" "\<not> (\<exists>s'. lock_step s s')" "held s t \<noteq> []"
  obtains m u es where "script s t = Acquire m # es" "m \<in> set (held s u)" "g \<in> set (held s t)"
    "m \<notin> set (held s t)"
proof (cases "script s t")
  case Nil
  with assms(1,3) show ?thesis by (metis disciplined.simps(1) lock_inv_def)
next
  case (Cons e es)
  show ?thesis
  proof (cases e)
    case (Release m)
    with Cons assms(2) lock_step.release [of s t m es] show ?thesis by auto
  next
    case (Acquire m)
    with Cons assms(2) lock_step.acquire [of s t m es] obtain u where "m \<in> set (held s u)"
      by auto
    moreover from assms(1) have "disciplined g (held s t) (script s t)" by (simp add: lock_inv_def)
    ultimately show ?thesis
      using that Acquire Cons blocked_holder_has_gate [OF assms(1)] assms(3) by auto
  qed
qed

lemma lock_progress:
  assumes inv: "lock_inv g s" and work: "script s t \<noteq> []"
  shows "\<exists>s'. lock_step s s'"
proof (rule ccontr)
  assume stuck: "\<not> (\<exists>s'. lock_step s s')"
  have nothing_held: "held s u = []" for u
  proof (rule ccontr)
    assume "held s u \<noteq> []"
    from stuck_holder [OF inv stuck this] obtain m v es where
      m: "m \<in> set (held s v)" and gu: "g \<in> set (held s u)" and mu: "m \<notin> set (held s u)" by blast
    from m have "held s v \<noteq> []" by auto
    from stuck_holder [OF inv stuck this] have "g \<in> set (held s v)" by blast
    with gu inv have "u = v" by (auto simp: lock_inv_def)
    with m mu show False by simp
  qed
  from work obtain e es where e: "script s t = e # es" by (cases "script s t") auto
  from inv have "disciplined g (held s t) (script s t)" by (simp add: lock_inv_def)
  with e nothing_held obtain m where "e = Acquire m" by (cases e) auto
  with lock_step.acquire [of s t m es] e nothing_held have "\<exists>s'. lock_step s s'" by auto
  with stuck show False by simp
qed

section \<open>Every run of finitely many threads can be completed\<close>

definition work_left :: "'t set \<Rightarrow> ('t, 'm) lock_sys \<Rightarrow> nat" where
  "work_left T s = (\<Sum>t\<in>T. length (script s t))"

lemma lock_step_work:
  assumes "lock_step s s'" "finite T" "\<And>t. t \<notin> T \<Longrightarrow> script s t = []"
  shows "work_left T s = Suc (work_left T s') \<and> (\<forall>t. t \<notin> T \<longrightarrow> script s' t = [])"
proof -
  obtain t e es where t: "script s t = e # es" and s': "script s' = (script s)(t := es)"
    using assms(1) by (cases rule: lock_step.cases) auto
  from t assms(3) have tT: "t \<in> T" by (metis list.distinct(1))
  have "(\<Sum>u\<in>T - {t}. length (script s' u)) = (\<Sum>u\<in>T - {t}. length (script s u))"
    by (rule sum.cong) (auto simp: s')
  then have "work_left T s = Suc (work_left T s')"
    using assms(2) tT t s' by (simp add: work_left_def sum.remove [of T t])
  with assms(3) s' tT show ?thesis by auto
qed

lemma lock_run_completes:
  assumes "lock_inv g s" "finite T" "\<And>t. t \<notin> T \<Longrightarrow> script s t = []"
  shows "\<exists>s'. lock_step\<^sup>*\<^sup>* s s' \<and> all_done s'"
  using assms
proof (induction "work_left T s" arbitrary: s)
  case 0
  then have "script s t = []" for t by (cases "t \<in> T") (auto simp: work_left_def)
  then show ?case by (auto simp: all_done_def)
next
  case (Suc n)
  from Suc.hyps(2) have "work_left T s \<noteq> 0" by simp
  then obtain t where "script s t \<noteq> []"
    unfolding work_left_def by (metis list.size(3) sum.neutral)
  with lock_progress [OF Suc.prems(1)] obtain s1 where s1: "lock_step s s1" by blast
  from lock_step_work [OF s1 Suc.prems(2,3)] Suc.hyps(2)
  have "n = work_left T s1" "\<And>t. t \<notin> T \<Longrightarrow> script s1 t = []" by auto
  with Suc.hyps(1) lock_step_inv [OF s1 Suc.prems(1)] Suc.prems(2)
  obtain s' where "lock_step\<^sup>*\<^sup>* s1 s'" "all_done s'" by blast
  with s1 show ?case by (meson converse_rtranclp_into_rtranclp)
qed

lemma lock_steps_inv: "lock_step\<^sup>*\<^sup>* s s' \<Longrightarrow> lock_inv g s \<Longrightarrow> lock_inv g s'"
  by (induction rule: rtranclp_induct) (auto intro: lock_step_inv)

lemma lock_steps_outside:
  "lock_step\<^sup>*\<^sup>* s s' \<Longrightarrow> (\<And>t. t \<notin> T \<Longrightarrow> script s t = []) \<Longrightarrow> finite T \<Longrightarrow>
   t \<notin> T \<Longrightarrow> script s' t = []"
  by (induction arbitrary: t rule: rtranclp_induct) (auto dest: lock_step_work)

section \<open>The interface of a component whose operations take locks\<close>

locale gated_ops =
  fixes gate :: 'm
    and completes :: "'op \<Rightarrow> bool"
    and script_of :: "'op \<Rightarrow> 'm lock_event list"
  assumes script_disciplined: "completes p \<Longrightarrow> disciplined gate [] (script_of p)"
begin

text \<open>Threads that run sequences of completing operations never block each other for good.\<close>

lemma threads_never_deadlock:
  fixes ops :: "'t \<Rightarrow> 'op list"
  assumes fin: "finite {t. ops t \<noteq> []}" and ret: "\<And>t p. p \<in> set (ops t) \<Longrightarrow> completes p"
    and run: "lock_step\<^sup>*\<^sup>* (lock_start (\<lambda>t. concat (map script_of (ops t)))) s"
  shows "\<exists>s'. lock_step\<^sup>*\<^sup>* s s' \<and> all_done s'"
proof -
  let ?s0 = "lock_start (\<lambda>t. concat (map script_of (ops t)))"
  let ?T = "{t. ops t \<noteq> []}"
  have "lock_inv gate ?s0"
    by (rule lock_inv_start) (auto intro!: disciplined_concat script_disciplined ret)
  with run have inv: "lock_inv gate s" by (rule lock_steps_inv)
  have "\<And>t. t \<notin> ?T \<Longrightarrow> script ?s0 t = []" by (simp add: lock_start_def)
  then have "\<And>t. t \<notin> ?T \<Longrightarrow> script s t = []"
    using lock_steps_outside [OF run _ fin] by blast
  with lock_run_completes [OF inv fin] show ?thesis by blast
qed

end

end
