(* ===== verification/Audio_Types.thy ===== *)
theory Audio_Types
  imports Prelude Lock_Order
begin

unbundle bit_operations_syntax

text \<open>
  The data of \<open>src/audio/audio_hw.c\<close>: the PCM configurations, the structs
  \<open>audio_device\<close>, \<open>stream_out\<close> and \<open>stream_in\<close>, and the platform the
  HAL runs on. The platform (tinyalsa, audio_route, the resampler of audio_utils, str_parms, the
  allocator and the constants of \<open>system/audio.h\<close>) is not part of the repository: it is
  the parameter \<open>audio_env\<close>, whose functions answer a call from the history of all calls
  made so far, so that any behaviour of a stateful library is an instance. The HAL's own calls are
  recorded, newest first, in the field \<open>calls\<close> of the state.
\<close>

section \<open>PCM configurations\<close>

datatype pcm_format = PCM_FORMAT_S16_LE

record pcm_config =
  channels :: int
  rate :: int
  period_size :: int
  period_count :: int
  format :: pcm_format
  start_threshold :: int
  stop_threshold :: int

definition PCM_CARD :: int where "PCM_CARD = 1"
definition PCM_DEVICE :: int where "PCM_DEVICE = 0"
definition PCM_DEVICE_SCO :: int where "PCM_DEVICE_SCO = 2"
definition MIXER_CARD :: int where "MIXER_CARD = 1"

definition OUT_PERIOD_SIZE :: int where "OUT_PERIOD_SIZE = 512"
definition OUT_SHORT_PERIOD_COUNT :: int where "OUT_SHORT_PERIOD_COUNT = 2"
definition OUT_LONG_PERIOD_COUNT :: int where "OUT_LONG_PERIOD_COUNT = 8"
definition OUT_SAMPLING_RATE :: int where "OUT_SAMPLING_RATE = 44100"

definition IN_PERIOD_SIZE :: int where "IN_PERIOD_SIZE = 1024"
definition IN_PERIOD_SIZE_LOW_LATENCY :: int where "IN_PERIOD_SIZE_LOW_LATENCY = 512"
definition IN_PERIOD_COUNT :: int where "IN_PERIOD_COUNT = 2"
definition IN_SAMPLING_RATE :: int where "IN_SAMPLING_RATE = 44100"

definition SCO_PERIOD_SIZE :: int where "SCO_PERIOD_SIZE = 256"
definition SCO_PERIOD_COUNT :: int where "SCO_PERIOD_COUNT = 4"
definition SCO_SAMPLING_RATE :: int where "SCO_SAMPLING_RATE = 8000"

definition MIN_WRITE_SLEEP_US :: int where "MIN_WRITE_SLEEP_US = 2000"
definition MAX_WRITE_SLEEP_US :: int where
  "MAX_WRITE_SLEEP_US = (OUT_PERIOD_SIZE * OUT_SHORT_PERIOD_COUNT * 1000000) div OUT_SAMPLING_RATE"

lemmas audio_consts =
  PCM_CARD_def PCM_DEVICE_def PCM_DEVICE_SCO_def MIXER_CARD_def
  OUT_PERIOD_SIZE_def OUT_SHORT_PERIOD_COUNT_def OUT_LONG_PERIOD_COUNT_def OUT_SAMPLING_RATE_def
  IN_PERIOD_SIZE_def IN_PERIOD_SIZE_LOW_LATENCY_def IN_PERIOD_COUNT_def IN_SAMPLING_RATE_def
  SCO_PERIOD_SIZE_def SCO_PERIOD_COUNT_def SCO_SAMPLING_RATE_def
  MIN_WRITE_SLEEP_US_def MAX_WRITE_SLEEP_US_def

definition pcm_config_out :: pcm_config where
  "pcm_config_out = \<lparr>channels = 2, rate = OUT_SAMPLING_RATE, period_size = OUT_PERIOD_SIZE,
     period_count = OUT_LONG_PERIOD_COUNT, format = PCM_FORMAT_S16_LE,
     start_threshold = OUT_PERIOD_SIZE * OUT_SHORT_PERIOD_COUNT, stop_threshold = 0\<rparr>"

definition pcm_config_in :: pcm_config where
  "pcm_config_in = \<lparr>channels = 2, rate = IN_SAMPLING_RATE, period_size = IN_PERIOD_SIZE,
     period_count = IN_PERIOD_COUNT, format = PCM_FORMAT_S16_LE,
     start_threshold = 1, stop_threshold = IN_PERIOD_SIZE * IN_PERIOD_COUNT\<rparr>"

definition pcm_config_in_low_latency :: pcm_config where
  "pcm_config_in_low_latency = \<lparr>channels = 2, rate = IN_SAMPLING_RATE,
     period_size = IN_PERIOD_SIZE_LOW_LATENCY,
     period_count = IN_PERIOD_COUNT, format = PCM_FORMAT_S16_LE,
     start_threshold = 1, stop_threshold = IN_PERIOD_SIZE_LOW_LATENCY * IN_PERIOD_COUNT\<rparr>"

definition pcm_config_sco :: pcm_config where
  "pcm_config_sco = \<lparr>channels = 1, rate = SCO_SAMPLING_RATE, period_size = SCO_PERIOD_SIZE,
     period_count = SCO_PERIOD_COUNT, format = PCM_FORMAT_S16_LE,
     start_threshold = 0, stop_threshold = 0\<rparr>"

lemmas pcm_config_defs =
  pcm_config_out_def pcm_config_in_def pcm_config_in_low_latency_def pcm_config_sco_def

section \<open>Structs\<close>

datatype out_buffer_type = OUT_BUFFER_TYPE_UNKNOWN | OUT_BUFFER_TYPE_SHORT | OUT_BUFFER_TYPE_LONG

datatype orient =
  ORIENTATION_LANDSCAPE | ORIENTATION_PORTRAIT | ORIENTATION_SQUARE | ORIENTATION_UNDEFINED

text \<open>
  Handles of the libraries are opaque numbers, \<open>None\<close> is the null pointer; a stream is
  named by its address, also a number. A \<open>pcm_config\<close> pointer only ever points at one of
  the four configurations above, which nothing writes, so the field holds the configuration.
  The function tables, the mutexes (they are named by the type \<open>mutex\<close> below), the back
  pointers to the device and the field \<open>standby\<close> of \<open>audio_device\<close>, which no
  function reads or writes, are left out.
\<close>

type_synonym handle = nat
type_synonym addr = nat

record audio_device =
  out_device :: mask
  in_device :: mask
  mic_mute :: bool
  ar :: "handle option"
  orientation :: orient
  screen_off :: bool
  active_out :: "addr option"
  active_in :: "addr option"

record stream_out =
  o_pcm :: "handle option"
  o_config :: "pcm_config option"
  o_standby :: bool
  o_written :: int
  o_resampler :: "handle option"
  o_buffer :: "s16 list option"
  o_buffer_frames :: int
  write_threshold :: int
  cur_write_threshold :: int
  buffer_type :: out_buffer_type

record stream_in =
  i_pcm :: "handle option"
  i_config :: pcm_config
  i_config_non_sco :: pcm_config
  i_standby :: bool
  requested_rate :: int
  i_resampler :: "handle option"
  i_buffer :: "s16 list option"
  i_buffer_size :: int
  frames_in :: int
  read_status :: int

section \<open>Calls and the platform\<close>

datatype mutex = MDev | MOut addr | MIn addr

datatype pcm_dir = PCM_OUT_NORESTART_MONOTONIC | PCM_IN

datatype call =
    Lock mutex | Unlock mutex
  | AudioRouteInit int | AudioRouteReset | AudioRouteApplyPath string | AudioRouteUpdateMixer
  | AudioRouteFree
  | PcmOpen int int pcm_dir pcm_config "handle option" | PcmClose "handle option"
  | PcmWrite "handle option" "s16 list" int | PcmRead "handle option" int
  | PcmGetHtimestamp "handle option"
  | CreateResampler int int int "handle option" | ReleaseResampler handle
  | ResampleFromInput handle "s16 list" int int
  | ResampleFromProvider handle int
  | ProviderGet int | ProviderRelease int
  | Malloc int | FreeBuffer | Calloc | FreeStream
  | Usleep int

text \<open>
  \<open>resample_from_provider\<close> pulls its input through the callbacks of the provider it was
  created with. One such call is a finite conversation: it asks for a buffer of some frames and
  goes on with the answer (the status, the frame count and the samples the callback returned),
  gives frames back, and ends with the frames it produced.
\<close>

datatype provider_prog =
    Produced "s16 list" int
  | NextBuffer int "int \<Rightarrow> int \<Rightarrow> s16 list option \<Rightarrow> provider_prog"
  | ReleaseBuffer int provider_prog

datatype ht_result = HtErr | HtOk int int

text \<open>
  The constants and inline functions of the Android headers, and the libraries on top of them.
  \<open>calloc_stream\<close> is told which stream addresses are in use, which the allocator knows.
\<close>

record audio_hdr =
  AUDIO_DEVICE_OUT_SPEAKER :: mask
  AUDIO_DEVICE_OUT_WIRED_HEADSET :: mask
  AUDIO_DEVICE_OUT_WIRED_HEADPHONE :: mask
  AUDIO_DEVICE_OUT_ANLG_DOCK_HEADSET :: mask
  AUDIO_DEVICE_OUT_ALL_SCO :: mask
  AUDIO_DEVICE_BIT_IN :: mask
  AUDIO_DEVICE_IN_BUILTIN_MIC :: mask
  AUDIO_DEVICE_IN_ALL_SCO :: mask
  AUDIO_CHANNEL_OUT_STEREO :: mask
  AUDIO_CHANNEL_IN_MONO :: mask
  AUDIO_FORMAT_PCM_16_BIT :: mask
  AUDIO_INPUT_FLAG_FAST :: mask
  AUDIO_PARAMETER_STREAM_ROUTING :: string
  AUDIO_PARAMETER_VALUE_ON :: string
  AUDIO_HARDWARE_INTERFACE :: string
  audio_stream_out_frame_size :: int
  audio_stream_in_frame_size :: int
  audio_channel_count_from_out_mask :: "mask \<Rightarrow> int"
  audio_channel_count_from_in_mask :: "mask \<Rightarrow> int"
  audio_bytes_per_sample :: "mask \<Rightarrow> int"

record audio_lib = audio_hdr +
  str_parms_get_str :: "string \<Rightarrow> string \<Rightarrow> int \<times> string"
  audio_route_init :: "call list \<Rightarrow> int \<Rightarrow> handle option"
  pcm_open :: "call list \<Rightarrow> int \<Rightarrow> int \<Rightarrow> pcm_dir \<Rightarrow> pcm_config \<Rightarrow> handle option"
  pcm_is_ready :: "call list \<Rightarrow> handle option \<Rightarrow> bool"
  pcm_frames_to_bytes :: "pcm_config \<Rightarrow> int \<Rightarrow> int"
  pcm_get_buffer_size :: "pcm_config \<Rightarrow> int"

record audio_env = audio_lib +
  pcm_get_htimestamp :: "call list \<Rightarrow> handle option \<Rightarrow> ht_result"
  pcm_write :: "call list \<Rightarrow> handle option \<Rightarrow> s16 list \<Rightarrow> int \<Rightarrow> int"
  pcm_read :: "call list \<Rightarrow> handle option \<Rightarrow> int \<Rightarrow> int \<times> s16 list"
  create_resampler :: "call list \<Rightarrow> int \<Rightarrow> int \<Rightarrow> int \<Rightarrow> handle option"
  resample_from_input ::
    "call list \<Rightarrow> handle \<Rightarrow> s16 list \<Rightarrow> int \<Rightarrow> int \<Rightarrow> int \<times> s16 list \<times> int"
  resample_from_provider :: "call list \<Rightarrow> handle \<Rightarrow> int \<Rightarrow> provider_prog"
  malloc :: "call list \<Rightarrow> int \<Rightarrow> s16 list option"
  calloc_stream :: "call list \<Rightarrow> (addr \<Rightarrow> bool) \<Rightarrow> addr option"
  calloc_device :: "bool"
  uninitialised :: "call list \<Rightarrow> int"

section \<open>The state of the HAL\<close>

record audio_state =
  dev :: audio_device
  outs :: "addr \<Rightarrow> stream_out"
  ins :: "addr \<Rightarrow> stream_in"
  out_live :: "addr \<Rightarrow> bool"
  in_live :: "addr \<Rightarrow> bool"
  calls :: "call list"

definition emit :: "call \<Rightarrow> audio_state \<Rightarrow> audio_state" where
  "emit c s = s\<lparr>calls := c # calls s\<rparr>"

definition upd_out :: "addr \<Rightarrow> (stream_out \<Rightarrow> stream_out) \<Rightarrow> audio_state \<Rightarrow> audio_state" where
  "upd_out a f s = s\<lparr>outs := (outs s)(a := f (outs s a))\<rparr>"

definition upd_in :: "addr \<Rightarrow> (stream_in \<Rightarrow> stream_in) \<Rightarrow> audio_state \<Rightarrow> audio_state" where
  "upd_in a f s = s\<lparr>ins := (ins s)(a := f (ins s a))\<rparr>"

definition upd_dev :: "(audio_device \<Rightarrow> audio_device) \<Rightarrow> audio_state \<Rightarrow> audio_state" where
  "upd_dev f s = s\<lparr>dev := f (dev s)\<rparr>"

text \<open>The configuration an output stream points at; its pointer is null before the first start.\<close>

definition out_cfg :: "audio_state \<Rightarrow> addr \<Rightarrow> pcm_config" where
  "out_cfg s a = the (o_config (outs s a))"

lemma emit_sel [simp]:
  "dev (emit c s) = dev s" "outs (emit c s) = outs s" "ins (emit c s) = ins s"
  "out_live (emit c s) = out_live s" "in_live (emit c s) = in_live s"
  "calls (emit c s) = c # calls s"
  by (simp_all add: emit_def)

lemma upd_out_sel [simp]:
  "dev (upd_out a f s) = dev s" "outs (upd_out a f s) = (outs s)(a := f (outs s a))"
  "ins (upd_out a f s) = ins s" "out_live (upd_out a f s) = out_live s"
  "in_live (upd_out a f s) = in_live s" "calls (upd_out a f s) = calls s"
  by (simp_all add: upd_out_def)

lemma upd_in_sel [simp]:
  "dev (upd_in a f s) = dev s" "ins (upd_in a f s) = (ins s)(a := f (ins s a))"
  "outs (upd_in a f s) = outs s" "out_live (upd_in a f s) = out_live s"
  "in_live (upd_in a f s) = in_live s" "calls (upd_in a f s) = calls s"
  by (simp_all add: upd_in_def)

lemma upd_dev_sel [simp]:
  "dev (upd_dev f s) = f (dev s)" "outs (upd_dev f s) = outs s" "ins (upd_dev f s) = ins s"
  "out_live (upd_dev f s) = out_live s" "in_live (upd_dev f s) = in_live s"
  "calls (upd_dev f s) = calls s"
  by (simp_all add: upd_dev_def)

end
