(* ===== verification/Ledger.thy ===== *)
theory Ledger
  imports Main
begin

text \<open>
  Handles a component obtains from a library and gives back: PCM devices and resamplers in the
  audio HAL, sessions and object handles of the secure element in the keymaster, file descriptors
  in the power HAL. A trace of calls (newest first) determines which handles are open; the locale
  \<open>handle_ledger\<close> relates them to the owners in a state: every open handle has exactly
  one owner and every owner's handle is open, so nothing leaks and nothing is closed twice.
\<close>

fun open_handles :: "('c \<Rightarrow> 'h option) \<Rightarrow> ('c \<Rightarrow> 'h option) \<Rightarrow> 'c list \<Rightarrow> 'h set" where
  "open_handles opens closes [] = {}"
| "open_handles opens closes (c # cs) =
     (case opens c of
        Some h \<Rightarrow> insert h (open_handles opens closes cs)
      | None \<Rightarrow> (case closes c of
          Some h \<Rightarrow> open_handles opens closes cs - {h}
        | None \<Rightarrow> open_handles opens closes cs))"

definition owned :: "('c \<Rightarrow> 'h option) \<Rightarrow> ('c \<Rightarrow> 'h option) \<Rightarrow> 'c list \<Rightarrow> ('w \<Rightarrow> 'h \<Rightarrow> bool) \<Rightarrow> bool" where
  "owned opens closes cs H \<longleftrightarrow>
     (\<forall>h. h \<in> open_handles opens closes cs \<longleftrightarrow> (\<exists>w. H w h)) \<and>
     (\<forall>v w h. H v h \<longrightarrow> H w h \<longrightarrow> v = w)"

locale handle_ledger =
  fixes opens :: "'c \<Rightarrow> 'h option"
    and closes :: "'c \<Rightarrow> 'h option"
  assumes not_both: "opens c = Some h \<Longrightarrow> closes c = None"
begin

abbreviation live :: "'c list \<Rightarrow> 'h set" where
  "live \<equiv> open_handles opens closes"

lemma live_neutral:
  "(\<And>c. c \<in> set cs \<Longrightarrow> opens c = None \<and> closes c = None) \<Longrightarrow> live (cs @ ds) = live ds"
  by (induction cs) auto

lemma owned_empty: "(\<And>w h. \<not> H w h) \<Longrightarrow> owned opens closes [] H"
  by (simp add: owned_def)

text \<open>Calls that neither open nor close, while the owners stay as they are.\<close>

lemma owned_neutral:
  assumes "owned opens closes ds H"
    and "\<And>c. c \<in> set cs \<Longrightarrow> opens c = None \<and> closes c = None"
    and "\<And>w h. H' w h \<longleftrightarrow> H w h"
  shows "owned opens closes (cs @ ds) H'"
  using assms by (simp add: owned_def live_neutral)

lemma owned_skip:
  "owned opens closes cs H \<Longrightarrow> opens c = None \<Longrightarrow> closes c = None \<Longrightarrow> owned opens closes (c # cs) H"
  by (simp add: owned_def)

text \<open>A fresh handle goes to an owner.\<close>

lemma owned_open:
  assumes "owned opens closes cs H" "opens c = Some h" "h \<notin> live cs"
    and "\<And>w k. H' w k \<longleftrightarrow> H w k \<or> w = x \<and> k = h"
  shows "owned opens closes (c # cs) H'"
proof -
  from assms(1,3) have n: "\<And>w. \<not> H w h" by (auto simp: owned_def)
  have l: "live (c # cs) = insert h (live cs)" using assms(2) by simp
  from assms(1) have a: "\<And>k. k \<in> live cs \<longleftrightarrow> (\<exists>w. H w k)"
    and b: "\<And>v w k. H v k \<Longrightarrow> H w k \<Longrightarrow> v = w"
    by (auto simp: owned_def)
  show ?thesis unfolding owned_def l
  proof (intro conjI allI impI)
    show "k \<in> insert h (live cs) \<longleftrightarrow> (\<exists>w. H' w k)" for k
      by (metis a assms(4) insert_iff)
    show "v = w" if "H' v k" "H' w k" for v w k
      by (metis that assms(4) n b)
  qed
qed

text \<open>An owner gives its handle back.\<close>

lemma owned_close:
  assumes "owned opens closes cs H" "opens c = None" "closes c = Some h" "H x h"
    and "\<And>w k. H' w k \<longleftrightarrow> H w k \<and> \<not> (w = x \<and> k = h)"
  shows "owned opens closes (c # cs) H'"
proof -
  from assms(1,4) have n: "\<And>w. H w h \<Longrightarrow> w = x" by (auto simp: owned_def)
  have l: "live (c # cs) = live cs - {h}" using assms(2,3) by simp
  from assms(1) have a: "\<And>k. k \<in> live cs \<longleftrightarrow> (\<exists>w. H w k)"
    and b: "\<And>v w k. H v k \<Longrightarrow> H w k \<Longrightarrow> v = w"
    by (auto simp: owned_def)
  show ?thesis unfolding owned_def l
  proof (intro conjI allI impI)
    show "k \<in> live cs - {h} \<longleftrightarrow> (\<exists>w. H' w k)" for k
      by (metis a assms(5) n Diff_iff singleton_iff)
    show "v = w" if "H' v k" "H' w k" for v w k
      by (metis that assms(5) b)
  qed
qed

text \<open>A handle that is opened and closed again at once.\<close>

lemma owned_open_close:
  assumes "owned opens closes cs H" "opens c = Some h" "h \<notin> live cs"
    and "opens d = None" "closes d = Some h" "\<And>w k. H' w k \<longleftrightarrow> H w k"
  shows "owned opens closes (d # c # cs) H'"
proof -
  have l: "live (d # c # cs) = live cs" using assms(2-5) by simp
  from assms(1) show ?thesis unfolding owned_def l assms(6) .
qed

text \<open>Without owners nothing is open.\<close>

lemma owned_nothing_left:
  "owned opens closes cs H \<Longrightarrow> (\<And>w h. \<not> H w h) \<Longrightarrow> live cs = {}"
  by (auto simp: owned_def)

end

end
