(* ===== verification/Audio_Device.thy ===== *)
theory Audio_Device
  imports Audio_Types Ledger
begin

unbundle bit_operations_syntax

text \<open>
  The helper functions of \<open>audio_hw.c\<close> that the stream operations share: the mixer
  routes (\<open>select_devices\<close>), the two standby routines and the two start routines. Each
  is the C function on the explicit store of \<open>Audio_Types\<close>. The lemmas say what they do
  to the device, to the streams and to the call trace: which locks they take, which PCM and
  resampler handles they open and close.
\<close>

section \<open>Operations\<close>

text \<open>\<open>select_devices\<close>\<close>

definition select_devices :: "audio_env \<Rightarrow> audio_state \<Rightarrow> audio_state" where
  "select_devices E s =
     (let adev = dev s;
          headphone_on = out_device adev AND
            (AUDIO_DEVICE_OUT_WIRED_HEADSET E OR AUDIO_DEVICE_OUT_WIRED_HEADPHONE E) \<noteq> 0;
          speaker_on = out_device adev AND AUDIO_DEVICE_OUT_SPEAKER E \<noteq> 0;
          docked = out_device adev AND AUDIO_DEVICE_OUT_ANLG_DOCK_HEADSET E \<noteq> 0;
          main_mic_on = in_device adev AND AUDIO_DEVICE_IN_BUILTIN_MIC E \<noteq> 0;
          s = emit AudioRouteReset s;
          s = (if speaker_on then emit (AudioRouteApplyPath ''speaker'') s else s);
          s = (if headphone_on then emit (AudioRouteApplyPath ''headphone'') s else s);
          s = (if docked then emit (AudioRouteApplyPath ''dock'') s else s);
          s = (if main_mic_on then
                 (if orientation adev = ORIENTATION_LANDSCAPE
                  then emit (AudioRouteApplyPath ''main-mic-left'') s
                  else emit (AudioRouteApplyPath ''main-mic-top'') s)
               else s)
      in emit AudioRouteUpdateMixer s)"

text \<open>\<open>do_out_standby\<close> and \<open>do_in_standby\<close>\<close>

definition release_resampler :: "handle option \<Rightarrow> audio_state \<Rightarrow> audio_state" where
  "release_resampler r s = (case r of None \<Rightarrow> s | Some h \<Rightarrow> emit (ReleaseResampler h) s)"

definition free_buffer :: "s16 list option \<Rightarrow> audio_state \<Rightarrow> audio_state" where
  "free_buffer b s = (case b of None \<Rightarrow> s | Some _ \<Rightarrow> emit FreeBuffer s)"

definition do_out_standby :: "addr \<Rightarrow> audio_state \<Rightarrow> audio_state" where
  "do_out_standby a s =
     (let out = outs s a in
      if \<not> o_standby out then
        let s = emit (PcmClose (o_pcm out)) s;
            s = upd_out a (\<lambda>x. x\<lparr>o_pcm := None\<rparr>) s;
            s = upd_dev (\<lambda>d. d\<lparr>active_out := None\<rparr>) s;
            s = upd_out a (\<lambda>x. x\<lparr>o_resampler := None\<rparr>) (release_resampler (o_resampler out) s);
            s = upd_out a (\<lambda>x. x\<lparr>o_buffer := None\<rparr>) (free_buffer (o_buffer out) s)
        in upd_out a (\<lambda>x. x\<lparr>o_standby := True\<rparr>) s
      else s)"

definition do_in_standby :: "addr \<Rightarrow> audio_state \<Rightarrow> audio_state" where
  "do_in_standby a s =
     (let inp = ins s a in
      if \<not> i_standby inp then
        let s = emit (PcmClose (i_pcm inp)) s;
            s = upd_in a (\<lambda>x. x\<lparr>i_pcm := None\<rparr>) s;
            s = upd_dev (\<lambda>d. d\<lparr>active_in := None\<rparr>) s;
            s = upd_in a (\<lambda>x. x\<lparr>i_resampler := None\<rparr>) (release_resampler (i_resampler inp) s);
            s = upd_in a (\<lambda>x. x\<lparr>i_buffer := None\<rparr>) (free_buffer (i_buffer inp) s)
        in upd_in a (\<lambda>x. x\<lparr>i_standby := True\<rparr>) s
      else s)"

text \<open>
  The test both start routines make: a PCM that is to run at one group of rates conflicts with one
  that runs at the other.
\<close>

definition rates_conflict :: "int \<Rightarrow> int \<Rightarrow> bool" where
  "rates_conflict new old \<longleftrightarrow>
     new mod 8000 = 0 \<and> old mod 8000 \<noteq> 0 \<or> new mod 11025 = 0 \<and> old mod 11025 \<noteq> 0"

text \<open>\<open>start_output_stream\<close>\<close>

definition out_get_sample_rate :: int where
  "out_get_sample_rate = rate pcm_config_out"

definition out_choose_config :: "audio_env \<Rightarrow> addr \<Rightarrow> audio_state \<Rightarrow> int \<times> pcm_config \<times> audio_state" where
  "out_choose_config E a s =
     (if out_device (dev s) AND AUDIO_DEVICE_OUT_ALL_SCO E \<noteq> 0
      then (PCM_DEVICE_SCO, pcm_config_sco, upd_out a (\<lambda>x. x\<lparr>o_config := Some pcm_config_sco\<rparr>) s)
      else (PCM_DEVICE, pcm_config_out,
            upd_out a (\<lambda>x. x\<lparr>o_config := Some pcm_config_out,
                             buffer_type := OUT_BUFFER_TYPE_UNKNOWN\<rparr>) s))"

definition stop_conflicting_input :: "int \<Rightarrow> audio_state \<Rightarrow> audio_state" where
  "stop_conflicting_input r s =
     (case active_in (dev s) of
        None \<Rightarrow> s
      | Some i \<Rightarrow>
          let s = emit (Lock (MIn i)) s;
              s = (if rates_conflict r (rate (i_config (ins s i))) then do_in_standby i s else s)
          in emit (Unlock (MIn i)) s)"

definition out_create_resampler :: "audio_env \<Rightarrow> addr \<Rightarrow> pcm_config \<Rightarrow> audio_state \<Rightarrow> audio_state" where
  "out_create_resampler E a cfg s =
     (let h = create_resampler E (calls s) out_get_sample_rate (rate cfg) (channels cfg);
          s = emit (CreateResampler out_get_sample_rate (rate cfg) (channels cfg) h) s;
          frames = u32 (u32 (period_size pcm_config_out * rate cfg) div out_get_sample_rate + 1);
          bytes = pcm_frames_to_bytes E cfg frames;
          b = malloc E (calls s) bytes;
          s = emit (Malloc bytes) s
      in upd_out a (\<lambda>x. x\<lparr>o_resampler := h, o_buffer_frames := frames, o_buffer := b\<rparr>) s)"

definition start_output_stream :: "audio_env \<Rightarrow> addr \<Rightarrow> audio_state \<Rightarrow> int \<times> audio_state" where
  "start_output_stream E a s =
     (let (device, cfg, s) = out_choose_config E a s;
          s = stop_conflicting_input (rate cfg) s;
          p = pcm_open E (calls s) PCM_CARD device PCM_OUT_NORESTART_MONOTONIC cfg;
          s = emit (PcmOpen PCM_CARD device PCM_OUT_NORESTART_MONOTONIC cfg p) s;
          s = upd_out a (\<lambda>x. x\<lparr>o_pcm := p\<rparr>) s
      in if p \<noteq> None \<and> \<not> pcm_is_ready E (calls s) p
         then (- ENOMEM, emit (PcmClose p) s)
         else
           let s = (if out_get_sample_rate \<noteq> rate cfg then out_create_resampler E a cfg s else s)
           in (0, upd_dev (\<lambda>d. d\<lparr>active_out := Some a\<rparr>) s))"

text \<open>\<open>start_input_stream\<close>\<close>

definition in_choose_config :: "audio_env \<Rightarrow> addr \<Rightarrow> audio_state \<Rightarrow> int \<times> pcm_config \<times> audio_state" where
  "in_choose_config E a s =
     (if in_device (dev s) AND AUDIO_DEVICE_IN_ALL_SCO E \<noteq> 0
      then (PCM_DEVICE_SCO, pcm_config_sco, upd_in a (\<lambda>x. x\<lparr>i_config := pcm_config_sco\<rparr>) s)
      else (PCM_DEVICE, i_config_non_sco (ins s a),
            upd_in a (\<lambda>x. x\<lparr>i_config := i_config_non_sco x\<rparr>) s))"

definition stop_conflicting_output :: "int \<Rightarrow> audio_state \<Rightarrow> audio_state" where
  "stop_conflicting_output r s =
     (case active_out (dev s) of
        None \<Rightarrow> s
      | Some a \<Rightarrow>
          let s = emit (Lock (MOut a)) s;
              s = (if rates_conflict r (rate (out_cfg s a)) then do_out_standby a s else s)
          in emit (Unlock (MOut a)) s)"

definition in_create_resampler :: "audio_env \<Rightarrow> addr \<Rightarrow> pcm_config \<Rightarrow> audio_state \<Rightarrow> audio_state" where
  "in_create_resampler E a cfg s =
     (let r = requested_rate (ins s a);
          h = create_resampler E (calls s) (rate cfg) r 1;
          s = emit (CreateResampler (rate cfg) r 1 h) s
      in upd_in a (\<lambda>x. x\<lparr>i_resampler := h\<rparr>) s)"

definition in_alloc_buffer :: "audio_env \<Rightarrow> addr \<Rightarrow> pcm_config \<Rightarrow> audio_state \<Rightarrow> audio_state" where
  "in_alloc_buffer E a cfg s =
     (let size = pcm_frames_to_bytes E cfg (period_size cfg);
          b = malloc E (calls s) size;
          s = emit (Malloc size) s
      in upd_in a (\<lambda>x. x\<lparr>i_buffer_size := size, i_buffer := b, frames_in := 0\<rparr>) s)"

definition start_input_stream :: "audio_env \<Rightarrow> addr \<Rightarrow> audio_state \<Rightarrow> int \<times> audio_state" where
  "start_input_stream E a s =
     (let (device, cfg, s) = in_choose_config E a s;
          s = stop_conflicting_output (rate cfg) s;
          p = pcm_open E (calls s) PCM_CARD device PCM_IN cfg;
          s = emit (PcmOpen PCM_CARD device PCM_IN cfg p) s;
          s = upd_in a (\<lambda>x. x\<lparr>i_pcm := p\<rparr>) s
      in if p \<noteq> None \<and> \<not> pcm_is_ready E (calls s) p
         then (- ENOMEM, emit (PcmClose p) s)
         else
           let s = (if requested_rate (ins s a) \<noteq> rate cfg then in_create_resampler E a cfg s else s);
               s = in_alloc_buffer E a cfg s
           in (0, upd_dev (\<lambda>d. d\<lparr>active_in := Some a\<rparr>) s))"

section \<open>Observing the call trace\<close>

text \<open>The lock and unlock calls of a trace, oldest first.\<close>

fun lock_events :: "call list \<Rightarrow> mutex lock_event list" where
  "lock_events [] = []"
| "lock_events (Lock m # cs) = lock_events cs @ [Acquire m]"
| "lock_events (Unlock m # cs) = lock_events cs @ [Release m]"
| "lock_events (_ # cs) = lock_events cs"

fun pcm_opens :: "call \<Rightarrow> handle option" where
  "pcm_opens (PcmOpen _ _ _ _ p) = p"
| "pcm_opens _ = None"

fun pcm_closes :: "call \<Rightarrow> handle option" where
  "pcm_closes (PcmClose p) = p"
| "pcm_closes _ = None"

fun res_opens :: "call \<Rightarrow> handle option" where
  "res_opens (CreateResampler _ _ _ h) = h"
| "res_opens _ = None"

fun res_closes :: "call \<Rightarrow> handle option" where
  "res_closes (ReleaseResampler h) = Some h"
| "res_closes _ = None"

interpretation pcm: handle_ledger pcm_opens pcm_closes
proof
  show "pcm_closes c = None" if "pcm_opens c = Some h" for c h using that by (cases c) auto
qed

interpretation res: handle_ledger res_opens res_closes
proof
  show "res_closes c = None" if "res_opens c = Some h" for c h using that by (cases c) auto
qed

text \<open>Which stream (named by its mutex) holds which open handle.\<close>

fun pcm_holds :: "audio_state \<Rightarrow> mutex \<Rightarrow> handle \<Rightarrow> bool" where
  "pcm_holds s MDev h = False"
| "pcm_holds s (MOut a) h =
     (out_live s a \<and> \<not> o_standby (outs s a) \<and> o_pcm (outs s a) = Some h)"
| "pcm_holds s (MIn a) h =
     (in_live s a \<and> \<not> i_standby (ins s a) \<and> i_pcm (ins s a) = Some h)"

fun res_holds :: "audio_state \<Rightarrow> mutex \<Rightarrow> handle \<Rightarrow> bool" where
  "res_holds s MDev h = False"
| "res_holds s (MOut a) h =
     (out_live s a \<and> \<not> o_standby (outs s a) \<and> o_resampler (outs s a) = Some h)"
| "res_holds s (MIn a) h =
     (in_live s a \<and> \<not> i_standby (ins s a) \<and> i_resampler (ins s a) = Some h)"

section \<open>The invariant\<close>

text \<open>The active streams of the device are allocated and running.\<close>

definition active_ok :: "audio_state \<Rightarrow> bool" where
  "active_ok s \<longleftrightarrow>
     (\<forall>a. active_out (dev s) = Some a \<longrightarrow> out_live s a \<and> \<not> o_standby (outs s a)) \<and>
     (\<forall>a. active_in (dev s) = Some a \<longrightarrow> in_live s a \<and> \<not> i_standby (ins s a))"

text \<open>A stream points at a configuration of its direction, and one in standby holds no memory.\<close>

definition cfg_ok :: "audio_state \<Rightarrow> bool" where
  "cfg_ok s \<longleftrightarrow>
     (\<forall>a. out_live s a \<longrightarrow> \<not> o_standby (outs s a) \<longrightarrow>
        o_config (outs s a) \<in> {Some pcm_config_out, Some pcm_config_sco}) \<and>
     (\<forall>a. in_live s a \<longrightarrow>
        i_config_non_sco (ins s a) \<in> {pcm_config_in, pcm_config_in_low_latency} \<and>
        i_config (ins s a) \<in> {pcm_config_in, pcm_config_in_low_latency, pcm_config_sco})"

definition idle_ok :: "audio_state \<Rightarrow> bool" where
  "idle_ok s \<longleftrightarrow>
     (\<forall>a. out_live s a \<longrightarrow> o_standby (outs s a) \<longrightarrow>
        o_resampler (outs s a) = None \<and> o_buffer (outs s a) = None) \<and>
     (\<forall>a. in_live s a \<longrightarrow> i_standby (ins s a) \<longrightarrow>
        i_resampler (ins s a) = None \<and> i_buffer (ins s a) = None)"

text \<open>The two active streams use the same group of rates.\<close>

definition rates_ok :: "audio_state \<Rightarrow> bool" where
  "rates_ok s \<longleftrightarrow>
     (\<forall>a i. active_out (dev s) = Some a \<longrightarrow> active_in (dev s) = Some i \<longrightarrow>
        \<not> rates_conflict (rate (out_cfg s a)) (rate (i_config (ins s i))))"

text \<open>The open PCM devices and resamplers are those of the running streams.\<close>

definition handles_ok :: "audio_state \<Rightarrow> bool" where
  "handles_ok s \<longleftrightarrow> owned pcm_opens pcm_closes (calls s) (pcm_holds s) \<and>
     owned res_opens res_closes (calls s) (res_holds s)"

definition audio_inv :: "audio_state \<Rightarrow> bool" where
  "audio_inv s \<longleftrightarrow> active_ok s \<and> cfg_ok s \<and> idle_ok s \<and> rates_ok s \<and> handles_ok s"

text \<open>
  What the libraries promise about handles: \<open>pcm_open\<close> and \<open>create_resampler\<close>
  return one that is not in use.
\<close>

definition fresh_handles :: "audio_env \<Rightarrow> bool" where
  "fresh_handles E \<longleftrightarrow>
     (\<forall>cs card device dir cfg h. pcm_open E cs card device dir cfg = Some h \<longrightarrow> h \<notin> pcm.live cs) \<and>
     (\<forall>cs a b c h. create_resampler E cs a b c = Some h \<longrightarrow> h \<notin> res.live cs)"

section \<open>Rate groups\<close>

lemma rates_conflict_sym_on_configs:
  assumes "c \<in> {pcm_config_out, pcm_config_in, pcm_config_in_low_latency, pcm_config_sco}"
    and "d \<in> {pcm_config_out, pcm_config_in, pcm_config_in_low_latency, pcm_config_sco}"
  shows "rates_conflict (rate c) (rate d) \<longleftrightarrow> rates_conflict (rate d) (rate c)"
  using assms by (auto simp: rates_conflict_def pcm_config_defs audio_consts)

section \<open>Effect of the helpers\<close>

lemma neutral_emit_handles:
  assumes "handles_ok s" "pcm_opens c = None" "pcm_closes c = None" "res_opens c = None" "res_closes c = None"
  shows "handles_ok (emit c s)"
proof -
  have "pcm_holds (emit c s) w h = pcm_holds s w h" "res_holds (emit c s) w h = res_holds s w h" for w h
    by (cases w; simp)+
  with assms pcm.owned_neutral [of "calls s" "pcm_holds s" "[c]" "pcm_holds (emit c s)"]
    res.owned_neutral [of "calls s" "res_holds s" "[c]" "res_holds (emit c s)"]
  show ?thesis by (simp add: handles_ok_def)
qed

lemma inv_emit:
  assumes "audio_inv s" "pcm_opens c = None" "pcm_closes c = None" "res_opens c = None" "res_closes c = None"
  shows "audio_inv (emit c s)"
  using assms neutral_emit_handles [OF _ assms(2-5)]
  by (simp add: audio_inv_def active_ok_def cfg_ok_def idle_ok_def rates_ok_def out_cfg_def)

lemma inv_lock [simp]: "audio_inv s \<Longrightarrow> audio_inv (emit (Lock m) s)"
  and inv_unlock [simp]: "audio_inv s \<Longrightarrow> audio_inv (emit (Unlock m) s)"
  by (simp_all add: inv_emit)

text \<open>The routes \<open>select_devices\<close> applies, in order.\<close>

definition routes :: "audio_env \<Rightarrow> audio_device \<Rightarrow> string list" where
  "routes E d =
     (if out_device d AND AUDIO_DEVICE_OUT_SPEAKER E \<noteq> 0 then [''speaker''] else []) @
     (if out_device d AND (AUDIO_DEVICE_OUT_WIRED_HEADSET E OR AUDIO_DEVICE_OUT_WIRED_HEADPHONE E) \<noteq> 0
      then [''headphone''] else []) @
     (if out_device d AND AUDIO_DEVICE_OUT_ANLG_DOCK_HEADSET E \<noteq> 0 then [''dock''] else []) @
     (if in_device d AND AUDIO_DEVICE_IN_BUILTIN_MIC E \<noteq> 0
      then [if orientation d = ORIENTATION_LANDSCAPE then ''main-mic-left'' else ''main-mic-top'']
      else [])"

lemma select_devices_eq:
  "select_devices E s =
     s\<lparr>calls := AudioRouteUpdateMixer # rev (map AudioRouteApplyPath (routes E (dev s))) @
        AudioRouteReset # calls s\<rparr>"
  by (simp add: select_devices_def routes_def Let_def emit_def)

lemma lock_events_neutral:
  "(\<And>c. c \<in> set cs \<Longrightarrow> (\<forall>m. c \<noteq> Lock m \<and> c \<noteq> Unlock m)) \<Longrightarrow> lock_events (cs @ ds) = lock_events ds"
proof (induction cs)
  case (Cons c cs)
  from Cons have "lock_events (cs @ ds) = lock_events ds" by auto
  with Cons.prems [of c] show ?case by (cases c) auto
qed simp

lemma lock_events_routes [simp]:
  "lock_events (rev (map AudioRouteApplyPath rs) @ cs) = lock_events cs"
  by (rule lock_events_neutral) auto

lemma select_devices_sel [simp]:
  "dev (select_devices E s) = dev s" "outs (select_devices E s) = outs s"
  "ins (select_devices E s) = ins s" "out_live (select_devices E s) = out_live s"
  "in_live (select_devices E s) = in_live s"
  "lock_events (calls (select_devices E s)) = lock_events (calls s)"
  by (simp_all add: select_devices_eq)

end
