(* ===== verification/Audio_Start.thy ===== *)
theory Audio_Start
  imports Audio_Device
begin

text \<open>
  What the standby and start routines of \<open>audio_hw.c\<close> keep: the lemmas of this theory
  show that \<open>do_out_standby\<close>, \<open>do_in_standby\<close> and the two start routines preserve
  \<open>audio_inv\<close>, that a start puts the other direction into standby exactly when the
  groups of sample rates conflict, and which locks each of them takes.
\<close>

section \<open>Standby\<close>

lemma do_out_standby_idle [simp]: "o_standby (outs s a) \<Longrightarrow> do_out_standby a s = s"
  by (simp add: do_out_standby_def)

lemma do_in_standby_idle [simp]: "i_standby (ins s a) \<Longrightarrow> do_in_standby a s = s"
  by (simp add: do_in_standby_def)

definition release_calls :: "handle option \<Rightarrow> s16 list option \<Rightarrow> call list" where
  "release_calls r b =
     (case b of None \<Rightarrow> [] | Some _ \<Rightarrow> [FreeBuffer]) @
     (case r of None \<Rightarrow> [] | Some h \<Rightarrow> [ReleaseResampler h])"

lemma do_out_standby_running:
  assumes "\<not> o_standby (outs s a)"
  shows "do_out_standby a s =
    s\<lparr>dev := (dev s)\<lparr>active_out := None\<rparr>,
      outs := (outs s)(a := (outs s a)\<lparr>o_pcm := None, o_resampler := None, o_buffer := None,
                                        o_standby := True\<rparr>),
      calls := release_calls (o_resampler (outs s a)) (o_buffer (outs s a)) @
               PcmClose (o_pcm (outs s a)) # calls s\<rparr>"
  using assms
  by (simp add: do_out_standby_def Let_def emit_def upd_out_def upd_dev_def release_resampler_def
      free_buffer_def release_calls_def split: option.splits)

lemma do_in_standby_running:
  assumes "\<not> i_standby (ins s a)"
  shows "do_in_standby a s =
    s\<lparr>dev := (dev s)\<lparr>active_in := None\<rparr>,
      ins := (ins s)(a := (ins s a)\<lparr>i_pcm := None, i_resampler := None, i_buffer := None,
                                      i_standby := True\<rparr>),
      calls := release_calls (i_resampler (ins s a)) (i_buffer (ins s a)) @
               PcmClose (i_pcm (ins s a)) # calls s\<rparr>"
  using assms
  by (simp add: do_in_standby_def Let_def emit_def upd_in_def upd_dev_def release_resampler_def
      free_buffer_def release_calls_def split: option.splits)

lemma lock_events_release_calls [simp]: "lock_events (release_calls r b @ cs) = lock_events cs"
  by (auto simp: release_calls_def split: option.splits)

lemma do_out_standby_frame [simp]:
  "ins (do_out_standby a s) = ins s" "out_live (do_out_standby a s) = out_live s"
  "in_live (do_out_standby a s) = in_live s" "active_in (dev (do_out_standby a s)) = active_in (dev s)"
  "out_device (dev (do_out_standby a s)) = out_device (dev s)"
  "in_device (dev (do_out_standby a s)) = in_device (dev s)"
  "lock_events (calls (do_out_standby a s)) = lock_events (calls s)"
  "o_standby (outs (do_out_standby a s) b) \<longleftrightarrow> b = a \<or> o_standby (outs s b)"
  "o_config (outs (do_out_standby a s) b) = o_config (outs s b)"
  by (cases "o_standby (outs s a)"; auto simp: do_out_standby_running)+

lemma do_in_standby_frame [simp]:
  "outs (do_in_standby a s) = outs s" "out_live (do_in_standby a s) = out_live s"
  "in_live (do_in_standby a s) = in_live s" "active_out (dev (do_in_standby a s)) = active_out (dev s)"
  "out_device (dev (do_in_standby a s)) = out_device (dev s)"
  "in_device (dev (do_in_standby a s)) = in_device (dev s)"
  "lock_events (calls (do_in_standby a s)) = lock_events (calls s)"
  "i_standby (ins (do_in_standby a s) b) \<longleftrightarrow> b = a \<or> i_standby (ins s b)"
  "i_config (ins (do_in_standby a s) b) = i_config (ins s b)"
  "i_config_non_sco (ins (do_in_standby a s) b) = i_config_non_sco (ins s b)"
  "requested_rate (ins (do_in_standby a s) b) = requested_rate (ins s b)"
  by (cases "i_standby (ins s a)"; auto simp: do_in_standby_running)+

text \<open>Closing the PCM device and the resampler of a stream, as the ledger sees it.\<close>

lemma owned_pcm_close:
  assumes own: "owned pcm_opens pcm_closes cs H" and x: "\<And>h. H x h \<longleftrightarrow> p = Some h"
  shows "owned pcm_opens pcm_closes (release_calls r b @ PcmClose p # cs) (\<lambda>w k. H w k \<and> w \<noteq> x)"
    (is "owned _ _ _ ?H")
proof -
  have n: "c \<in> set (release_calls r b) \<Longrightarrow> pcm_opens c = None \<and> pcm_closes c = None" for c
    by (auto simp: release_calls_def split: option.splits)
  have "owned pcm_opens pcm_closes (PcmClose p # cs) ?H"
  proof (cases p)
    case None
    with x have "?H w k \<longleftrightarrow> H w k" for w k by (cases "w = x") simp_all
    with own None show ?thesis
      using pcm.owned_neutral [of cs H "[PcmClose p]" ?H] by simp
  next
    case (Some h)
    with x have e: "?H w k \<longleftrightarrow> H w k \<and> \<not> (w = x \<and> k = h)" for w k by (cases "w = x") simp_all
    show ?thesis
      by (rule pcm.owned_close [OF own _ _ _ e]) (simp_all add: Some x)
  qed
  then show ?thesis by (rule pcm.owned_neutral [OF _ n]) simp_all
qed

lemma owned_res_close:
  assumes own: "owned res_opens res_closes cs H" and x: "\<And>h. H x h \<longleftrightarrow> r = Some h"
  shows "owned res_opens res_closes (release_calls r b @ PcmClose p # cs) (\<lambda>w k. H w k \<and> w \<noteq> x)"
    (is "owned _ _ _ ?H")
proof -
  let ?r = "case r of None \<Rightarrow> [] | Some h \<Rightarrow> [ReleaseResampler h]"
  have 1: "owned res_opens res_closes (PcmClose p # cs) H"
    using res.owned_neutral [OF own, of "[PcmClose p]" H] by simp
  have 2: "owned res_opens res_closes (?r @ PcmClose p # cs) ?H"
  proof (cases r)
    case None
    with x have "?H w k \<longleftrightarrow> H w k" for w k by (cases "w = x") simp_all
    with 1 None show ?thesis using res.owned_neutral [of "PcmClose p # cs" H "[]" ?H] by simp
  next
    case (Some h)
    with x have e: "?H w k \<longleftrightarrow> H w k \<and> \<not> (w = x \<and> k = h)" for w k by (cases "w = x") simp_all
    have "owned res_opens res_closes (ReleaseResampler h # PcmClose p # cs) ?H"
      by (rule res.owned_close [OF 1 _ _ _ e]) (simp_all add: Some x)
    with Some show ?thesis by simp
  qed
  show ?thesis
    unfolding release_calls_def append_assoc
    by (rule res.owned_neutral [OF 2]) (auto split: option.splits)
qed

lemma handles_do_out_standby:
  assumes "handles_ok s" "out_live s a"
  shows "handles_ok (do_out_standby a s)"
proof (cases "o_standby (outs s a)")
  case True
  with assms show ?thesis by simp
next
  case run: False
  have p: "pcm_holds (do_out_standby a s) = (\<lambda>w k. pcm_holds s w k \<and> w \<noteq> MOut a)"
  proof (intro ext)
    show "pcm_holds (do_out_standby a s) w k = (pcm_holds s w k \<and> w \<noteq> MOut a)" for w k
      using run by (cases w) (auto simp: do_out_standby_running)
  qed
  have r: "res_holds (do_out_standby a s) = (\<lambda>w k. res_holds s w k \<and> w \<noteq> MOut a)"
  proof (intro ext)
    show "res_holds (do_out_standby a s) w k = (res_holds s w k \<and> w \<noteq> MOut a)" for w k
      using run by (cases w) (auto simp: do_out_standby_running)
  qed
  show ?thesis
    unfolding handles_ok_def p r
    using assms run owned_pcm_close [of "calls s" "pcm_holds s" "MOut a" "o_pcm (outs s a)"]
      owned_res_close [of "calls s" "res_holds s" "MOut a" "o_resampler (outs s a)"]
    by (simp add: do_out_standby_running handles_ok_def)
qed

lemma handles_do_in_standby:
  assumes "handles_ok s" "in_live s a"
  shows "handles_ok (do_in_standby a s)"
proof (cases "i_standby (ins s a)")
  case True
  with assms show ?thesis by simp
next
  case run: False
  have p: "pcm_holds (do_in_standby a s) = (\<lambda>w k. pcm_holds s w k \<and> w \<noteq> MIn a)"
  proof (intro ext)
    show "pcm_holds (do_in_standby a s) w k = (pcm_holds s w k \<and> w \<noteq> MIn a)" for w k
      using run by (cases w) (auto simp: do_in_standby_running)
  qed
  have r: "res_holds (do_in_standby a s) = (\<lambda>w k. res_holds s w k \<and> w \<noteq> MIn a)"
  proof (intro ext)
    show "res_holds (do_in_standby a s) w k = (res_holds s w k \<and> w \<noteq> MIn a)" for w k
      using run by (cases w) (auto simp: do_in_standby_running)
  qed
  show ?thesis
    unfolding handles_ok_def p r
    using assms run owned_pcm_close [of "calls s" "pcm_holds s" "MIn a" "i_pcm (ins s a)"]
      owned_res_close [of "calls s" "res_holds s" "MIn a" "i_resampler (ins s a)"]
    by (simp add: do_in_standby_running handles_ok_def)
qed

lemma inv_do_out_standby:
  assumes "audio_inv s" "out_live s a"
  shows "audio_inv (do_out_standby a s)"
proof (cases "o_standby (outs s a)")
  case True
  with assms show ?thesis by simp
next
  case False
  with assms handles_do_out_standby [of s a] show ?thesis
    by (simp add: audio_inv_def do_out_standby_running active_ok_def cfg_ok_def idle_ok_def rates_ok_def)
qed

lemma inv_do_in_standby:
  assumes "audio_inv s" "in_live s a"
  shows "audio_inv (do_in_standby a s)"
proof (cases "i_standby (ins s a)")
  case True
  with assms show ?thesis by simp
next
  case False
  with assms handles_do_in_standby [of s a] show ?thesis
    by (simp add: audio_inv_def do_in_standby_running active_ok_def cfg_ok_def idle_ok_def rates_ok_def)
qed

section \<open>Making room for a start\<close>

lemma stop_conflicting_input_frame [simp]:
  "outs (stop_conflicting_input r s) = outs s" "out_live (stop_conflicting_input r s) = out_live s"
  "in_live (stop_conflicting_input r s) = in_live s"
  "active_out (dev (stop_conflicting_input r s)) = active_out (dev s)"
  "out_device (dev (stop_conflicting_input r s)) = out_device (dev s)"
  by (auto simp: stop_conflicting_input_def Let_def split: option.split)

lemma stop_conflicting_output_frame [simp]:
  "ins (stop_conflicting_output r s) = ins s" "out_live (stop_conflicting_output r s) = out_live s"
  "in_live (stop_conflicting_output r s) = in_live s"
  "active_in (dev (stop_conflicting_output r s)) = active_in (dev s)"
  "in_device (dev (stop_conflicting_output r s)) = in_device (dev s)"
  by (auto simp: stop_conflicting_output_def Let_def split: option.split)

lemma stop_conflicting_input_locks:
  "lock_events (calls (stop_conflicting_input r s)) = lock_events (calls s) @
     (case active_in (dev s) of None \<Rightarrow> [] | Some i \<Rightarrow> [Acquire (MIn i), Release (MIn i)])"
  by (auto simp: stop_conflicting_input_def Let_def split: option.split)

lemma stop_conflicting_output_locks:
  "lock_events (calls (stop_conflicting_output r s)) = lock_events (calls s) @
     (case active_out (dev s) of None \<Rightarrow> [] | Some a \<Rightarrow> [Acquire (MOut a), Release (MOut a)])"
  by (auto simp: stop_conflicting_output_def Let_def split: option.split)

lemma inv_stop_conflicting_input: "audio_inv s \<Longrightarrow> audio_inv (stop_conflicting_input r s)"
  by (auto simp: stop_conflicting_input_def Let_def audio_inv_def [of s] active_ok_def
      intro!: inv_unlock inv_do_in_standby inv_lock split: option.split)

lemma inv_stop_conflicting_output: "audio_inv s \<Longrightarrow> audio_inv (stop_conflicting_output r s)"
  by (auto simp: stop_conflicting_output_def Let_def audio_inv_def [of s] active_ok_def
      intro!: inv_unlock inv_do_out_standby inv_lock split: option.split)

lemma stop_conflicting_input_no_conflict:
  assumes "audio_inv s" "active_in (dev (stop_conflicting_input r s)) = Some i"
  shows "\<not> rates_conflict r (rate (i_config (ins (stop_conflicting_input r s) i)))"
  using assms
  by (auto simp: stop_conflicting_input_def Let_def audio_inv_def active_ok_def do_in_standby_running
      split: option.splits if_splits)

lemma stop_conflicting_output_no_conflict:
  assumes "audio_inv s" "active_out (dev (stop_conflicting_output r s)) = Some a"
  shows "\<not> rates_conflict r (rate (out_cfg (stop_conflicting_output r s) a))"
  using assms
  by (auto simp: stop_conflicting_output_def Let_def audio_inv_def active_ok_def out_cfg_def
      do_out_standby_running split: option.splits if_splits)

section \<open>Opening a PCM device and a resampler, as the ledger sees it\<close>

lemma owned_pcm_start:
  assumes own: "owned pcm_opens pcm_closes cs H" and x: "\<And>h. \<not> H x h"
    and fresh: "\<And>h. p = Some h \<Longrightarrow> h \<notin> pcm.live cs"
    and ns: "\<And>c. c \<in> set ns \<Longrightarrow> pcm_opens c = None \<and> pcm_closes c = None"
  shows "owned pcm_opens pcm_closes (ns @ PcmOpen n d dir cfg p # cs) (\<lambda>w k. H w k \<or> w = x \<and> p = Some k)"
    (is "owned _ _ _ ?H")
proof -
  have "owned pcm_opens pcm_closes (PcmOpen n d dir cfg p # cs) ?H"
  proof (cases p)
    case None
    with own show ?thesis
      using pcm.owned_neutral [of cs H "[PcmOpen n d dir cfg p]" ?H] by simp
  next
    case (Some h)
    then have "?H w k \<longleftrightarrow> H w k \<or> w = x \<and> k = h" for w k by auto
    then show ?thesis
      by (rule pcm.owned_open [OF own _ fresh [OF Some], rotated]) (simp add: Some)
  qed
  then show ?thesis by (rule pcm.owned_neutral [OF _ ns]) simp_all
qed

lemma owned_res_start:
  assumes own: "owned res_opens res_closes cs H" and x: "\<And>h. \<not> H x h"
    and fresh: "\<And>h. q = Some h \<Longrightarrow> h \<notin> res.live cs"
    and ns: "\<And>c. c \<in> set ns \<Longrightarrow> res_opens c = None \<and> res_closes c = None"
  shows "owned res_opens res_closes (ns @ CreateResampler a b ch q # cs) (\<lambda>w k. H w k \<or> w = x \<and> q = Some k)"
    (is "owned _ _ _ ?H")
proof -
  have "owned res_opens res_closes (CreateResampler a b ch q # cs) ?H"
  proof (cases q)
    case None
    with own show ?thesis
      using res.owned_neutral [of cs H "[CreateResampler a b ch q]" ?H] by simp
  next
    case (Some h)
    then have "?H w k \<longleftrightarrow> H w k \<or> w = x \<and> k = h" for w k by auto
    then show ?thesis
      by (rule res.owned_open [OF own _ fresh [OF Some], rotated]) (simp add: Some)
  qed
  then show ?thesis by (rule res.owned_neutral [OF _ ns]) simp_all
qed

section \<open>Starting an output stream\<close>

lemma out_choose_config_result:
  assumes "out_choose_config E a s = (device, cfg, s')"
  shows "cfg \<in> {pcm_config_out, pcm_config_sco}" "o_config (outs s' a) = Some cfg"
    "o_standby (outs s' b) = o_standby (outs s b)" "o_resampler (outs s' b) = o_resampler (outs s b)"
    "out_live s' = out_live s" "in_live s' = in_live s" "calls s' = calls s" "dev s' = dev s"
    "ins s' = ins s" "o_pcm (outs s' b) = o_pcm (outs s b)" "o_buffer (outs s' b) = o_buffer (outs s b)"
    "b \<noteq> a \<Longrightarrow> outs s' b = outs s b"
    "o_written (outs s' b) = o_written (outs s b)"
  using assms by (auto simp: out_choose_config_def split: if_splits)

lemma inv_out_choose_config:
  assumes "audio_inv s" "o_standby (outs s a)" "out_choose_config E a s = (device, cfg, s')"
  shows "audio_inv s'"
proof -
  note r = out_choose_config_result [OF assms(3)]
  have "pcm_holds s' = pcm_holds s" "res_holds s' = res_holds s"
    by (intro ext, rename_tac w k, case_tac w; simp add: r)+
  moreover have "rates_ok s'"
    using assms(1,2) r(8,9,12)
    unfolding audio_inv_def rates_ok_def active_ok_def out_cfg_def by metis
  moreover have "cfg_ok s'"
    using assms(1,2) r(3,5,6,9,12) unfolding audio_inv_def cfg_ok_def by metis
  ultimately show ?thesis
    using assms(1) r by (auto simp: audio_inv_def active_ok_def idle_ok_def handles_ok_def)
qed

definition out_prepare :: "audio_env \<Rightarrow> addr \<Rightarrow> audio_state \<Rightarrow> int \<times> pcm_config \<times> audio_state" where
  "out_prepare E a s =
     (let (device, cfg, s) = out_choose_config E a s in (device, cfg, stop_conflicting_input (rate cfg) s))"

lemma start_output_stream_unfold:
  assumes "out_prepare E a s = (device, cfg, s1)"
    and "p = pcm_open E (calls s1) PCM_CARD device PCM_OUT_NORESTART_MONOTONIC cfg"
    and "s2 = upd_out a (\<lambda>x. x\<lparr>o_pcm := p\<rparr>)
           (emit (PcmOpen PCM_CARD device PCM_OUT_NORESTART_MONOTONIC cfg p) s1)"
  shows "start_output_stream E a s =
    (if p \<noteq> None \<and> \<not> pcm_is_ready E (calls s2) p then (- ENOMEM, emit (PcmClose p) s2)
     else (0, upd_dev (\<lambda>d. d\<lparr>active_out := Some a\<rparr>)
                (if out_get_sample_rate \<noteq> rate cfg then out_create_resampler E a cfg s2 else s2)))"
  using assms
  by (auto simp: start_output_stream_def out_prepare_def Let_def split: prod.splits)

lemma out_prepare_result:
  assumes "audio_inv s" "o_standby (outs s a)" "out_prepare E a s = (device, cfg, s1)"
  shows "audio_inv s1" "cfg \<in> {pcm_config_out, pcm_config_sco}" "o_config (outs s1 a) = Some cfg"
    "o_standby (outs s1 a)" "out_live s1 = out_live s" "in_live s1 = in_live s"
    "active_in (dev s1) = Some i \<Longrightarrow> \<not> rates_conflict (rate cfg) (rate (i_config (ins s1 i)))"
    "lock_events (calls s1) = lock_events (calls s) @
      (case active_in (dev s) of None \<Rightarrow> [] | Some i \<Rightarrow> [Acquire (MIn i), Release (MIn i)])"
proof -
  obtain s0 where c: "out_choose_config E a s = (device, cfg, s0)"
    and s1: "s1 = stop_conflicting_input (rate cfg) s0"
    using assms(3) by (auto simp: out_prepare_def split: prod.splits)
  note r = out_choose_config_result [OF c]
  have inv0: "audio_inv s0" using inv_out_choose_config [OF assms(1,2) c] .
  show "audio_inv s1" using inv0 s1 inv_stop_conflicting_input by simp
  show "active_in (dev s1) = Some i \<Longrightarrow> \<not> rates_conflict (rate cfg) (rate (i_config (ins s1 i)))"
    using stop_conflicting_input_no_conflict [OF inv0] s1 by simp
  show "lock_events (calls s1) = lock_events (calls s) @
      (case active_in (dev s) of None \<Rightarrow> [] | Some i \<Rightarrow> [Acquire (MIn i), Release (MIn i)])"
    using r s1 by (simp add: stop_conflicting_input_locks)
  show "cfg \<in> {pcm_config_out, pcm_config_sco}" using r by blast
  show "o_config (outs s1 a) = Some cfg" "o_standby (outs s1 a)" "out_live s1 = out_live s"
    "in_live s1 = in_live s"
    using r s1 assms(2) by simp_all
qed

text \<open>A start that fails leaves everything as it was, except for the pointer to the closed PCM.\<close>

lemma inv_start_output_failed:
  assumes inv: "audio_inv s" and sb: "o_standby (outs s a)" and fresh: "fresh_handles E"
    and p: "p = pcm_open E (calls s) n device PCM_OUT_NORESTART_MONOTONIC cfg" "p \<noteq> None"
  shows "audio_inv (emit (PcmClose p) (upd_out a (\<lambda>x. x\<lparr>o_pcm := p\<rparr>)
           (emit (PcmOpen n device PCM_OUT_NORESTART_MONOTONIC cfg p) s)))" (is "audio_inv ?s")
proof -
  obtain h where h: "p = Some h" using p(2) by blast
  with fresh p(1) have nh: "h \<notin> pcm.live (calls s)" by (metis fresh_handles_def)
  have "pcm_holds ?s = pcm_holds s" "res_holds ?s = res_holds s"
    using sb by (intro ext, rename_tac w k, case_tac w; auto)+
  moreover have "owned pcm_opens pcm_closes (calls ?s) (pcm_holds s)"
    using inv h pcm.owned_open_close [OF _ _ nh, of "pcm_holds s"]
    by (simp add: audio_inv_def handles_ok_def)
  moreover have "owned res_opens res_closes (calls ?s) (res_holds s)"
    using inv by (simp add: audio_inv_def handles_ok_def res.owned_skip)
  ultimately have "handles_ok ?s" by (simp add: handles_ok_def)
  with inv sb show ?thesis
    by (auto simp: audio_inv_def active_ok_def cfg_ok_def idle_ok_def rates_ok_def out_cfg_def)
qed

text \<open>A start that succeeds makes the stream the active one.\<close>

lemma inv_start_output_done:
  assumes inv: "audio_inv s" and a: "out_live s a" "o_standby (outs s a)" "o_config (outs s a) = Some cfg"
    and cfg: "cfg \<in> {pcm_config_out, pcm_config_sco}" and fresh: "fresh_handles E"
    and rates: "\<And>i. active_in (dev s) = Some i \<Longrightarrow> \<not> rates_conflict (rate cfg) (rate (i_config (ins s i)))"
    and p: "p = pcm_open E (calls s) n device PCM_OUT_NORESTART_MONOTONIC cfg"
    and s2: "s2 = upd_out a (\<lambda>x. x\<lparr>o_pcm := p\<rparr>)
           (emit (PcmOpen n device PCM_OUT_NORESTART_MONOTONIC cfg p) s)"
    and s3: "s3 = (if resample then out_create_resampler E a cfg s2 else s2)"
  shows "audio_inv (upd_out a (\<lambda>x. x\<lparr>o_standby := False\<rparr>)
           (upd_dev (\<lambda>d. d\<lparr>active_out := Some a\<rparr>) s3))" (is "audio_inv ?s")
proof -
  define q where "q = (if resample then create_resampler E (calls s2) out_get_sample_rate (rate cfg) (channels cfg) else None)"
  have idle: "o_resampler (outs s a) = None" using inv a by (simp add: audio_inv_def idle_ok_def)
  have fp: "\<And>h. p = Some h \<Longrightarrow> h \<notin> pcm.live (calls s)" using fresh p by (metis fresh_handles_def)
  have fq: "\<And>h. q = Some h \<Longrightarrow> h \<notin> res.live (calls s2)"
    using fresh by (auto simp: q_def fresh_handles_def split: if_splits)
  have own: "owned pcm_opens pcm_closes (calls s) (pcm_holds s)"
    "owned res_opens res_closes (calls s) (res_holds s)"
    using inv by (simp_all add: audio_inv_def handles_ok_def)
  have no: "\<not> pcm_holds s (MOut a) h" "\<not> res_holds s (MOut a) h" for h using a by simp_all
  have hp: "pcm_holds ?s = (\<lambda>w k. pcm_holds s w k \<or> w = MOut a \<and> p = Some k)"
  proof (intro ext)
    show "pcm_holds ?s w k = (pcm_holds s w k \<or> w = MOut a \<and> p = Some k)" for w k
      using a by (cases w) (auto simp: s3 s2 out_create_resampler_def Let_def)
  qed
  have hr: "res_holds ?s = (\<lambda>w k. res_holds s w k \<or> w = MOut a \<and> q = Some k)"
  proof (intro ext)
    show "res_holds ?s w k = (res_holds s w k \<or> w = MOut a \<and> q = Some k)" for w k
      using a idle by (cases w) (auto simp: s3 s2 q_def out_create_resampler_def Let_def)
  qed
  have "owned pcm_opens pcm_closes (calls ?s) (pcm_holds ?s)"
    unfolding hp
    using owned_pcm_start [OF own(1) no(1) fp, where p = p and ns = "[]"]
    by (simp add: s3 s2 out_create_resampler_def Let_def pcm.owned_skip)
  moreover have "owned res_opens res_closes (calls ?s) (res_holds ?s)"
  proof (cases resample)
    case True
    have "owned res_opens res_closes (calls s2) (res_holds s)"
      using own(2) by (simp add: s2 res.owned_skip)
    from owned_res_start [OF this no(2) fq, where q = q and ns = "[]"] True
    show ?thesis unfolding hr by (simp add: s3 q_def out_create_resampler_def Let_def res.owned_skip)
  next
    case False
    with own(2) show ?thesis unfolding hr by (simp add: s3 s2 q_def res.owned_skip)
  qed
  ultimately have "handles_ok ?s" by (simp add: handles_ok_def)
  moreover have "active_ok ?s" "cfg_ok ?s" "idle_ok ?s"
    using inv a cfg
    by (auto simp: audio_inv_def active_ok_def cfg_ok_def idle_ok_def s3 s2 out_create_resampler_def Let_def)
  moreover have "rates_ok ?s"
    using a(3) rates by (auto simp: rates_ok_def out_cfg_def s3 s2 out_create_resampler_def Let_def)
  ultimately show ?thesis by (simp add: audio_inv_def)
qed

text \<open>Together: the start routine followed by the caller's \<open>standby = false\<close>.\<close>

lemma start_output_stream_inv:
  assumes "audio_inv s" "out_live s a" "o_standby (outs s a)" "fresh_handles E"
    and "start_output_stream E a s = (ret, s')"
  shows "if ret = 0 then audio_inv (upd_out a (\<lambda>x. x\<lparr>o_standby := False\<rparr>) s')
         else audio_inv s' \<and> o_standby (outs s' a)"
proof -
  obtain device cfg s1 where prep: "out_prepare E a s = (device, cfg, s1)"
    using prod_cases3 by blast
  note r = out_prepare_result [OF assms(1,3) prep]
  have live: "out_live s1 a" using r(5) assms(2) by simp
  define p where p: "p = pcm_open E (calls s1) PCM_CARD device PCM_OUT_NORESTART_MONOTONIC cfg"
  define s2 where s2: "s2 = upd_out a (\<lambda>x. x\<lparr>o_pcm := p\<rparr>)
    (emit (PcmOpen PCM_CARD device PCM_OUT_NORESTART_MONOTONIC cfg p) s1)"
  note u = start_output_stream_unfold [OF prep p s2]
  show ?thesis
  proof (cases "p \<noteq> None \<and> \<not> pcm_is_ready E (calls s2) p")
    case True
    with u assms(5) have "ret = - ENOMEM" "s' = emit (PcmClose p) s2" by simp_all
    with inv_start_output_failed [OF r(1,4) assms(4) p] True r(4) show ?thesis by (simp add: s2)
  next
    case False
    with u assms(5) have "ret = 0" "s' = upd_dev (\<lambda>d. d\<lparr>active_out := Some a\<rparr>)
        (if out_get_sample_rate \<noteq> rate cfg then out_create_resampler E a cfg s2 else s2)"
      by (simp_all del: not_None_eq split: if_splits)
    with inv_start_output_done [OF r(1) live r(4,3,2) assms(4) r(7) p s2 refl] show ?thesis by simp
  qed
qed

lemma start_output_stream_frame:
  assumes "start_output_stream E a s = (ret, s')"
  shows "out_live s' = out_live s" "in_live s' = in_live s"
    "lock_events (calls s') = lock_events (calls s) @
      (case active_in (dev s) of None \<Rightarrow> [] | Some i \<Rightarrow> [Acquire (MIn i), Release (MIn i)])"
    "ret = 0 \<or> ret = - ENOMEM"
    "out_device (dev s') = out_device (dev s)"
  using assms
  by (auto simp: start_output_stream_def out_choose_config_def out_create_resampler_def Let_def
      stop_conflicting_input_locks split: if_splits)

section \<open>Starting an input stream\<close>

lemma in_choose_config_result:
  assumes "in_choose_config E a s = (device, cfg, s')"
  shows "cfg \<in> {pcm_config_sco, i_config_non_sco (ins s a)}" "i_config (ins s' a) = cfg"
    "i_standby (ins s' b) = i_standby (ins s b)" "i_resampler (ins s' b) = i_resampler (ins s b)"
    "out_live s' = out_live s" "in_live s' = in_live s" "calls s' = calls s" "dev s' = dev s"
    "outs s' = outs s" "i_pcm (ins s' b) = i_pcm (ins s b)" "i_buffer (ins s' b) = i_buffer (ins s b)"
    "b \<noteq> a \<Longrightarrow> ins s' b = ins s b" "i_config_non_sco (ins s' b) = i_config_non_sco (ins s b)"
    "requested_rate (ins s' b) = requested_rate (ins s b)"
  using assms by (auto simp: in_choose_config_def split: if_splits)

lemma inv_in_choose_config:
  assumes "audio_inv s" "in_live s a" "i_standby (ins s a)" "in_choose_config E a s = (device, cfg, s')"
  shows "audio_inv s'"
proof -
  note r = in_choose_config_result [OF assms(4)]
  have "pcm_holds s' = pcm_holds s" "res_holds s' = res_holds s"
    by (intro ext, rename_tac w k, case_tac w; simp add: r)+
  moreover have "rates_ok s'"
    using assms(1,3) r(8,9,12)
    unfolding audio_inv_def rates_ok_def active_ok_def out_cfg_def by metis
  moreover have "cfg_ok s'"
    unfolding cfg_ok_def
  proof (intro conjI allI impI)
    fix b assume b: "in_live s' b"
    then show "i_config_non_sco (ins s' b) \<in> {pcm_config_in, pcm_config_in_low_latency}"
      using assms(1) r(6,13) by (simp add: audio_inv_def cfg_ok_def)
    show "i_config (ins s' b) \<in> {pcm_config_in, pcm_config_in_low_latency, pcm_config_sco}"
      using assms(1,2) b r(1,2,6,12) by (cases "b = a") (auto simp: audio_inv_def cfg_ok_def)
  qed (use assms(1) r in \<open>auto simp: audio_inv_def cfg_ok_def\<close>)
  ultimately show ?thesis
    using assms(1) r by (auto simp: audio_inv_def active_ok_def idle_ok_def handles_ok_def)
qed

definition in_prepare :: "audio_env \<Rightarrow> addr \<Rightarrow> audio_state \<Rightarrow> int \<times> pcm_config \<times> audio_state" where
  "in_prepare E a s =
     (let (device, cfg, s) = in_choose_config E a s in (device, cfg, stop_conflicting_output (rate cfg) s))"

lemma start_input_stream_unfold:
  assumes "in_prepare E a s = (device, cfg, s1)"
    and "p = pcm_open E (calls s1) PCM_CARD device PCM_IN cfg"
    and "s2 = upd_in a (\<lambda>x. x\<lparr>i_pcm := p\<rparr>) (emit (PcmOpen PCM_CARD device PCM_IN cfg p) s1)"
  shows "start_input_stream E a s =
    (if p \<noteq> None \<and> \<not> pcm_is_ready E (calls s2) p then (- ENOMEM, emit (PcmClose p) s2)
     else (0, upd_dev (\<lambda>d. d\<lparr>active_in := Some a\<rparr>) (in_alloc_buffer E a cfg
                (if requested_rate (ins s2 a) \<noteq> rate cfg then in_create_resampler E a cfg s2 else s2))))"
  using assms
  by (auto simp: start_input_stream_def in_prepare_def Let_def split: prod.splits)

lemma in_prepare_result:
  assumes "audio_inv s" "in_live s a" "i_standby (ins s a)" "in_prepare E a s = (device, cfg, s1)"
  shows "audio_inv s1" "cfg \<in> {pcm_config_in, pcm_config_in_low_latency, pcm_config_sco}"
    "i_config (ins s1 a) = cfg"
    "i_standby (ins s1 a)" "out_live s1 = out_live s" "in_live s1 = in_live s"
    "active_out (dev s1) = Some b \<Longrightarrow> \<not> rates_conflict (rate (out_cfg s1 b)) (rate cfg)"
proof -
  obtain s0 where c: "in_choose_config E a s = (device, cfg, s0)"
    and s1: "s1 = stop_conflicting_output (rate cfg) s0"
    using assms(4) by (auto simp: in_prepare_def split: prod.splits)
  note r = in_choose_config_result [OF c]
  have inv0: "audio_inv s0" using inv_in_choose_config [OF assms(1-3) c] .
  show inv1: "audio_inv s1" using inv0 s1 inv_stop_conflicting_output by simp
  show cfg: "cfg \<in> {pcm_config_in, pcm_config_in_low_latency, pcm_config_sco}"
    using r(1) assms(1,2) by (auto simp: audio_inv_def cfg_ok_def)
  show "\<not> rates_conflict (rate (out_cfg s1 b)) (rate cfg)" if "active_out (dev s1) = Some b"
  proof -
    have "\<not> rates_conflict (rate cfg) (rate (out_cfg s1 b))"
      using stop_conflicting_output_no_conflict [OF inv0] s1 that by simp
    moreover have "out_cfg s1 b \<in> {pcm_config_out, pcm_config_sco}"
      using inv1 that by (auto simp: audio_inv_def cfg_ok_def active_ok_def out_cfg_def)
    ultimately show ?thesis using cfg rates_conflict_sym_on_configs [of cfg "out_cfg s1 b"] by blast
  qed
  show "i_config (ins s1 a) = cfg" "i_standby (ins s1 a)" "out_live s1 = out_live s"
    "in_live s1 = in_live s"
    using r s1 assms(3) by simp_all
qed

lemma inv_start_input_failed:
  assumes inv: "audio_inv s" and sb: "i_standby (ins s a)" and fresh: "fresh_handles E"
    and p: "p = pcm_open E (calls s) n device PCM_IN cfg" "p \<noteq> None"
  shows "audio_inv (emit (PcmClose p) (upd_in a (\<lambda>x. x\<lparr>i_pcm := p\<rparr>)
           (emit (PcmOpen n device PCM_IN cfg p) s)))" (is "audio_inv ?s")
proof -
  obtain h where h: "p = Some h" using p(2) by blast
  with fresh p(1) have nh: "h \<notin> pcm.live (calls s)" by (metis fresh_handles_def)
  have "pcm_holds ?s = pcm_holds s" "res_holds ?s = res_holds s"
    using sb by (intro ext, rename_tac w k, case_tac w; auto)+
  moreover have "owned pcm_opens pcm_closes (calls ?s) (pcm_holds s)"
    using inv h pcm.owned_open_close [OF _ _ nh, of "pcm_holds s"]
    by (simp add: audio_inv_def handles_ok_def)
  moreover have "owned res_opens res_closes (calls ?s) (res_holds s)"
    using inv by (simp add: audio_inv_def handles_ok_def res.owned_skip)
  ultimately have "handles_ok ?s" by (simp add: handles_ok_def)
  with inv sb show ?thesis
    by (auto simp: audio_inv_def active_ok_def cfg_ok_def idle_ok_def rates_ok_def out_cfg_def)
qed

lemma inv_start_input_done:
  assumes inv: "audio_inv s" and a: "in_live s a" "i_standby (ins s a)" "i_config (ins s a) = cfg"
    and fresh: "fresh_handles E"
    and rates: "\<And>b. active_out (dev s) = Some b \<Longrightarrow> \<not> rates_conflict (rate (out_cfg s b)) (rate cfg)"
    and p: "p = pcm_open E (calls s) n device PCM_IN cfg"
    and s2: "s2 = upd_in a (\<lambda>x. x\<lparr>i_pcm := p\<rparr>) (emit (PcmOpen n device PCM_IN cfg p) s)"
    and s3: "s3 = in_alloc_buffer E a cfg (if resample then in_create_resampler E a cfg s2 else s2)"
  shows "audio_inv (upd_in a (\<lambda>x. x\<lparr>i_standby := False\<rparr>)
           (upd_dev (\<lambda>d. d\<lparr>active_in := Some a\<rparr>) s3))" (is "audio_inv ?s")
proof -
  note defs = in_create_resampler_def in_alloc_buffer_def Let_def
  define q where "q = (if resample then create_resampler E (calls s2) (rate cfg) (requested_rate (ins s2 a)) 1 else None)"
  have idle: "i_resampler (ins s a) = None" using inv a by (simp add: audio_inv_def idle_ok_def)
  have fp: "\<And>h. p = Some h \<Longrightarrow> h \<notin> pcm.live (calls s)" using fresh p by (metis fresh_handles_def)
  have fq: "\<And>h. q = Some h \<Longrightarrow> h \<notin> res.live (calls s2)"
    using fresh by (auto simp: q_def fresh_handles_def split: if_splits)
  have own: "owned pcm_opens pcm_closes (calls s) (pcm_holds s)"
    "owned res_opens res_closes (calls s) (res_holds s)"
    using inv by (simp_all add: audio_inv_def handles_ok_def)
  have no: "\<not> pcm_holds s (MIn a) h" "\<not> res_holds s (MIn a) h" for h using a by simp_all
  have hp: "pcm_holds ?s = (\<lambda>w k. pcm_holds s w k \<or> w = MIn a \<and> p = Some k)"
  proof (intro ext)
    show "pcm_holds ?s w k = (pcm_holds s w k \<or> w = MIn a \<and> p = Some k)" for w k
      using a by (cases w) (auto simp: s3 s2 defs)
  qed
  have hr: "res_holds ?s = (\<lambda>w k. res_holds s w k \<or> w = MIn a \<and> q = Some k)"
  proof (intro ext)
    show "res_holds ?s w k = (res_holds s w k \<or> w = MIn a \<and> q = Some k)" for w k
      using a idle by (cases w) (auto simp: s3 s2 q_def defs)
  qed
  have "owned pcm_opens pcm_closes (calls ?s) (pcm_holds ?s)"
    unfolding hp using owned_pcm_start [OF own(1) no(1) fp, where p = p and ns = "[]"]
    by (simp add: s3 s2 defs pcm.owned_skip)
  moreover have "owned res_opens res_closes (calls ?s) (res_holds ?s)"
  proof (cases resample)
    case True
    have "owned res_opens res_closes (calls s2) (res_holds s)"
      using own(2) by (simp add: s2 res.owned_skip)
    from owned_res_start [OF this no(2) fq, where q = q and ns = "[]"] True
    show ?thesis unfolding hr by (simp add: s3 q_def defs res.owned_skip)
  next
    case False
    with own(2) show ?thesis unfolding hr by (simp add: s3 s2 q_def defs res.owned_skip)
  qed
  ultimately have "handles_ok ?s" by (simp add: handles_ok_def)
  moreover have "active_ok ?s" "cfg_ok ?s" "idle_ok ?s"
    using inv a by (auto simp: audio_inv_def active_ok_def cfg_ok_def idle_ok_def s3 s2 defs)
  moreover have "rates_ok ?s"
    using a(3) rates by (auto simp: rates_ok_def out_cfg_def s3 s2 defs)
  ultimately show ?thesis by (simp add: audio_inv_def)
qed

lemma start_input_stream_inv:
  assumes "audio_inv s" "in_live s a" "i_standby (ins s a)" "fresh_handles E"
    and "start_input_stream E a s = (ret, s')"
  shows "if ret = 0 then audio_inv (upd_in a (\<lambda>x. x\<lparr>i_standby := False\<rparr>) s')
         else audio_inv s' \<and> i_standby (ins s' a)"
proof -
  obtain device cfg s1 where prep: "in_prepare E a s = (device, cfg, s1)"
    using prod_cases3 by blast
  note r = in_prepare_result [OF assms(1-3) prep]
  have live: "in_live s1 a" using r(6) assms(2) by simp
  define p where p: "p = pcm_open E (calls s1) PCM_CARD device PCM_IN cfg"
  define s2 where s2: "s2 = upd_in a (\<lambda>x. x\<lparr>i_pcm := p\<rparr>) (emit (PcmOpen PCM_CARD device PCM_IN cfg p) s1)"
  note u = start_input_stream_unfold [OF prep p s2]
  show ?thesis
  proof (cases "p \<noteq> None \<and> \<not> pcm_is_ready E (calls s2) p")
    case True
    with u assms(5) have "ret = - ENOMEM" "s' = emit (PcmClose p) s2" by simp_all
    with inv_start_input_failed [OF r(1,4) assms(4) p] True r(4) show ?thesis by (simp add: s2)
  next
    case False
    with u assms(5) have "ret = 0" "s' = upd_dev (\<lambda>d. d\<lparr>active_in := Some a\<rparr>) (in_alloc_buffer E a cfg
        (if requested_rate (ins s2 a) \<noteq> rate cfg then in_create_resampler E a cfg s2 else s2))"
      by (simp_all del: not_None_eq split: if_splits)
    with inv_start_input_done [OF r(1) live r(4,3) assms(4) r(7) p s2 refl] show ?thesis by simp
  qed
qed

lemma start_input_stream_frame:
  assumes "start_input_stream E a s = (ret, s')"
  shows "out_live s' = out_live s" "in_live s' = in_live s"
    "lock_events (calls s') = lock_events (calls s) @
      (case active_out (dev s) of None \<Rightarrow> [] | Some b \<Rightarrow> [Acquire (MOut b), Release (MOut b)])"
    "ret = 0 \<or> ret = - ENOMEM"
    "in_device (dev s') = in_device (dev s)"
  using assms
  by (auto simp: start_input_stream_def in_choose_config_def in_create_resampler_def in_alloc_buffer_def
      Let_def stop_conflicting_output_locks split: if_splits)

section \<open>Calls that open and close nothing\<close>

definition neutral_call :: "call \<Rightarrow> bool" where
  "neutral_call c \<longleftrightarrow> pcm_opens c = None \<and> pcm_closes c = None \<and> res_opens c = None \<and> res_closes c = None"

lemma inv_neutral_calls:
  assumes "audio_inv s" "\<forall>c \<in> set new. neutral_call c"
  shows "audio_inv (s\<lparr>calls := new @ calls s\<rparr>)"
proof -
  let ?s = "s\<lparr>calls := new @ calls s\<rparr>"
  have h: "pcm_holds ?s = pcm_holds s" "res_holds ?s = res_holds s"
    by (intro ext, rename_tac w k, case_tac w; simp)+
  have "handles_ok ?s"
    unfolding handles_ok_def h
    using assms pcm.owned_neutral [of "calls s" "pcm_holds s" new "pcm_holds s"]
      res.owned_neutral [of "calls s" "res_holds s" new "res_holds s"]
    by (simp add: audio_inv_def handles_ok_def neutral_call_def)
  with assms(1) show ?thesis
    by (simp add: audio_inv_def active_ok_def cfg_ok_def idle_ok_def rates_ok_def out_cfg_def)
qed

text \<open>Writing fields of a stream the invariant does not read.\<close>

lemma inv_upd_out_data:
  assumes "audio_inv s"
    and "o_pcm (f (outs s a)) = o_pcm (outs s a)" "o_config (f (outs s a)) = o_config (outs s a)"
    and "o_standby (f (outs s a)) = o_standby (outs s a)"
    and "o_resampler (f (outs s a)) = o_resampler (outs s a)"
    and "o_standby (outs s a) \<Longrightarrow> o_buffer (f (outs s a)) = o_buffer (outs s a)"
  shows "audio_inv (upd_out a f s)"
proof -
  have h: "pcm_holds (upd_out a f s) = pcm_holds s" "res_holds (upd_out a f s) = res_holds s"
    using assms by (intro ext, rename_tac w k, case_tac w; auto)+
  then have "handles_ok (upd_out a f s)" using assms(1) by (simp add: audio_inv_def handles_ok_def)
  with assms show ?thesis
    by (auto simp: audio_inv_def active_ok_def cfg_ok_def idle_ok_def rates_ok_def out_cfg_def)
qed

lemma inv_upd_in_data:
  assumes "audio_inv s"
    and "i_pcm (f (ins s a)) = i_pcm (ins s a)" "i_config (f (ins s a)) = i_config (ins s a)"
    and "i_config_non_sco (f (ins s a)) = i_config_non_sco (ins s a)"
    and "i_standby (f (ins s a)) = i_standby (ins s a)"
    and "i_resampler (f (ins s a)) = i_resampler (ins s a)"
    and "i_standby (ins s a) \<Longrightarrow> i_buffer (f (ins s a)) = i_buffer (ins s a)"
  shows "audio_inv (upd_in a f s)"
proof -
  have h: "pcm_holds (upd_in a f s) = pcm_holds s" "res_holds (upd_in a f s) = res_holds s"
    using assms by (intro ext, rename_tac w k, case_tac w; auto)+
  then have "handles_ok (upd_in a f s)" using assms(1) by (simp add: audio_inv_def handles_ok_def)
  with assms show ?thesis
    by (auto simp: audio_inv_def active_ok_def cfg_ok_def idle_ok_def rates_ok_def out_cfg_def)
qed

text \<open>Writing fields of the device other than the active streams.\<close>

lemma inv_upd_dev_data:
  assumes "audio_inv s" "active_out (f (dev s)) = active_out (dev s)"
    "active_in (f (dev s)) = active_in (dev s)"
  shows "audio_inv (upd_dev f s)"
proof -
  have h: "pcm_holds (upd_dev f s) = pcm_holds s" "res_holds (upd_dev f s) = res_holds s"
    by (intro ext, rename_tac w k, case_tac w; simp)+
  then have "handles_ok (upd_dev f s)" using assms(1) by (simp add: audio_inv_def handles_ok_def)
  with assms show ?thesis
    by (auto simp: audio_inv_def active_ok_def cfg_ok_def idle_ok_def rates_ok_def out_cfg_def)
qed

lemma inv_select_devices: "audio_inv s \<Longrightarrow> audio_inv (select_devices E s)"
  using inv_neutral_calls [of s "AudioRouteUpdateMixer # rev (map AudioRouteApplyPath (routes E (dev s))) @
        [AudioRouteReset]"]
  by (simp add: select_devices_eq neutral_call_def)

end
