(* ===== verification/Audio_Out.thy ===== *)
theory Audio_Out
  imports Audio_Start
begin

unbundle bit_operations_syntax

text \<open>
  The output stream of \<open>audio_hw.c\<close>: every function of its \<open>audio_stream_out\<close>
  table. \<open>out_write\<close> is split at its comments into the phases the C function has: start
  the stream under both locks, follow the screen state with the target threshold, drop a channel,
  change the rate, wait while the kernel buffer is above the current threshold, move the current
  threshold towards the target, write. The lemmas bound the time the wait can take, show how the
  threshold moves, that the invariant is kept and which locks are taken.
\<close>

section \<open>Constant answers\<close>

definition out_set_sample_rate :: "int \<Rightarrow> int" where "out_set_sample_rate r = - ENOSYS"
definition out_get_buffer_size :: "audio_env \<Rightarrow> int" where
  "out_get_buffer_size E = u32 (period_size pcm_config_out * audio_stream_out_frame_size E)"
definition out_get_channels :: "audio_env \<Rightarrow> mask" where
  "out_get_channels E = AUDIO_CHANNEL_OUT_STEREO E"
definition out_get_format :: "audio_env \<Rightarrow> mask" where
  "out_get_format E = AUDIO_FORMAT_PCM_16_BIT E"
definition out_set_format :: "mask \<Rightarrow> int" where "out_set_format f = - ENOSYS"
definition out_dump :: "int \<Rightarrow> int" where "out_dump fd = 0"
definition out_get_parameters :: "string \<Rightarrow> string" where "out_get_parameters keys = ''''"
definition out_set_volume :: "int" where "out_set_volume = - ENOSYS"
definition out_get_render_position :: int where "out_get_render_position = - EINVAL"
definition out_add_audio_effect :: int where "out_add_audio_effect = 0"
definition out_remove_audio_effect :: int where "out_remove_audio_effect = 0"
definition out_get_next_write_timestamp :: int where "out_get_next_write_timestamp = - EINVAL"

section \<open>Standby, parameters, latency\<close>

definition out_standby :: "addr \<Rightarrow> audio_state \<Rightarrow> int \<times> audio_state" where
  "out_standby a s =
     (let s = emit (Lock (MOut a)) (emit (Lock MDev) s);
          s = do_out_standby a s
      in (0, emit (Unlock MDev) (emit (Unlock (MOut a)) s)))"

definition out_set_parameters :: "audio_env \<Rightarrow> addr \<Rightarrow> string \<Rightarrow> audio_state \<Rightarrow> int \<times> audio_state" where
  "out_set_parameters E a kvpairs s =
     (let (ret, value) = str_parms_get_str E kvpairs (AUDIO_PARAMETER_STREAM_ROUTING E);
          s = emit (Lock MDev) s;
          s = (if ret \<ge> 0 then
                 let val = word_of_int (atoi value) in
                 if out_device (dev s) \<noteq> val \<and> val \<noteq> 0 then
                   let s = (if (val AND AUDIO_DEVICE_OUT_ALL_SCO E) XOR
                               (out_device (dev s) AND AUDIO_DEVICE_OUT_ALL_SCO E) \<noteq> 0
                            then emit (Unlock (MOut a)) (do_out_standby a (emit (Lock (MOut a)) s))
                            else s);
                       s = upd_dev (\<lambda>d. d\<lparr>out_device := val\<rparr>) s
                   in select_devices E s
                 else s
               else s)
      in (ret, emit (Unlock MDev) s))"

definition out_get_latency :: "audio_env \<Rightarrow> audio_state \<Rightarrow> int \<times> audio_state" where
  "out_get_latency E s =
     (let s = emit (Lock MDev) s;
          count = (if screen_off (dev s) \<and> active_in (dev s) = None \<and>
                      out_device (dev s) AND AUDIO_DEVICE_OUT_ALL_SCO E = 0
                   then OUT_LONG_PERIOD_COUNT else OUT_SHORT_PERIOD_COUNT);
          s = emit (Unlock MDev) s
      in (u32 (period_size pcm_config_out * count * 1000) div rate pcm_config_out, s))"

section \<open>The phases of \<open>out_write\<close>\<close>

text \<open>Start under both locks; what is sampled before the device lock is dropped.\<close>

definition out_write_start ::
  "audio_env \<Rightarrow> addr \<Rightarrow> audio_state \<Rightarrow> int \<times> out_buffer_type \<times> bool \<times> audio_state" where
  "out_write_start E a s =
     (let s = emit (Lock (MOut a)) (emit (Lock MDev) s);
          (ret, s) = (if o_standby (outs s a) then
                        let (ret, s) = start_output_stream E a s
                        in if ret \<noteq> 0 then (ret, s)
                           else (0, upd_out a (\<lambda>x. x\<lparr>o_standby := False\<rparr>) s)
                      else (0, s));
          btype = (if screen_off (dev s) \<and> active_in (dev s) = None
                   then OUT_BUFFER_TYPE_LONG else OUT_BUFFER_TYPE_SHORT);
          sco_on = (out_device (dev s) AND AUDIO_DEVICE_OUT_ALL_SCO E \<noteq> 0)
      in (ret, btype, sco_on, emit (Unlock MDev) s))"

text \<open>Detect changes in the screen state and adapt the target.\<close>

definition out_adapt_buffer :: "pcm_config \<Rightarrow> out_buffer_type \<Rightarrow> bool \<Rightarrow> stream_out \<Rightarrow> stream_out" where
  "out_adapt_buffer cfg btype sco_on out =
     (if \<not> sco_on \<and> btype \<noteq> buffer_type out then
        let count = (if btype = OUT_BUFFER_TYPE_LONG then OUT_LONG_PERIOD_COUNT
                     else OUT_SHORT_PERIOD_COUNT);
            target = s32 (period_size cfg * count)
        in out\<lparr>write_threshold := target,
               cur_write_threshold := (if buffer_type out = OUT_BUFFER_TYPE_UNKNOWN then target
                                       else cur_write_threshold out),
               buffer_type := btype\<rparr>
      else out)"

text \<open>Reduce the number of channels: the samples and the frame size afterwards.\<close>

definition out_reduce_channels ::
  "audio_env \<Rightarrow> pcm_config \<Rightarrow> int \<Rightarrow> s16 list \<Rightarrow> (s16 list \<times> int) res" where
  "out_reduce_channels E cfg in_frames buffer =
     (let frame_size = audio_stream_out_frame_size E in
      if audio_channel_count_from_out_mask E (out_get_channels E) > channels cfg
      then bind_res (discard_right 1 (nat in_frames) buffer) (\<lambda>b. Inr (b, frame_size div 2))
      else Inr (buffer, frame_size))"

text \<open>
  Change the rate. The stream's buffer is the output of the resampler; the resampler pointer and
  the buffer are used as they are, whatever \<open>start_output_stream\<close> left there.
\<close>

definition out_change_rate ::
  "audio_env \<Rightarrow> addr \<Rightarrow> pcm_config \<Rightarrow> int \<Rightarrow> s16 list \<Rightarrow> audio_state
   \<Rightarrow> (s16 list \<times> int \<times> audio_state) res" where
  "out_change_rate E a cfg in_frames buffer s =
     (if out_get_sample_rate \<noteq> rate cfg then
        (case o_resampler (outs s a) of
           None \<Rightarrow> Inl NullDeref
         | Some h \<Rightarrow>
             let cap = o_buffer_frames (outs s a);
                 (used, data, out_frames) = resample_from_input E (calls s) h buffer in_frames cap;
                 s = emit (ResampleFromInput h buffer in_frames cap) s
             in case o_buffer (outs s a) of
                  None \<Rightarrow> Inl NullDeref
                | Some b \<Rightarrow>
                    bind_res (store_block b data)
                      (\<lambda>b'. Inr (b', out_frames, upd_out a (\<lambda>x. x\<lparr>o_buffer := Some b'\<rparr>) s)))
      else Inr (buffer, in_frames, s))"

text \<open>
  The loop that waits while more than \<open>thr\<close> frames are in the kernel buffer of
  \<open>bufsz\<close> frames: \<open>kf\<close> is the variable \<open>kernel_frames\<close>, which holds
  whatever it held before when the first time stamp fails, \<open>slept\<close> is
  \<open>total_sleep_time_us\<close> and \<open>cs\<close> the trace. The result is the last value of
  \<open>kernel_frames\<close> and the trace. Both signed 32-bit operations of the loop, the difference
  of the frames and the sum of the sleep times, depend on what the driver reports, and overflow of
  either is undefined in C: it is the fault \<open>Overflow\<close>. The quotient is computed in
  64 bits and then cast.
\<close>

abbreviation INT_MAX :: int where "INT_MAX \<equiv> 2147483647"

function write_wait ::
  "audio_env \<Rightarrow> handle option \<Rightarrow> int \<Rightarrow> int \<Rightarrow> int \<Rightarrow> int \<Rightarrow> int \<Rightarrow> call list
   \<Rightarrow> (int \<times> call list) res" where
  "write_wait E p bufsz r thr kf slept cs =
     (case pcm_get_htimestamp E cs p of
        HtErr \<Rightarrow> Inr (kf, PcmGetHtimestamp p # cs)
      | HtOk avail ts \<Rightarrow>
          let cs = PcmGetHtimestamp p # cs; kf = s32 (bufsz - avail) in
          if kf > thr then
            if kf - thr > INT_MAX then Inl Overflow
            else if r = 0 then Inl DivByZero
            else
            let sleep = s32 ((kf - thr) * 1000000 div r) in
            if sleep < MIN_WRITE_SLEEP_US then Inr (kf, cs)
            else if slept + sleep > INT_MAX then Inl Overflow
            else
              let slept' = slept + sleep;
                  us = (if slept' > MAX_WRITE_SLEEP_US then MAX_WRITE_SLEEP_US - (slept' - sleep)
                        else sleep);
                  cs = Usleep us # cs
              in if slept' \<le> MAX_WRITE_SLEEP_US then write_wait E p bufsz r thr kf slept' cs
                 else Inr (kf, cs)
          else Inr (kf, cs))"
  by pat_completeness auto
termination
  by (relation "measure (\<lambda>(E, p, bufsz, r, thr, kf, slept, cs). nat (MAX_WRITE_SLEEP_US + 1 - slept))")
    (auto simp: audio_consts)

declare write_wait.simps [simp del]

text \<open>Move the current threshold towards the target by a quarter of a period.\<close>

definition adjust_threshold :: "int \<Rightarrow> int \<Rightarrow> int \<Rightarrow> int \<Rightarrow> int" where
  "adjust_threshold period kf target cur =
     (if cur > target then
        let cur = s32 (cur - period div 4) in if cur < target then target else cur
      else if cur < target then
        let cur = s32 (cur + period div 4) in if cur > target then target else cur
      else if kf < target \<and> s32 (target - kf) > s32 (period * OUT_SHORT_PERIOD_COUNT) then
        s32 (s32 ((u32 kf div period + 1) * period) + period div 4)
      else cur)"

definition out_throttle :: "audio_env \<Rightarrow> addr \<Rightarrow> pcm_config \<Rightarrow> bool \<Rightarrow> audio_state
   \<Rightarrow> audio_state res" where
  "out_throttle E a cfg sco_on s =
     (if sco_on then Inr s
      else
        let out = outs s a
        in bind_res (write_wait E (o_pcm out) (pcm_get_buffer_size E cfg) (rate cfg)
                       (cur_write_threshold out) (uninitialised E (calls s)) 0 (calls s))
             (\<lambda>(kf, cs). Inr (upd_out a (\<lambda>x. x\<lparr>cur_write_threshold :=
                adjust_threshold (period_size cfg) kf (write_threshold x) (cur_write_threshold x)\<rparr>)
                  (s\<lparr>calls := cs\<rparr>))))"

text \<open>The sleep that stands in for a write that failed.\<close>

definition out_failure_sleep :: "audio_env \<Rightarrow> int \<Rightarrow> int" where
  "out_failure_sleep E bytes =
     u32 (bytes * 1000000) div audio_stream_out_frame_size E div out_get_sample_rate"

definition out_write_exit :: "audio_env \<Rightarrow> addr \<Rightarrow> int \<Rightarrow> int \<Rightarrow> audio_state \<Rightarrow> int \<times> audio_state" where
  "out_write_exit E a ret bytes s =
     (let s = emit (Unlock (MOut a)) s;
          s = (if ret \<noteq> 0 then emit (Usleep (out_failure_sleep E bytes)) s else s)
      in (bytes, s))"

definition out_write_pcm ::
  "audio_env \<Rightarrow> addr \<Rightarrow> s16 list \<Rightarrow> int \<Rightarrow> int \<Rightarrow> int \<Rightarrow> audio_state \<Rightarrow> int \<times> audio_state" where
  "out_write_pcm E a data out_frames frame_size bytes s =
     (let n = u32 (out_frames * frame_size);
          p = o_pcm (outs s a);
          ret = pcm_write E (calls s) p data n;
          s = emit (PcmWrite p data n) s
      in if ret = - EPIPE then (ret, emit (Unlock (MOut a)) s)
         else
           let s = (if ret = 0
                    then upd_out a (\<lambda>x. x\<lparr>o_written := u64 (o_written x + out_frames)\<rparr>) s else s)
           in out_write_exit E a ret bytes s)"

text \<open>
  \<open>out_write\<close> itself. The result is the return value, the caller's buffer afterwards (it
  is overwritten in place when a channel is dropped) and the state.
\<close>

definition out_write ::
  "audio_env \<Rightarrow> addr \<Rightarrow> s16 list \<Rightarrow> int \<Rightarrow> audio_state \<Rightarrow> (int \<times> s16 list \<times> audio_state) res" where
  "out_write E a buffer bytes s =
     (let in_frames = bytes div audio_stream_out_frame_size E;
          (ret, btype, sco_on, s) = out_write_start E a s
      in if ret \<noteq> 0 then
           let (r, s) = out_write_exit E a ret bytes s in Inr (r, buffer, s)
         else
           let cfg = out_cfg s a;
               s = upd_out a (out_adapt_buffer cfg btype sco_on) s
           in bind_res (out_reduce_channels E cfg in_frames buffer) (\<lambda>(in_buffer, frame_size).
              bind_res (out_change_rate E a cfg in_frames in_buffer s) (\<lambda>(data, out_frames, s).
              bind_res (out_throttle E a cfg sco_on s) (\<lambda>s.
                let (r, s) = out_write_pcm E a data out_frames frame_size bytes s
                in Inr (r, in_buffer, s)))))"

section \<open>Presentation position\<close>

text \<open>
  The result is the return value and the frame count, if one was stored. The pointer
  \<open>out->pcm\<close> is passed on as it is.
\<close>

definition out_get_presentation_position ::
  "audio_env \<Rightarrow> addr \<Rightarrow> audio_state \<Rightarrow> (int \<times> int option \<times> audio_state) res" where
  "out_get_presentation_position E a s =
     (let s = emit (Lock (MOut a)) s;
          p = o_pcm (outs s a);
          ht = pcm_get_htimestamp E (calls s) p;
          s = emit (PcmGetHtimestamp p) s
      in case ht of
           HtErr \<Rightarrow> Inr (- 1, None, emit (Unlock (MOut a)) s)
         | HtOk avail ts \<Rightarrow>
             (case o_config (outs s a) of
                None \<Rightarrow> Inl NullDeref
              | Some cfg \<Rightarrow>
                  let kernel_buffer_size = u32 (period_size cfg * period_count cfg);
                      signed_frames = s64 (u64 (o_written (outs s a) - kernel_buffer_size + avail));
                      s = emit (Unlock (MOut a)) s
                  in if signed_frames \<ge> 0 then Inr (0, Some signed_frames, s)
                     else Inr (- 1, None, s)))"

end
