(* ===== verification/Audio_Out_Thms.thy ===== *)
theory Audio_Out_Thms
  imports Audio_Out
begin

unbundle bit_operations_syntax

text \<open>
  Facts about the output stream: the wait of \<open>out_write\<close> ends and sleeps no longer than
  \<open>MAX_WRITE_SLEEP_US\<close> in total, the current threshold approaches its target and never
  passes it, each operation keeps \<open>audio_inv\<close> and takes its locks in order, and what
  \<open>out_write\<close> hands to the driver.
\<close>

section \<open>The wait\<close>

fun slept_us :: "call list \<Rightarrow> int" where
  "slept_us [] = 0"
| "slept_us (Usleep u # cs) = u + slept_us cs"
| "slept_us (_ # cs) = slept_us cs"

definition wait_call :: "handle option \<Rightarrow> call \<Rightarrow> bool" where
  "wait_call p c \<longleftrightarrow> c = PcmGetHtimestamp p \<or> (\<exists>u. c = Usleep u \<and> 0 \<le> u \<and> u \<le> MAX_WRITE_SLEEP_US)"

lemma MAX_WRITE_SLEEP_US_val: "MAX_WRITE_SLEEP_US = 23219"
  by (simp add: audio_consts)

text \<open>
  How a wait that returns has gone on from the trace \<open>cs\<close>: with time stamps and sleeps
  only, within the budget, and for as long as needed. It ends because the driver has no more than
  \<open>thr\<close> frames left, or would have after less than the shortest sleep, or because the
  budget is used up, or because the time stamp failed.
\<close>

definition wait_over ::
  "audio_env \<Rightarrow> handle option \<Rightarrow> int \<Rightarrow> int \<Rightarrow> int \<Rightarrow> call list \<Rightarrow> int \<Rightarrow> call list \<Rightarrow> bool" where
  "wait_over E p r thr budget cs kf' cs' \<longleftrightarrow>
     (\<exists>new. cs' = new @ cs \<and> (\<forall>c \<in> set new. wait_call p c) \<and> slept_us new \<le> budget \<and>
        int (length new) \<le> 2 * (budget div MIN_WRITE_SLEEP_US) + 2 \<and>
        (kf' \<le> thr \<or> s32 ((kf' - thr) * 1000000 div r) < MIN_WRITE_SLEEP_US \<or>
         slept_us new = budget \<or> pcm_get_htimestamp E (tl cs') p = HtErr))"

text \<open>The driver has reported frames for more than 2000 seconds.\<close>

definition far_behind :: "audio_env \<Rightarrow> handle option \<Rightarrow> int \<Rightarrow> int \<Rightarrow> int \<Rightarrow> bool" where
  "far_behind E p bufsz r thr \<longleftrightarrow>
     (\<exists>cs avail ts. pcm_get_htimestamp E cs p = HtOk avail ts \<and> 2000 * r < s32 (bufsz - avail) - thr)"

lemma slept_us_append [simp]: "slept_us (xs @ ys) = slept_us xs + slept_us ys"
  by (induction xs rule: slept_us.induct) auto

lemma wait_over_here:
  assumes "0 \<le> budget" "kf' \<le> thr \<or> s32 ((kf' - thr) * 1000000 div r) < MIN_WRITE_SLEEP_US \<or>
    pcm_get_htimestamp E cs p = HtErr"
  shows "wait_over E p r thr budget cs kf' (PcmGetHtimestamp p # cs)"
  unfolding wait_over_def using assms
  by (intro exI [of _ "[PcmGetHtimestamp p]"]) (auto simp: wait_call_def audio_consts)

lemma wait_over_budget:
  assumes "0 \<le> budget" "budget \<le> MAX_WRITE_SLEEP_US"
  shows "wait_over E p r thr budget cs kf' (Usleep budget # PcmGetHtimestamp p # cs)"
  unfolding wait_over_def using assms
  by (intro exI [of _ "[Usleep budget, PcmGetHtimestamp p]"]) (auto simp: wait_call_def audio_consts)

lemma wait_over_sleep:
  assumes "wait_over E p r thr (budget - sleep) (Usleep sleep # PcmGetHtimestamp p # cs) kf' cs'"
    and "MIN_WRITE_SLEEP_US \<le> sleep" "sleep \<le> budget" "budget \<le> MAX_WRITE_SLEEP_US"
  shows "wait_over E p r thr budget cs kf' cs'"
proof -
  obtain new where new: "cs' = new @ Usleep sleep # PcmGetHtimestamp p # cs" "\<forall>c \<in> set new. wait_call p c"
      "slept_us new \<le> budget - sleep" "int (length new) \<le> 2 * ((budget - sleep) div MIN_WRITE_SLEEP_US) + 2"
      "kf' \<le> thr \<or> s32 ((kf' - thr) * 1000000 div r) < MIN_WRITE_SLEEP_US \<or>
         slept_us new = budget - sleep \<or> pcm_get_htimestamp E (tl cs') p = HtErr"
    using assms(1) unfolding wait_over_def by blast
  have "(budget - sleep) div MIN_WRITE_SLEEP_US + 1 \<le> budget div MIN_WRITE_SLEEP_US"
    using assms(2) by (simp add: audio_consts)
  with new assms(2-4) show ?thesis
    unfolding wait_over_def
    by (intro exI [of _ "new @ [Usleep sleep, PcmGetHtimestamp p]"]) (auto simp: wait_call_def audio_consts)
qed

text \<open>An overflow of either operation means that the driver is far behind.\<close>

lemma far_behind_frames:
  assumes "pcm_get_htimestamp E cs p = HtOk avail ts" "r \<le> 1000000"
    and "INT_MAX < s32 (bufsz - avail) - thr"
  shows "far_behind E p bufsz r thr"
  unfolding far_behind_def using assms by (intro exI [of _ cs] exI [of _ avail] exI [of _ ts]) simp

lemma far_behind_sleep:
  assumes "pcm_get_htimestamp E cs p = HtOk avail ts" "0 < r" "thr < s32 (bufsz - avail)"
    and "INT_MAX < slept + s32 ((s32 (bufsz - avail) - thr) * 1000000 div r)" "slept \<le> MAX_WRITE_SLEEP_US"
  shows "far_behind E p bufsz r thr"
proof -
  let ?d = "s32 (bufsz - avail) - thr"
  have le: "s32 x \<le> x" if "0 \<le> x" for x
  proof -
    have "(x + 2147483648) mod 4294967296 \<le> x + 2147483648" using that by (intro zmod_le_nonneg_dividend) simp
    then show ?thesis by (simp add: s32_def)
  qed
  have "2000000000 < s32 (?d * 1000000 div r)" using assms(4,5) by (simp add: audio_consts)
  also have "\<dots> \<le> ?d * 1000000 div r" using assms(2,3) by (intro le pos_imp_zdiv_nonneg_iff [THEN iffD2]) auto
  finally have "2000000000 * r < ?d * 1000000 div r * r" using assms(2) by simp
  also have "\<dots> \<le> ?d * 1000000" using assms(2) by (metis mult.commute div_mult_mod_eq pos_mod_sign le_add_same_cancel1)
  finally show ?thesis
    unfolding far_behind_def using assms(1)
    by (intro exI [of _ cs] exI [of _ avail] exI [of _ ts]) simp
qed

lemma write_wait_trace:
  assumes "0 \<le> slept" "slept \<le> MAX_WRITE_SLEEP_US"
  shows "case write_wait E p bufsz r thr kf slept cs of
      Inl e \<Rightarrow> 0 < r \<and> r \<le> 1000000 \<longrightarrow> e = Overflow \<and> far_behind E p bufsz r thr
    | Inr (kf', cs') \<Rightarrow> wait_over E p r thr (MAX_WRITE_SLEEP_US - slept) cs kf' cs'"
  using assms
proof (induction E p bufsz r thr kf slept cs rule: write_wait.induct)
  case (1 E p bufsz r thr kf slept cs)
  show ?case
  proof (cases "pcm_get_htimestamp E cs p")
    case HtErr
    with "1.prems" show ?thesis by (simp add: write_wait.simps [of E p] wait_over_here)
  next
    case (HtOk avail ts)
    let ?kf = "s32 (bufsz - avail)"
    define sleep where "sleep = s32 ((?kf - thr) * 1000000 div r)"
    note unfold = write_wait.simps [of E p bufsz r thr kf slept cs, unfolded HtOk Let_def ht_result.case, folded sleep_def]
    consider "?kf \<le> thr" | "thr < ?kf" "INT_MAX < ?kf - thr" | "thr < ?kf" "?kf - thr \<le> INT_MAX" "r = 0"
      | "thr < ?kf" "?kf - thr \<le> INT_MAX" "r \<noteq> 0" "sleep < MIN_WRITE_SLEEP_US"
      | "thr < ?kf" "?kf - thr \<le> INT_MAX" "r \<noteq> 0" "MIN_WRITE_SLEEP_US \<le> sleep" "INT_MAX < slept + sleep"
      | "thr < ?kf" "?kf - thr \<le> INT_MAX" "r \<noteq> 0" "MIN_WRITE_SLEEP_US \<le> sleep" "slept + sleep \<le> INT_MAX"
          "MAX_WRITE_SLEEP_US < slept + sleep"
      | "thr < ?kf" "?kf - thr \<le> INT_MAX" "r \<noteq> 0" "MIN_WRITE_SLEEP_US \<le> sleep" "slept + sleep \<le> INT_MAX"
          "slept + sleep \<le> MAX_WRITE_SLEEP_US"
      by linarith
    then show ?thesis
    proof cases
      case 1
      with "1.prems" show ?thesis by (simp add: unfold wait_over_here)
    next
      case 2
      with far_behind_frames [OF HtOk, of r bufsz thr] show ?thesis by (simp add: unfold)
    next
      case 3
      then have "write_wait E p bufsz r thr kf slept cs = Inl DivByZero"
        by (subst unfold) simp
      with 3 show ?thesis by simp
    next
      case 4
      then have "wait_over E p r thr (MAX_WRITE_SLEEP_US - slept) cs ?kf (PcmGetHtimestamp p # cs)"
        using "1.prems" by (intro wait_over_here) (auto simp: sleep_def)
      with 4 show ?thesis by (simp add: unfold)
    next
      case 5
      with far_behind_sleep [OF HtOk, of r thr bufsz slept, folded sleep_def] "1.prems"
      show ?thesis by (simp add: unfold)
    next
      case 6
      with "1.prems" show ?thesis by (simp add: unfold wait_over_budget)
    next
      case 7
      let ?cs = "Usleep sleep # PcmGetHtimestamp p # cs"
      have step: "write_wait E p bufsz r thr kf slept cs =
          write_wait E p bufsz r thr ?kf (slept + sleep) ?cs"
        using 7 "1.prems" by (simp add: unfold)
      have ih: "case write_wait E p bufsz r thr ?kf (slept + sleep) ?cs of
          Inl e \<Rightarrow> 0 < r \<and> r \<le> 1000000 \<longrightarrow> e = Overflow \<and> far_behind E p bufsz r thr
        | Inr (kf', cs') \<Rightarrow> wait_over E p r thr (MAX_WRITE_SLEEP_US - (slept + sleep)) ?cs kf' cs'"
        using 7 "1.prems"
        by (intro "1.IH" [OF HtOk refl refl _ _ _ sleep_def _ _ refl _ refl]) (auto simp: audio_consts)
      have b: "wait_over E p r thr (MAX_WRITE_SLEEP_US - slept) cs kf' cs'"
        if "wait_over E p r thr (MAX_WRITE_SLEEP_US - (slept + sleep)) ?cs kf' cs'" for kf' cs'
        by (rule wait_over_sleep [where sleep = sleep]) (use that 7 "1.prems" in \<open>simp_all add: diff_diff_eq\<close>)
      show ?thesis unfolding step using ih b by (auto split: sum.splits)
    qed
  qed
qed

section \<open>The threshold\<close>

text \<open>
  With the period of 512 frames the current threshold comes 128 frames closer to the target at
  each write, and stops there.
\<close>

lemma adjust_threshold_towards:
  assumes "\<bar>cur\<bar> < 1073741824" "\<bar>target\<bar> < 1073741824" "cur \<noteq> target"
  shows "adjust_threshold 512 kf target cur =
    (if cur > target then max target (cur - 128) else min target (cur + 128))"
  using assms by (auto simp: adjust_threshold_def Let_def)

lemma adjust_threshold_distance:
  assumes "\<bar>cur\<bar> < 1073741824" "\<bar>target\<bar> < 1073741824" "cur \<noteq> target"
  shows "\<bar>adjust_threshold 512 kf target cur - target\<bar> = max 0 (\<bar>cur - target\<bar> - 128)"
  by (simp add: adjust_threshold_towards [OF assms]) linarith

text \<open>A sequence of writes, each with its own filling level of the kernel buffer.\<close>

lemma adjust_threshold_writes:
  assumes "\<bar>cur\<bar> < 1073741824" "\<bar>target\<bar> < 1073741824" "128 * int (length kfs) \<le> \<bar>cur - target\<bar>"
  shows "\<bar>foldl (\<lambda>c kf. adjust_threshold 512 kf target c) cur kfs - target\<bar> =
      \<bar>cur - target\<bar> - 128 * int (length kfs) \<and>
    min cur target \<le> foldl (\<lambda>c kf. adjust_threshold 512 kf target c) cur kfs \<and>
    foldl (\<lambda>c kf. adjust_threshold 512 kf target c) cur kfs \<le> max cur target"
  using assms
proof (induction kfs arbitrary: cur)
  case Nil
  then show ?case by simp
next
  case (Cons kf kfs)
  let ?c = "adjust_threshold 512 kf target cur"
  have ne: "cur \<noteq> target" using Cons.prems(3) by auto
  note t = adjust_threshold_towards [OF Cons.prems(1,2) ne, of kf]
  have d: "\<bar>?c - target\<bar> = \<bar>cur - target\<bar> - 128"
    using adjust_threshold_distance [OF Cons.prems(1,2) ne, of kf] Cons.prems(3) by simp
  have b: "min cur target \<le> ?c" "?c \<le> max cur target" using t by auto
  then have c: "\<bar>?c\<bar> < 1073741824" using Cons.prems(1,2) by linarith
  have "128 * int (length kfs) \<le> \<bar>?c - target\<bar>" using d Cons.prems(3) by simp
  from Cons.IH [OF c Cons.prems(2) this] d b show ?case by auto
qed

text \<open>
  On the target, a kernel buffer that is more than two periods short of it resets the current
  threshold to just above the filling level, also when that level is negative: the division is
  done on the unsigned value, but the period divides \<open>2 ^ 32\<close>.
\<close>

lemma u32_neg: "- 4294967296 \<le> x \<Longrightarrow> x < 0 \<Longrightarrow> u32 x = x + 4294967296"
proof -
  assume x: "- 4294967296 \<le> x" "x < 0"
  have "x mod 4294967296 = (x + 4294967296) mod 4294967296" by simp
  also have "\<dots> = x + 4294967296" using x by (intro mod_pos_pos_trivial) auto
  finally show ?thesis by (simp add: u32_def)
qed

lemma s32_wrap: "s32 (x + 4294967296) = s32 x"
proof -
  have "x + 4294967296 + 2147483648 = (x + 2147483648) + 4294967296" by simp
  then show ?thesis by (simp only: s32_def mod_add_self2)
qed

lemma refill_value:
  assumes "- 1073741824 < kf" "kf < 1073741824"
  shows "s32 (s32 ((u32 kf div 512 + 1) * 512) + 128) = (kf div 512 + 1) * 512 + 128"
proof -
  have "s32 ((u32 kf div 512 + 1) * 512) = s32 ((kf div 512 + 1) * 512)"
  proof (cases "kf < 0")
    case True
    then have "u32 kf div 512 = (kf + 8388608 * 512) div 512" using assms by (simp add: u32_neg)
    also have "\<dots> = kf div 512 + 8388608" by (subst div_mult_self1) simp_all
    finally have "(u32 kf div 512 + 1) * 512 = (kf div 512 + 1) * 512 + 4294967296" by simp
    then show ?thesis by (simp only: s32_wrap)
  next
    case False
    with assms show ?thesis by simp
  qed
  moreover have "s32 ((k + 1) * 512) = (k + 1) * 512 \<and> s32 ((k + 1) * 512 + 128) = (k + 1) * 512 + 128"
    if "512 * k \<le> kf" "kf < 512 * k + 512" for k
    using assms that by simp
  moreover have "512 * (kf div 512) \<le> kf" "kf < 512 * (kf div 512) + 512" by linarith+
  ultimately show ?thesis by simp
qed

lemma adjust_threshold_refill:
  assumes "- 1073741824 < kf" "kf < target - 1024" "target < 1073741824"
  shows "adjust_threshold 512 kf target target = (kf div 512 + 1) * 512 + 128"
  using assms refill_value [of kf] by (simp add: adjust_threshold_def OUT_SHORT_PERIOD_COUNT_def)

lemma adjust_threshold_keep:
  assumes "target - 1024 \<le> kf" "\<bar>target\<bar> < 1073741824" "\<bar>kf\<bar> < 1073741824"
  shows "adjust_threshold 512 kf target target = target"
  using assms by (auto simp: adjust_threshold_def OUT_SHORT_PERIOD_COUNT_def)

section \<open>Invariant: standby and parameters\<close>

lemma inv_out_standby:
  "audio_inv s \<Longrightarrow> out_live s a \<Longrightarrow> audio_inv (snd (out_standby a s))"
  by (simp add: out_standby_def Let_def inv_do_out_standby)

lemma inv_out_set_parameters:
  assumes "audio_inv s" "out_live s a"
  shows "audio_inv (snd (out_set_parameters E a kv s))"
proof -
  have "audio_inv (do_out_standby a (emit (Lock (MOut a)) (emit (Lock MDev) s)))"
    using assms by (simp add: inv_do_out_standby)
  with assms show ?thesis
    by (auto simp: out_set_parameters_def Let_def split: prod.splits
        intro!: inv_unlock inv_select_devices inv_upd_dev_data)
qed

lemma inv_out_get_latency: "audio_inv s \<Longrightarrow> audio_inv (snd (out_get_latency E s))"
  by (simp add: out_get_latency_def Let_def)

section \<open>Invariant: \<open>out_write\<close>\<close>

lemma out_write_start_inv:
  assumes "audio_inv s" "out_live s a" "fresh_handles E"
    and "out_write_start E a s = (ret, btype, sco_on, s')"
  shows "audio_inv s' \<and> (ret = 0 \<longrightarrow> \<not> o_standby (outs s' a)) \<and> out_live s' = out_live s"
proof -
  let ?s = "emit (Lock (MOut a)) (emit (Lock MDev) s)"
  have inv: "audio_inv ?s" using assms(1) by simp
  show ?thesis
  proof (cases "o_standby (outs s a)")
    case False
    with assms(4) inv show ?thesis by (auto simp: out_write_start_def Let_def)
  next
    case True
    obtain r t where st: "start_output_stream E a ?s = (r, t)" by fastforce
    note i = start_output_stream_inv [OF inv _ _ assms(3) st] start_output_stream_frame [OF st]
    with assms(2,4) True st show ?thesis
      by (auto simp: out_write_start_def Let_def split: if_splits)
  qed
qed

lemma inv_out_write_exit:
  "audio_inv s \<Longrightarrow> audio_inv (snd (out_write_exit E a ret bytes s))"
  by (simp add: out_write_exit_def Let_def inv_emit)

lemma inv_out_write_pcm:
  "audio_inv s \<Longrightarrow> audio_inv (snd (out_write_pcm E a data n fs bytes s))"
  by (auto simp: out_write_pcm_def Let_def inv_emit intro!: inv_out_write_exit inv_upd_out_data)

lemma out_throttle_result:
  assumes "out_throttle E a cfg sco_on s = Inr s'"
  shows "\<exists>new cur. s' =
      (if sco_on then s else upd_out a (\<lambda>x. x\<lparr>cur_write_threshold := cur\<rparr>) (s\<lparr>calls := new @ calls s\<rparr>)) \<and>
    (\<forall>c \<in> set new. wait_call (o_pcm (outs s a)) c) \<and> slept_us new \<le> MAX_WRITE_SLEEP_US"
proof (cases sco_on)
  case True
  with assms show ?thesis by (auto simp: out_throttle_def audio_consts intro!: exI [of _ "[]"])
next
  case False
  let ?o = "outs s a"
  let ?w = "write_wait E (o_pcm ?o) (pcm_get_buffer_size E cfg) (rate cfg) (cur_write_threshold ?o)
    (uninitialised E (calls s)) 0 (calls s)"
  obtain kf cs where w: "?w = Inr (kf, cs)" and s': "s' = upd_out a (\<lambda>x. x\<lparr>cur_write_threshold :=
      adjust_threshold (period_size cfg) kf (write_threshold x) (cur_write_threshold x)\<rparr>) (s\<lparr>calls := cs\<rparr>)"
    using assms False by (auto simp: out_throttle_def Let_def bind_res_Inr)
  have "wait_over E (o_pcm ?o) (rate cfg) (cur_write_threshold ?o) MAX_WRITE_SLEEP_US (calls s) kf cs"
    using write_wait_trace [where slept = 0 and E = E and p = "o_pcm ?o" and bufsz = "pcm_get_buffer_size E cfg"
        and r = "rate cfg" and thr = "cur_write_threshold ?o" and kf = "uninitialised E (calls s)" and cs = "calls s", unfolded w] by (simp add: MAX_WRITE_SLEEP_US_val)
  then obtain new where new: "cs = new @ calls s" "\<forall>c \<in> set new. wait_call (o_pcm ?o) c"
      "slept_us new \<le> MAX_WRITE_SLEEP_US"
    by (auto simp: wait_over_def)
  let ?cur = "adjust_threshold (period_size cfg) kf (write_threshold ?o) (cur_write_threshold ?o)"
  have "s' = upd_out a (\<lambda>x. x\<lparr>cur_write_threshold := ?cur\<rparr>) (s\<lparr>calls := new @ calls s\<rparr>)"
    unfolding s' new(1) by (simp add: upd_out_def)
  with new False show ?thesis by (intro exI [of _ new] exI [of _ ?cur]) simp
qed

text \<open>With a driver that never holds frames for more than 2000 seconds, the wait has no fault.\<close>

lemma out_throttle_returns:
  assumes "0 < rate cfg" "rate cfg \<le> 1000000"
    and "\<not> far_behind E (o_pcm (outs s a)) (pcm_get_buffer_size E cfg) (rate cfg) (cur_write_threshold (outs s a))"
  shows "\<exists>s'. out_throttle E a cfg sco_on s = Inr s'"
proof -
  let ?o = "outs s a"
  let ?w = "write_wait E (o_pcm ?o) (pcm_get_buffer_size E cfg) (rate cfg) (cur_write_threshold ?o)
    (uninitialised E (calls s)) 0 (calls s)"
  have "\<exists>x. ?w = Inr x"
    using assms write_wait_trace [where slept = 0 and E = E and p = "o_pcm ?o" and bufsz = "pcm_get_buffer_size E cfg"
        and r = "rate cfg" and thr = "cur_write_threshold ?o" and kf = "uninitialised E (calls s)" and cs = "calls s"]
    by (cases ?w) (auto simp: MAX_WRITE_SLEEP_US_val)
  then show ?thesis by (auto simp: out_throttle_def Let_def)
qed

lemma inv_out_throttle:
  assumes "audio_inv s" "out_throttle E a cfg sco_on s = Inr s'"
  shows "audio_inv s'"
proof -
  obtain new cur where t: "s' =
      (if sco_on then s else upd_out a (\<lambda>x. x\<lparr>cur_write_threshold := cur\<rparr>) (s\<lparr>calls := new @ calls s\<rparr>))"
    "\<forall>c \<in> set new. wait_call (o_pcm (outs s a)) c" "slept_us new \<le> MAX_WRITE_SLEEP_US"
    using out_throttle_result [OF assms(2)] by blast
  have "\<forall>c \<in> set new. neutral_call c" using t(2) by (auto simp: wait_call_def neutral_call_def)
  with assms have "audio_inv (s\<lparr>calls := new @ calls s\<rparr>)" by (intro inv_neutral_calls)
  then show ?thesis unfolding t(1) using assms by (auto intro!: inv_upd_out_data)
qed

lemma out_change_rate_inv:
  assumes "audio_inv s" "\<not> o_standby (outs s a)" "out_change_rate E a cfg n buf s = Inr (data, m, s')"
  shows "audio_inv s' \<and> out_live s' = out_live s"
  using assms
  by (auto simp: out_change_rate_def Let_def bind_res_Inr split: if_splits option.splits prod.splits
      intro!: inv_upd_out_data inv_emit)

lemma out_adapt_buffer_sel [simp]:
  "o_pcm (out_adapt_buffer cfg b sco x) = o_pcm x"
  "o_config (out_adapt_buffer cfg b sco x) = o_config x"
  "o_standby (out_adapt_buffer cfg b sco x) = o_standby x"
  "o_resampler (out_adapt_buffer cfg b sco x) = o_resampler x"
  "o_buffer (out_adapt_buffer cfg b sco x) = o_buffer x"
  "o_buffer_frames (out_adapt_buffer cfg b sco x) = o_buffer_frames x"
  "o_written (out_adapt_buffer cfg b sco x) = o_written x"
  by (simp_all add: out_adapt_buffer_def Let_def)

text \<open>A write to a stream that runs, phase by phase.\<close>

lemma out_write_running:
  assumes "out_write_start E a s = (0, btype, sco_on, s1)"
  shows "out_write E a buffer bytes s = Inr (r, b, s') \<longleftrightarrow>
    (\<exists>fs data n s3 s4. out_reduce_channels E (out_cfg s1 a) (bytes div audio_stream_out_frame_size E) buffer
        = Inr (b, fs) \<and>
      out_change_rate E a (out_cfg s1 a) (bytes div audio_stream_out_frame_size E) b
        (upd_out a (out_adapt_buffer (out_cfg s1 a) btype sco_on) s1) = Inr (data, n, s3) \<and>
      out_throttle E a (out_cfg s1 a) sco_on s3 = Inr s4 \<and>
      out_write_pcm E a data n fs bytes s4 = (r, s'))"
  using assms by (auto simp: out_write_def Let_def bind_res_Inr case_prod_beta prod_eq_iff)

lemma inv_out_write:
  assumes "audio_inv s" "out_live s a" "fresh_handles E"
    and "out_write E a buffer bytes s = Inr (r, buffer', s')"
  shows "audio_inv s'"
proof -
  obtain ret btype sco_on s1 where st: "out_write_start E a s = (ret, btype, sco_on, s1)"
    using prod_cases4 by blast
  note i = out_write_start_inv [OF assms(1-3) st]
  show ?thesis
  proof (cases "ret = 0")
    case False
    with assms(4) st i inv_out_write_exit [of s1 E a ret bytes] show ?thesis
      by (auto simp: out_write_def Let_def split: prod.splits)
  next
    case True
    let ?cfg = "out_cfg s1 a"
    let ?s2 = "upd_out a (out_adapt_buffer ?cfg btype sco_on) s1"
    from assms(4) st True obtain fs data n s3 s4 where
      c: "out_change_rate E a ?cfg (bytes div audio_stream_out_frame_size E) buffer' ?s2 = Inr (data, n, s3)"
      and t: "out_throttle E a ?cfg sco_on s3 = Inr s4" and w: "out_write_pcm E a data n fs bytes s4 = (r, s')"
      using out_write_running [of E a s btype sco_on s1] by blast
    have "audio_inv ?s2" "\<not> o_standby (outs ?s2 a)"
      using i True by (auto intro!: inv_upd_out_data)
    from out_change_rate_inv [OF this c] have "audio_inv s3" by simp
    then have "audio_inv (snd (out_write_pcm E a data n fs bytes s4))"
      by (intro inv_out_write_pcm inv_out_throttle [OF _ t])
    then show ?thesis using w by simp
  qed
qed

lemma inv_out_get_presentation_position:
  assumes "audio_inv s" "out_get_presentation_position E a s = Inr (r, f, s')"
  shows "audio_inv s'"
  using assms
  by (auto simp: out_get_presentation_position_def Let_def inv_emit
      split: ht_result.splits option.splits if_splits)

section \<open>Locks\<close>

lemma out_standby_locks:
  "lock_events (calls (snd (out_standby a s))) = lock_events (calls s) @
     [Acquire MDev, Acquire (MOut a), Release (MOut a), Release MDev]"
  by (simp add: out_standby_def Let_def)

lemma out_set_parameters_locks:
  "\<exists>inner \<in> {[], [Acquire (MOut a), Release (MOut a)]}.
     lock_events (calls (snd (out_set_parameters E a kv s))) =
       lock_events (calls s) @ [Acquire MDev] @ inner @ [Release MDev]"
  by (auto simp: out_set_parameters_def Let_def split: prod.splits)

lemma out_get_latency_locks:
  "lock_events (calls (snd (out_get_latency E s))) = lock_events (calls s) @ [Acquire MDev, Release MDev]"
  by (simp add: out_get_latency_def Let_def)

lemma out_write_start_locks:
  assumes "out_write_start E a s = (ret, btype, sco_on, s')"
  shows "lock_events (calls s') = lock_events (calls s) @ [Acquire MDev, Acquire (MOut a)] @
    (if o_standby (outs s a)
     then (case active_in (dev s) of None \<Rightarrow> [] | Some i \<Rightarrow> [Acquire (MIn i), Release (MIn i)]) else []) @
    [Release MDev]"
proof -
  obtain r t where st: "start_output_stream E a (emit (Lock (MOut a)) (emit (Lock MDev) s)) = (r, t)"
    by fastforce
  with assms start_output_stream_frame(3) [OF st] show ?thesis
    by (auto simp: out_write_start_def Let_def split: if_splits)
qed

lemma lock_events_wait:
  "\<forall>c \<in> set new. wait_call p c \<Longrightarrow> lock_events (new @ cs) = lock_events cs"
  by (rule lock_events_neutral) (auto simp: wait_call_def)

lemma out_throttle_locks:
  assumes "out_throttle E a cfg sco_on s = Inr s'"
  shows "lock_events (calls s') = lock_events (calls s)"
proof -
  obtain new cur where t: "s' =
      (if sco_on then s else upd_out a (\<lambda>x. x\<lparr>cur_write_threshold := cur\<rparr>) (s\<lparr>calls := new @ calls s\<rparr>))"
    "\<forall>c \<in> set new. wait_call (o_pcm (outs s a)) c"
    using out_throttle_result [OF assms] by blast
  then show ?thesis using lock_events_wait [OF t(2)] by simp
qed

lemma out_change_rate_locks:
  "out_change_rate E a cfg n buf s = Inr (data, m, s') \<Longrightarrow> lock_events (calls s') = lock_events (calls s)"
  by (auto simp: out_change_rate_def Let_def bind_res_Inr split: if_splits option.splits prod.splits)

lemma out_write_pcm_locks:
  "out_write_pcm E a data n fs bytes s = (r, s') \<Longrightarrow>
   lock_events (calls s') = lock_events (calls s) @ [Release (MOut a)]"
  by (auto simp: out_write_pcm_def out_write_exit_def Let_def split: if_splits)

lemma out_write_exit_locks:
  "lock_events (calls (snd (out_write_exit E a ret bytes s))) = lock_events (calls s) @ [Release (MOut a)]"
  by (simp add: out_write_exit_def Let_def)

lemma out_write_locks:
  assumes "out_write E a buffer bytes s = Inr (r, buffer', s')"
  shows "lock_events (calls s') = lock_events (calls s) @ [Acquire MDev, Acquire (MOut a)] @
    (if o_standby (outs s a)
     then (case active_in (dev s) of None \<Rightarrow> [] | Some i \<Rightarrow> [Acquire (MIn i), Release (MIn i)]) else []) @
    [Release MDev, Release (MOut a)]"
proof -
  obtain ret btype sco_on s1 where st: "out_write_start E a s = (ret, btype, sco_on, s1)"
    using prod_cases4 by blast
  note l = out_write_start_locks [OF st]
  show ?thesis
  proof (cases "ret = 0")
    case False
    with assms st have "s' = snd (out_write_exit E a ret bytes s1)"
      by (auto simp: out_write_def Let_def split: prod.splits)
    with l show ?thesis by (simp add: out_write_exit_locks)
  next
    case True
    then obtain fs data n s3 s4 where
      "out_change_rate E a (out_cfg s1 a) (bytes div audio_stream_out_frame_size E) buffer'
         (upd_out a (out_adapt_buffer (out_cfg s1 a) btype sco_on) s1) = Inr (data, n, s3)"
      "out_throttle E a (out_cfg s1 a) sco_on s3 = Inr s4" "out_write_pcm E a data n fs bytes s4 = (r, s')"
      using assms st out_write_running [of E a s btype sco_on s1] by blast
    from out_change_rate_locks [OF this(1)] out_throttle_locks [OF this(2)] out_write_pcm_locks [OF this(3)] l
    show ?thesis by simp
  qed
qed

lemma out_get_presentation_position_locks:
  assumes "out_get_presentation_position E a s = Inr (r, f, s')"
  shows "lock_events (calls s') = lock_events (calls s) @ [Acquire (MOut a), Release (MOut a)]"
  using assms
  by (auto simp: out_get_presentation_position_def Let_def
      split: ht_result.splits option.splits if_splits)

section \<open>What a write hands to the driver\<close>

text \<open>
  A driver whose buffer never holds more than half an hour of sound, and a threshold that is not
  negative: the two signed operations of the wait cannot overflow.
\<close>

lemma not_far_behind:
  assumes "\<And>cs avail ts. pcm_get_htimestamp E cs p = HtOk avail ts \<Longrightarrow> s32 (bufsz - avail) \<le> 80000000"
    and "0 \<le> thr"
  shows "\<not> far_behind E p bufsz 44100 thr"
  using assms by (fastforce simp: far_behind_def)

text \<open>
  A running stream on the main PCM: the caller's buffer goes to the driver unchanged, after a wait
  that is bounded, and the frame counter advances by the frames of the buffer.
\<close>

lemma out_write_main_pcm:
  assumes run: "\<not> o_standby (outs s a)" "o_config (outs s a) = Some pcm_config_out"
    and no_sco: "out_device (dev s) AND AUDIO_DEVICE_OUT_ALL_SCO E = 0"
    and hdr: "audio_stream_out_frame_size E = 4"
      "audio_channel_count_from_out_mask E (AUDIO_CHANNEL_OUT_STEREO E) = 2"
    and ok: "\<And>cs p d n. pcm_write E cs p d n = 0"
    and bytes: "0 \<le> bytes" "bytes < 4294967296"
    and wait: "0 \<le> cur_write_threshold (outs s a)"
      "\<And>cs p avail ts. pcm_get_htimestamp E cs p = HtOk avail ts \<Longrightarrow>
         s32 (pcm_get_buffer_size E pcm_config_out - avail) \<le> 80000000"
  shows "\<exists>s' w. out_write E a buffer bytes s = Inr (bytes, buffer, s') \<and>
    calls s' = Unlock (MOut a) # PcmWrite (o_pcm (outs s a)) buffer (4 * (bytes div 4)) # w @
      Unlock MDev # Lock (MOut a) # Lock MDev # calls s \<and>
    (\<forall>c \<in> set w. wait_call (o_pcm (outs s a)) c) \<and> slept_us w \<le> MAX_WRITE_SLEEP_US \<and>
    o_written (outs s' a) = u64 (o_written (outs s a) + bytes div 4)"
proof -
  define bt where "bt = (if screen_off (dev s) \<and> active_in (dev s) = None then OUT_BUFFER_TYPE_LONG
    else OUT_BUFFER_TYPE_SHORT)"
  let ?s1 = "emit (Unlock MDev) (emit (Lock (MOut a)) (emit (Lock MDev) s))"
  define s2 where "s2 = upd_out a (out_adapt_buffer pcm_config_out bt False) ?s1"
  have st: "out_write_start E a s = (0, bt, False, ?s1)"
    using run no_sco by (simp add: out_write_start_def Let_def bt_def)
  have cfg: "out_cfg ?s1 a = pcm_config_out" using run by (simp add: out_cfg_def)
  have "0 \<le> cur_write_threshold (outs s2 a)"
    using wait(1) by (auto simp: s2_def out_adapt_buffer_def Let_def pcm_config_out_def audio_consts)
  then have "\<not> far_behind E (o_pcm (outs s2 a)) (pcm_get_buffer_size E pcm_config_out) 44100
      (cur_write_threshold (outs s2 a))"
    using wait(2) by (intro not_far_behind)
  then obtain s3 where s3: "out_throttle E a pcm_config_out False s2 = Inr s3"
    using out_throttle_returns [of pcm_config_out E s2 a False] by (auto simp: pcm_config_out_def audio_consts)
  from out_throttle_result [OF s3] obtain new cur where t: "s3 =
      upd_out a (\<lambda>x. x\<lparr>cur_write_threshold := cur\<rparr>) (s2\<lparr>calls := new @ calls s2\<rparr>)"
    "\<forall>c \<in> set new. wait_call (o_pcm (outs s2 a)) c" "slept_us new \<le> MAX_WRITE_SLEEP_US"
    by auto
  have pcm: "o_pcm (outs s2 a) = o_pcm (outs s a)" by (simp add: s2_def)
  then have pcm3: "o_pcm (outs s3 a) = o_pcm (outs s a)" by (simp add: t(1))
  have n: "u32 (bytes div 4 * 4) = 4 * (bytes div 4)" using bytes by (simp add: u32_id mult.commute)
  have red: "out_reduce_channels E pcm_config_out (bytes div 4) buffer = Inr (buffer, 4)"
    using hdr by (simp add: out_reduce_channels_def out_get_channels_def pcm_config_out_def)
  have rate: "out_change_rate E a pcm_config_out (bytes div 4) buffer s2 = Inr (buffer, bytes div 4, s2)"
    by (simp add: out_change_rate_def out_get_sample_rate_def)
  define s4 where "s4 = emit (Unlock (MOut a)) (upd_out a (\<lambda>x. x\<lparr>o_written := u64 (o_written x + bytes div 4)\<rparr>)
        (emit (PcmWrite (o_pcm (outs s a)) buffer (4 * (bytes div 4))) s3))"
  have w: "out_write_pcm E a buffer (bytes div 4) 4 bytes s3 = (bytes, s4)"
    using ok n pcm3 by (simp add: out_write_pcm_def out_write_exit_def Let_def s4_def)
  have "out_write E a buffer bytes s = Inr (bytes, buffer, s4)"
    unfolding out_write_running [OF st] cfg hdr(1)
    using red rate s3 w unfolding s2_def by blast
  moreover have "calls s4 = Unlock (MOut a) # PcmWrite (o_pcm (outs s a)) buffer (4 * (bytes div 4)) # new @
      Unlock MDev # Lock (MOut a) # Lock MDev # calls s"
    "o_written (outs s4 a) = u64 (o_written (outs s a) + bytes div 4)"
    by (simp_all add: s4_def t(1)) (simp_all add: s2_def)
  ultimately show ?thesis using t(2,3) pcm by (intro exI [of _ s4] exI [of _ new]) simp
qed

text \<open>
  The Bluetooth SCO PCM is mono: the resampler is given the left channel of the caller's buffer,
  which the call overwrites, and its output goes to the driver.
\<close>

lemma out_write_sco_samples:
  assumes "2 * nat in_frames \<le> length buffer" "audio_stream_out_frame_size E = 4"
    and "audio_channel_count_from_out_mask E (AUDIO_CHANNEL_OUT_STEREO E) = 2"
  shows "out_reduce_channels E pcm_config_sco in_frames buffer =
    Inr (left_channel (nat in_frames) buffer @ drop (nat in_frames) buffer, 2)"
  using assms discard_right_left_channel [OF assms(1)]
  by (simp add: out_reduce_channels_def out_get_channels_def pcm_config_sco_def)

lemma out_write_sco_pcm:
  assumes run: "\<not> o_standby (outs s a)" "o_config (outs s a) = Some pcm_config_sco"
    and sco: "out_device (dev s) AND AUDIO_DEVICE_OUT_ALL_SCO E \<noteq> 0"
    and hdr: "audio_stream_out_frame_size E = 4"
      "audio_channel_count_from_out_mask E (AUDIO_CHANNEL_OUT_STEREO E) = 2"
    and res: "o_resampler (outs s a) = Some h" "o_buffer (outs s a) = Some b"
    and n: "0 \<le> n" "2 * nat n \<le> length buffer"
    and out: "resample_from_input E (Unlock MDev # Lock (MOut a) # Lock MDev # calls s) h
        (left_channel (nat n) buffer @ drop (nat n) buffer) n (o_buffer_frames (outs s a)) = (used, data, m)"
      "length data \<le> length b"
    and ok: "\<And>cs p d k. pcm_write E cs p d k = 0"
  shows "\<exists>s'. out_write E a buffer (4 * n) s =
      Inr (4 * n, left_channel (nat n) buffer @ drop (nat n) buffer, s') \<and>
    calls s' = [Unlock (MOut a), PcmWrite (o_pcm (outs s a)) (data @ drop (length data) b) (u32 (m * 2)),
      ResampleFromInput h (left_channel (nat n) buffer @ drop (nat n) buffer) n (o_buffer_frames (outs s a)),
      Unlock MDev, Lock (MOut a), Lock MDev] @ calls s \<and>
    o_written (outs s' a) = u64 (o_written (outs s a) + m)"
proof -
  define left where "left = left_channel (nat n) buffer @ drop (nat n) buffer"
  define bt where "bt = (if screen_off (dev s) \<and> active_in (dev s) = None then OUT_BUFFER_TYPE_LONG
    else OUT_BUFFER_TYPE_SHORT)"
  let ?s1 = "emit (Unlock MDev) (emit (Lock (MOut a)) (emit (Lock MDev) s))"
  have st: "out_write_start E a s = (0, bt, True, ?s1)"
    using run sco by (simp add: out_write_start_def Let_def bt_def)
  have cfg: "out_cfg ?s1 a = pcm_config_sco" using run by (simp add: out_cfg_def)
  have adapt: "upd_out a (out_adapt_buffer pcm_config_sco bt True) ?s1 = ?s1"
    by (simp add: out_adapt_buffer_def upd_out_def)
  have red: "out_reduce_channels E pcm_config_sco n buffer = Inr (left, 2)"
    using out_write_sco_samples [OF n(2) hdr] by (simp add: left_def)
  define s3 where "s3 = upd_out a (\<lambda>x. x\<lparr>o_buffer := Some (data @ drop (length data) b)\<rparr>)
      (emit (ResampleFromInput h left n (o_buffer_frames (outs s a))) ?s1)"
  have rate: "out_change_rate E a pcm_config_sco n left ?s1 = Inr (data @ drop (length data) b, m, s3)"
    using res out by (simp add: out_change_rate_def out_get_sample_rate_def s3_def left_def store_block_def
        pcm_config_defs audio_consts Let_def)
  define s4 where "s4 = emit (Unlock (MOut a)) (upd_out a (\<lambda>x. x\<lparr>o_written := u64 (o_written x + m)\<rparr>)
      (emit (PcmWrite (o_pcm (outs s a)) (data @ drop (length data) b) (u32 (m * 2))) s3))"
  have t: "out_throttle E a pcm_config_sco True s3 = Inr s3" by (simp add: out_throttle_def)
  have w: "out_write_pcm E a (data @ drop (length data) b) m 2 (4 * n) s3 = (4 * n, s4)"
    using ok by (simp add: out_write_pcm_def out_write_exit_def Let_def s4_def s3_def)
  have "out_write E a buffer (4 * n) s = Inr (4 * n, left, s4)"
    unfolding out_write_running [OF st] cfg hdr(1) adapt using red rate t w by simp
  then show ?thesis
    by (intro exI [of _ s4]) (simp add: s4_def s3_def left_def)
qed

text \<open>What a start that fails leaves behind, and how the position is asked for then.\<close>

lemma failed_start:
  assumes "start_output_stream E a s = (- ENOMEM, s')" "o_standby (outs s a)"
  shows "o_config (outs s' a) \<noteq> None \<and> o_standby (outs s' a) \<and>
    (\<exists>h. o_pcm (outs s' a) = Some h \<and> (\<exists>cs. calls s' = PcmClose (Some h) # cs))"
  using assms start_output_stream_frame [OF assms(1)]
  by (auto simp: start_output_stream_def out_choose_config_def Let_def split: prod.splits if_splits)

lemma position_of_closed:
  assumes "o_pcm (outs s a) = Some h" "o_config (outs s a) = Some cfg"
  shows "\<exists>r f t. out_get_presentation_position E a s = Inr (r, f, t) \<and>
    calls t = Unlock (MOut a) # PcmGetHtimestamp (Some h) # Lock (MOut a) # calls s"
  using assms by (auto simp: out_get_presentation_position_def Let_def split: ht_result.split)

text \<open>The position presented: frames written less what is still in the kernel buffer.\<close>

lemma out_get_presentation_position_value:
  assumes "pcm_get_htimestamp E (Lock (MOut a) # calls s) (o_pcm (outs s a)) = HtOk avail ts"
    and "o_config (outs s a) = Some cfg" "cfg \<in> {pcm_config_out, pcm_config_sco}"
    and "0 \<le> avail" "avail < 4294967296" "0 \<le> o_written (outs s a)" "o_written (outs s a) < 4611686018427387904"
  shows "\<exists>s'. out_get_presentation_position E a s =
    (let pos = o_written (outs s a) - (period_size cfg * period_count cfg - avail)
     in if pos \<ge> 0 then Inr (0, Some pos, s') else Inr (- 1, None, s'))"
proof -
  have "u32 (period_size cfg * period_count cfg) = period_size cfg * period_count cfg"
    using assms(3) by (auto simp: pcm_config_defs audio_consts)
  moreover have "0 \<le> period_size cfg * period_count cfg" "period_size cfg * period_count cfg \<le> 4096"
    using assms(3) by (auto simp: pcm_config_defs audio_consts)
  ultimately show ?thesis
    using assms by (auto simp: out_get_presentation_position_def Let_def algebra_simps)
qed

end
