(* ===== verification/Audio_In.thy ===== *)
theory Audio_In
  imports Audio_Start
begin

unbundle bit_operations_syntax

text \<open>
  The input stream of \<open>audio_hw.c\<close>: the buffer provider the resampler pulls from
  (\<open>get_next_buffer\<close>, \<open>release_buffer\<close>), the loop \<open>read_frames\<close> and
  every function of the \<open>audio_stream_in\<close> table. \<open>read_frames\<close> is a loop that
  only ends when frames arrive, so it is a \<open>partial_function\<close>: \<open>None\<close> means
  that it does not return.
\<close>

section \<open>The buffer provider\<close>

text \<open>
  The end of \<open>get_next_buffer\<close>: hand out at most \<open>frames_in\<close> frames from where the
  last ones ended. The result is the status, the frame count and the samples at the pointer.
\<close>

definition hand_out :: "addr \<Rightarrow> int \<Rightarrow> audio_state \<Rightarrow> (int \<times> int \<times> s16 list option \<times> audio_state) res" where
  "hand_out a fc s =
     (let inp = ins s a in
      case i_buffer inp of
        None \<Rightarrow> Inl NullDeref
      | Some b \<Rightarrow>
          Inr (read_status inp,
               (if fc > frames_in inp then frames_in inp else fc),
               Some (drop (nat (period_size (i_config inp) - frames_in inp)) b), s))"

text \<open>Refill the stream's buffer from the driver and keep the left channel of stereo input.\<close>

definition refill :: "audio_env \<Rightarrow> addr \<Rightarrow> audio_state \<Rightarrow> (int \<times> audio_state) res" where
  "refill E a s =
     (let inp = ins s a;
          (st, data) = pcm_read E (calls s) (i_pcm inp) (i_buffer_size inp);
          s = emit (PcmRead (i_pcm inp) (i_buffer_size inp)) s
      in case i_buffer inp of
           None \<Rightarrow> Inl NullDeref
         | Some b \<Rightarrow>
             bind_res (store_block b data) (\<lambda>b.
               if st \<noteq> 0 then
                 Inr (st, upd_in a (\<lambda>x. x\<lparr>read_status := st, i_buffer := Some b\<rparr>) s)
               else
                 let n = period_size (i_config inp) in
                 bind_res (if channels (i_config inp) = 2 then discard_right 1 (nat n) b else Inr b) (\<lambda>b.
                   Inr (st, upd_in a (\<lambda>x. x\<lparr>read_status := st, i_buffer := Some b, frames_in := n\<rparr>) s))))"

definition get_next_buffer_at ::
  "audio_env \<Rightarrow> addr \<Rightarrow> int \<Rightarrow> audio_state \<Rightarrow> (int \<times> int \<times> s16 list option \<times> audio_state) res" where
  "get_next_buffer_at E a fc s =
     (if i_pcm (ins s a) = None then
        Inr (- ENODEV, 0, None, upd_in a (\<lambda>x. x\<lparr>read_status := - ENODEV\<rparr>) s)
      else if frames_in (ins s a) = 0 then
        bind_res (refill E a s) (\<lambda>(st, s).
          if st \<noteq> 0 then Inr (st, 0, None, s) else hand_out a fc s)
      else hand_out a fc s)"

text \<open>The callback with its checks of the two pointers it is given.\<close>

definition get_next_buffer ::
  "audio_env \<Rightarrow> addr option \<Rightarrow> int option \<Rightarrow> audio_state
   \<Rightarrow> (int \<times> (int \<times> s16 list option) option \<times> audio_state) res" where
  "get_next_buffer E provider buffer s =
     (case (provider, buffer) of
        (Some a, Some fc) \<Rightarrow>
          bind_res (get_next_buffer_at E a fc s) (\<lambda>(st, fc, raw, s). Inr (st, Some (fc, raw), s))
      | _ \<Rightarrow> Inr (- EINVAL, None, s))"

definition release_buffer_at :: "addr \<Rightarrow> int \<Rightarrow> audio_state \<Rightarrow> audio_state" where
  "release_buffer_at a fc s = upd_in a (\<lambda>x. x\<lparr>frames_in := u32 (frames_in x - fc)\<rparr>) s"

definition release_buffer :: "addr option \<Rightarrow> int option \<Rightarrow> audio_state \<Rightarrow> audio_state" where
  "release_buffer provider buffer s =
     (case (provider, buffer) of (Some a, Some fc) \<Rightarrow> release_buffer_at a fc s | _ \<Rightarrow> s)"

section \<open>Reading frames\<close>

text \<open>One call of the resampler: its conversation with the provider of stream \<open>a\<close>.\<close>

primrec run_provider ::
  "audio_env \<Rightarrow> addr \<Rightarrow> provider_prog \<Rightarrow> audio_state \<Rightarrow> (s16 list \<times> int \<times> audio_state) res" where
  "run_provider E a (Produced d n) = (\<lambda>s. Inr (d, n, s))"
| "run_provider E a (NextBuffer n k) = (\<lambda>s.
     bind_res (get_next_buffer_at E a n (emit (ProviderGet n) s)) (\<lambda>(st, fc, raw, s).
       run_provider E a (k st fc raw) s))"
| "run_provider E a (ReleaseBuffer n p) = (\<lambda>s.
     run_provider E a p (release_buffer_at a n (emit (ProviderRelease n) s)))"

text \<open>Copy samples into the caller's buffer at an offset.\<close>

definition copy_at :: "int \<Rightarrow> s16 list \<Rightarrow> s16 list \<Rightarrow> s16 list res" where
  "copy_at off data buf =
     (if 0 \<le> off \<and> nat off + length data \<le> length buf
      then Inr (take (nat off) buf @ data @ drop (nat off + length data) buf) else Inl OutOfBounds)"

text \<open>
  The body of the loop of \<open>read_frames\<close>: the frames obtained, the caller's buffer and the
  state. Offsets are in samples of two bytes.
\<close>

definition read_step ::
  "audio_env \<Rightarrow> addr \<Rightarrow> int \<Rightarrow> int \<Rightarrow> s16 list \<Rightarrow> audio_state \<Rightarrow> (int \<times> s16 list \<times> audio_state) res" where
  "read_step E a frames_rd frames_wr buf s =
     (let off = frames_wr * audio_stream_in_frame_size E div 2 in
      case i_resampler (ins s a) of
        Some h \<Rightarrow>
          let prog = resample_from_provider E (calls s) h frames_rd;
              s = emit (ResampleFromProvider h frames_rd) s
          in bind_res (run_provider E a prog s) (\<lambda>(data, n, s).
             bind_res (copy_at off data buf) (\<lambda>buf. Inr (n, buf, s)))
      | None \<Rightarrow>
          bind_res (get_next_buffer_at E a frames_rd s) (\<lambda>(st, fc, raw, s).
            case raw of
              None \<Rightarrow> Inr (frames_rd, buf, release_buffer_at a fc s)
            | Some src \<Rightarrow>
                let n = nat (fc * audio_stream_in_frame_size E div 2) in
                if length src < n then Inl OutOfBounds
                else bind_res (copy_at off (take n src) buf) (\<lambda>buf.
                       Inr (fc, buf, release_buffer_at a fc s))))"

partial_function (option) read_frames_from ::
  "audio_env \<Rightarrow> addr \<Rightarrow> int \<Rightarrow> int \<Rightarrow> s16 list \<Rightarrow> audio_state
   \<Rightarrow> (int \<times> s16 list \<times> audio_state) res option" where
  "read_frames_from E a frames frames_wr buf s =
     (if frames_wr < frames then
        case read_step E a (frames - frames_wr) frames_wr buf s of
          Inl e \<Rightarrow> Some (Inl e)
        | Inr r \<Rightarrow>
            if read_status (ins (snd (snd r)) a) \<noteq> 0
            then Some (Inr (read_status (ins (snd (snd r)) a), fst (snd r), snd (snd r)))
            else read_frames_from E a frames (frames_wr + fst r) (fst (snd r)) (snd (snd r))
      else Some (Inr (frames_wr, buf, s)))"

declare read_frames_from.simps [code]

definition read_frames ::
  "audio_env \<Rightarrow> addr \<Rightarrow> int \<Rightarrow> s16 list \<Rightarrow> audio_state \<Rightarrow> (int \<times> s16 list \<times> audio_state) res option" where
  "read_frames E a frames buf s = read_frames_from E a frames 0 buf s"

section \<open>The functions of the stream\<close>

definition in_get_sample_rate :: "addr \<Rightarrow> audio_state \<Rightarrow> int" where
  "in_get_sample_rate a s = requested_rate (ins s a)"
definition in_set_sample_rate :: "int \<Rightarrow> int" where "in_set_sample_rate r = 0"
definition in_get_channels :: "audio_env \<Rightarrow> mask" where "in_get_channels E = AUDIO_CHANNEL_IN_MONO E"
definition in_get_format :: "audio_env \<Rightarrow> mask" where "in_get_format E = AUDIO_FORMAT_PCM_16_BIT E"
definition in_set_format :: "mask \<Rightarrow> int" where "in_set_format f = - ENOSYS"
definition in_dump :: "int \<Rightarrow> int" where "in_dump fd = 0"
definition in_get_parameters :: "string \<Rightarrow> string" where "in_get_parameters keys = ''''"
definition in_set_gain :: int where "in_set_gain = 0"
definition in_get_input_frames_lost :: int where "in_get_input_frames_lost = 0"
definition in_add_audio_effect :: int where "in_add_audio_effect = 0"
definition in_remove_audio_effect :: int where "in_remove_audio_effect = 0"

text \<open>The next multiple of 16, on \<open>size_t\<close>.\<close>

definition round_up_16 :: "int \<Rightarrow> int" where
  "round_up_16 n = u32 (u32 (n + 15) div 16 * 16)"

definition in_get_buffer_size :: "audio_env \<Rightarrow> addr \<Rightarrow> audio_state \<Rightarrow> int" where
  "in_get_buffer_size E a s =
     (let cfg = i_config (ins s a);
          n = u32 (period_size cfg * in_get_sample_rate a s) div rate cfg
      in u32 (round_up_16 n * audio_stream_in_frame_size E))"

definition in_standby :: "addr \<Rightarrow> audio_state \<Rightarrow> int \<times> audio_state" where
  "in_standby a s =
     (let s = emit (Lock (MIn a)) (emit (Lock MDev) s);
          s = do_in_standby a s
      in (0, emit (Unlock MDev) (emit (Unlock (MIn a)) s)))"

definition in_set_parameters :: "audio_env \<Rightarrow> addr \<Rightarrow> string \<Rightarrow> audio_state \<Rightarrow> int \<times> audio_state" where
  "in_set_parameters E a kvpairs s =
     (let (ret, value) = str_parms_get_str E kvpairs (AUDIO_PARAMETER_STREAM_ROUTING E);
          s = emit (Lock MDev) s;
          s = (if ret \<ge> 0 then
                 let val = word_of_int (atoi value) AND NOT (AUDIO_DEVICE_BIT_IN E) in
                 if in_device (dev s) \<noteq> val \<and> val \<noteq> 0 then
                   let s = (if (val AND AUDIO_DEVICE_IN_ALL_SCO E) XOR
                               (in_device (dev s) AND AUDIO_DEVICE_IN_ALL_SCO E) \<noteq> 0
                            then emit (Unlock (MIn a)) (do_in_standby a (emit (Lock (MIn a)) s))
                            else s);
                       s = upd_dev (\<lambda>d. d\<lparr>in_device := val\<rparr>) s
                   in select_devices E s
                 else s
               else s)
      in (ret, emit (Unlock MDev) s))"

section \<open>\<open>in_read\<close>\<close>

definition in_read_start :: "audio_env \<Rightarrow> addr \<Rightarrow> audio_state \<Rightarrow> int \<times> audio_state" where
  "in_read_start E a s =
     (let s = emit (Lock (MIn a)) (emit (Lock MDev) s);
          (ret, s) = (if i_standby (ins s a) then
                        let (ret, s) = start_input_stream E a s
                        in (ret, if ret = 0 then upd_in a (\<lambda>x. x\<lparr>i_standby := False\<rparr>) s else s)
                      else (0, s))
      in (ret, emit (Unlock MDev) s))"

text \<open>Copy every second sample of the stream's buffer: \<^verbatim>\<open>in_buffer[i] = in->buffer[i * 2]\<close>.\<close>

definition copy_left :: "nat \<Rightarrow> s16 list \<Rightarrow> s16 list \<Rightarrow> s16 list res" where
  "copy_left n src buf =
     (if n = 0 \<or> 2 * (n - 1) < length src \<and> n \<le> length buf
      then Inr (left_channel n src @ drop n buf) else Inl OutOfBounds)"

definition in_read_stereo ::
  "audio_env \<Rightarrow> addr \<Rightarrow> int \<Rightarrow> int \<Rightarrow> s16 list \<Rightarrow> audio_state \<Rightarrow> (int \<times> s16 list \<times> audio_state) res" where
  "in_read_stereo E a frames_rq bytes buf s =
     (let inp = ins s a;
          (ret, data) = pcm_read E (calls s) (i_pcm inp) (u32 (bytes * 2));
          s = emit (PcmRead (i_pcm inp) (u32 (bytes * 2))) s
      in case i_buffer inp of
           None \<Rightarrow> Inl NullDeref
         | Some b \<Rightarrow>
             bind_res (store_block b data) (\<lambda>b.
             bind_res (copy_left (nat frames_rq) b buf) (\<lambda>buf.
               Inr (ret, buf, upd_in a (\<lambda>x. x\<lparr>i_buffer := Some b\<rparr>) s))))"

definition in_read_mono ::
  "audio_env \<Rightarrow> addr \<Rightarrow> int \<Rightarrow> s16 list \<Rightarrow> audio_state \<Rightarrow> (int \<times> s16 list \<times> audio_state) res" where
  "in_read_mono E a bytes buf s =
     (let (ret, data) = pcm_read E (calls s) (i_pcm (ins s a)) bytes;
          s = emit (PcmRead (i_pcm (ins s a)) bytes) s
      in bind_res (store_block buf data) (\<lambda>buf. Inr (ret, buf, s)))"

text \<open>After the read: silence when the microphone is muted, then the failure sleep and the unlock.\<close>

definition in_read_finish ::
  "audio_env \<Rightarrow> addr \<Rightarrow> int \<Rightarrow> int \<Rightarrow> s16 list \<Rightarrow> audio_state \<Rightarrow> (int \<times> s16 list \<times> audio_state) res" where
  "in_read_finish E a ret bytes buf s =
     bind_res (if ret = 0 \<and> mic_mute (dev s)
               then copy_at 0 (replicate (nat (bytes div 2)) 0) buf else Inr buf) (\<lambda>buf.
     bind_res (if ret < 0 then
                 if audio_stream_in_frame_size E = 0 \<or> in_get_sample_rate a s = 0 then Inl DivByZero
                 else Inr (emit (Usleep (u32 (bytes * 1000000) div audio_stream_in_frame_size E
                                          div in_get_sample_rate a s)) s)
               else Inr s) (\<lambda>s.
       Inr (bytes, buf, emit (Unlock (MIn a)) s)))"

text \<open>The three ways of reading: through the resampler, from a stereo PCM, straight from a mono PCM.\<close>

definition in_read_body ::
  "audio_env \<Rightarrow> addr \<Rightarrow> s16 list \<Rightarrow> int \<Rightarrow> audio_state \<Rightarrow> (int \<times> s16 list \<times> audio_state) res option" where
  "in_read_body E a buf bytes s =
     (let frames_rq = bytes div audio_stream_in_frame_size E in
      if i_resampler (ins s a) \<noteq> None then read_frames E a frames_rq buf s
      else if channels (i_config (ins s a)) = 2 then Some (in_read_stereo E a frames_rq bytes buf s)
      else Some (in_read_mono E a bytes buf s))"

definition in_read ::
  "audio_env \<Rightarrow> addr \<Rightarrow> s16 list \<Rightarrow> int \<Rightarrow> audio_state \<Rightarrow> (int \<times> s16 list \<times> audio_state) res option" where
  "in_read E a buf bytes s =
     (let (ret, s) = in_read_start E a s
      in if ret < 0 then Some (in_read_finish E a ret bytes buf s)
         else map_option (\<lambda>r. bind_res r (\<lambda>(ret, buf, s).
                in_read_finish E a (if ret > 0 then 0 else ret) bytes buf s)) (in_read_body E a buf bytes s))"

end
