(* ===== verification/Audio_In_Thms.thy ===== *)
theory Audio_In_Thms
  imports Audio_In
begin

unbundle bit_operations_syntax

text \<open>
  Facts about the input stream: the provider hands out the left channel of what the driver read,
  \<open>read_frames\<close> returns whenever its source makes progress, a read of at most
  \<open>in_get_buffer_size\<close> bytes stays inside the stream's buffer and a larger one does not,
  a muted microphone reads as silence, and each operation keeps \<open>audio_inv\<close> and takes its
  locks in order.
\<close>

section \<open>Operations that only touch the data of one input stream\<close>

definition in_frame :: "addr \<Rightarrow> audio_state \<Rightarrow> audio_state \<Rightarrow> bool" where
  "in_frame a s s' \<longleftrightarrow>
     dev s' = dev s \<and> outs s' = outs s \<and> out_live s' = out_live s \<and> in_live s' = in_live s \<and>
     (\<forall>b. b \<noteq> a \<longrightarrow> ins s' b = ins s b) \<and>
     i_pcm (ins s' a) = i_pcm (ins s a) \<and> i_config (ins s' a) = i_config (ins s a) \<and>
     i_config_non_sco (ins s' a) = i_config_non_sco (ins s a) \<and>
     i_standby (ins s' a) = i_standby (ins s a) \<and>
     requested_rate (ins s' a) = requested_rate (ins s a) \<and>
     i_resampler (ins s' a) = i_resampler (ins s a) \<and>
     i_buffer_size (ins s' a) = i_buffer_size (ins s a) \<and>
     (\<exists>new. calls s' = new @ calls s \<and>
        (\<forall>c \<in> set new. neutral_call c \<and> (\<forall>m. c \<noteq> Lock m \<and> c \<noteq> Unlock m)))"

lemma in_frame_refl [simp]: "in_frame a s s"
  by (simp add: in_frame_def)

lemma in_frame_trans:
  assumes "in_frame a s t" "in_frame a t u"
  shows "in_frame a s u"
proof -
  obtain m n where "calls t = m @ calls s" "\<forall>c \<in> set m. neutral_call c \<and> (\<forall>x. c \<noteq> Lock x \<and> c \<noteq> Unlock x)"
    "calls u = n @ calls t" "\<forall>c \<in> set n. neutral_call c \<and> (\<forall>x. c \<noteq> Lock x \<and> c \<noteq> Unlock x)"
    using assms by (auto simp: in_frame_def)
  then have "\<exists>new. calls u = new @ calls s \<and>
      (\<forall>c \<in> set new. neutral_call c \<and> (\<forall>x. c \<noteq> Lock x \<and> c \<noteq> Unlock x))"
    by (intro exI [of _ "n @ m"]) auto
  with assms show ?thesis by (simp add: in_frame_def)
qed

lemma in_frame_emit:
  "neutral_call c \<Longrightarrow> (\<And>m. c \<noteq> Lock m \<and> c \<noteq> Unlock m) \<Longrightarrow> in_frame a s (emit c s)"
  by (auto simp: in_frame_def intro!: exI [of _ "[c]"])

lemma in_frame_upd_in:
  assumes "\<And>x. i_pcm (f x) = i_pcm x" "\<And>x. i_config (f x) = i_config x"
    "\<And>x. i_config_non_sco (f x) = i_config_non_sco x" "\<And>x. i_standby (f x) = i_standby x"
    "\<And>x. requested_rate (f x) = requested_rate x" "\<And>x. i_resampler (f x) = i_resampler x"
    "\<And>x. i_buffer_size (f x) = i_buffer_size x"
  shows "in_frame a s (upd_in a f s)"
  using assms by (simp add: in_frame_def)

lemma in_frame_inv:
  assumes "in_frame a s s'" "audio_inv s" "\<not> i_standby (ins s a)"
  shows "audio_inv s'"
proof -
  obtain new where new: "calls s' = new @ calls s" "\<forall>c \<in> set new. neutral_call c"
    using assms(1) by (auto simp: in_frame_def)
  have "s' = upd_in a (\<lambda>_. ins s' a) (s\<lparr>calls := new @ calls s\<rparr>)"
  proof -
    have "ins s' = (ins s)(a := ins s' a)" using assms(1) by (auto simp: in_frame_def)
    then show ?thesis using assms(1) new by (intro audio_state.equality) (simp_all add: in_frame_def)
  qed
  moreover have "audio_inv (upd_in a (\<lambda>_. ins s' a) (s\<lparr>calls := new @ calls s\<rparr>))"
    using inv_neutral_calls [OF assms(2) new(2)] assms(1,3)
    by (intro inv_upd_in_data) (auto simp: in_frame_def)
  ultimately show ?thesis by simp
qed

lemma in_frame_locks:
  assumes "in_frame a s s'"
  shows "lock_events (calls s') = lock_events (calls s)"
proof -
  obtain new where new: "calls s' = new @ calls s" "\<forall>c \<in> set new. \<forall>m. c \<noteq> Lock m \<and> c \<noteq> Unlock m"
    using assms by (auto simp: in_frame_def)
  show ?thesis unfolding new(1) using new(2) by (intro lock_events_neutral) blast
qed

lemma in_frame_standby: "in_frame a s s' \<Longrightarrow> i_standby (ins s' a) = i_standby (ins s a)"
  by (simp add: in_frame_def)

lemma neutral_io [simp]:
  "neutral_call (PcmRead p n)" "neutral_call (ProviderGet n)" "neutral_call (ProviderRelease n)"
  "neutral_call (ResampleFromProvider h n)" "neutral_call (Usleep n)"
  by (simp_all add: neutral_call_def)

lemma refill_frame: "refill E a s = Inr (st, s') \<Longrightarrow> in_frame a s s'"
  by (auto simp: refill_def Let_def bind_res_Inr split: prod.splits option.splits if_splits
      intro!: in_frame_trans [OF in_frame_emit in_frame_upd_in])

lemma get_next_buffer_at_frame:
  "get_next_buffer_at E a fc s = Inr (st, n, raw, s') \<Longrightarrow> in_frame a s s'"
  by (auto simp: get_next_buffer_at_def hand_out_def bind_res_Inr Let_def
      split: if_splits option.splits intro!: in_frame_upd_in dest: refill_frame)

lemma release_buffer_at_frame [simp]: "in_frame a s (release_buffer_at a n s)"
  unfolding release_buffer_at_def by (rule in_frame_upd_in) simp_all

lemma run_provider_frame:
  "run_provider E a p s = Inr (d, n, s') \<Longrightarrow> in_frame a s s'"
proof (induction p arbitrary: s)
  case (Produced x1 x2)
  then show ?case by simp
next
  case (NextBuffer m k)
  then obtain st fc raw t where
    t: "get_next_buffer_at E a m (emit (ProviderGet m) s) = Inr (st, fc, raw, t)"
      "run_provider E a (k st fc raw) t = Inr (d, n, s')"
    by (auto simp: bind_res_Inr)
  have "in_frame a s (emit (ProviderGet m) s)" by (rule in_frame_emit) simp_all
  moreover have "in_frame a (emit (ProviderGet m) s) t" using t(1) by (rule get_next_buffer_at_frame)
  moreover have "in_frame a t s'" using NextBuffer.IH t(2) by blast
  ultimately show ?case by (meson in_frame_trans)
next
  case (ReleaseBuffer m p)
  have "in_frame a s (emit (ProviderRelease m) s)" by (rule in_frame_emit) simp_all
  moreover have "in_frame a (release_buffer_at a m (emit (ProviderRelease m) s)) s'"
    using ReleaseBuffer by simp
  ultimately show ?case by (meson in_frame_trans release_buffer_at_frame)
qed

lemma read_step_frame:
  assumes "read_step E a rd wr buf s = Inr (n, buf', s')"
  shows "in_frame a s s'"
proof (cases "i_resampler (ins s a)")
  case None
  with assms show ?thesis
    by (auto simp: read_step_def Let_def bind_res_Inr split: option.splits if_splits
        intro: in_frame_trans [OF get_next_buffer_at_frame release_buffer_at_frame])
next
  case (Some h)
  let ?s = "emit (ResampleFromProvider h rd) s"
  from assms Some obtain d where
    "run_provider E a (resample_from_provider E (calls s) h rd) ?s = Inr (d, n, s')"
    by (auto simp: read_step_def Let_def bind_res_Inr)
  then have "in_frame a ?s s'" by (rule run_provider_frame)
  moreover have "in_frame a s ?s" by (rule in_frame_emit) simp_all
  ultimately show ?thesis by (meson in_frame_trans)
qed

lemma read_frames_from_frame:
  assumes "read_frames_from E a frames wr buf s = Some (Inr (r, buf', s'))"
  shows "in_frame a s s'"
proof -
  have "\<forall>r buf' s'. y = Inr (r, buf', s') \<longrightarrow> in_frame a s s'"
    if "read_frames_from E a frames wr buf s = Some y" for y
  proof (rule read_frames_from.raw_induct
      [where P = "\<lambda>E a frames wr buf s y. \<forall>r buf' s'. y = Inr (r, buf', s') \<longrightarrow> in_frame a s s'", OF _ that])
    fix f E a frames wr buf s y
    assume IH: "\<And>E a frames wr buf s y. f E a frames wr buf s = Some y \<Longrightarrow>
        \<forall>r buf' s'. y = Inr (r, buf', s') \<longrightarrow> in_frame a s s'"
      and eq: "(if wr < frames then
          case read_step E a (frames - wr) wr buf s of Inl e \<Rightarrow> Some (Inl e)
          | Inr r \<Rightarrow> if read_status (ins (snd (snd r)) a) \<noteq> 0
              then Some (Inr (read_status (ins (snd (snd r)) a), fst (snd r), snd (snd r)))
              else f E a frames (wr + fst r) (fst (snd r)) (snd (snd r))
        else Some (Inr (wr, buf, s))) = Some y"
    show "\<forall>r buf' s'. y = Inr (r, buf', s') \<longrightarrow> in_frame a s s'"
    proof (intro allI impI)
      fix r buf' s' assume y: "y = Inr (r, buf', s')"
      show "in_frame a s s'"
      proof (cases "wr < frames")
        case False
        with eq y show ?thesis by simp
      next
        case True
        with eq y obtain n b t where st: "read_step E a (frames - wr) wr buf s = Inr (n, b, t)"
          by (auto split: sum.splits)
        have "in_frame a s t" using st by (rule read_step_frame)
        moreover have "in_frame a t s'"
          using True eq y st IH [of E a frames "wr + n" b t y] by (auto split: if_splits)
        ultimately show ?thesis by (rule in_frame_trans)
      qed
    qed
  qed
  with assms show ?thesis by blast
qed

lemma in_read_stereo_frame:
  "in_read_stereo E a n bytes buf s = Inr (r, buf', s') \<Longrightarrow> in_frame a s s'"
  by (auto simp: in_read_stereo_def Let_def bind_res_Inr split: prod.splits option.splits
      intro!: in_frame_trans [OF in_frame_emit in_frame_upd_in])

lemma in_read_mono_frame:
  "in_read_mono E a bytes buf s = Inr (r, buf', s') \<Longrightarrow> in_frame a s s'"
  by (auto simp: in_read_mono_def Let_def bind_res_Inr split: prod.splits intro!: in_frame_emit)


section \<open>The invariant\<close>

lemma inv_in_standby:
  "audio_inv s \<Longrightarrow> in_live s a \<Longrightarrow> audio_inv (snd (in_standby a s))"
  by (simp add: in_standby_def Let_def inv_do_in_standby)

lemma inv_in_set_parameters:
  assumes "audio_inv s" "in_live s a"
  shows "audio_inv (snd (in_set_parameters E a kv s))"
  using assms
  by (auto simp: in_set_parameters_def Let_def split: prod.splits
      intro!: inv_unlock inv_lock inv_select_devices inv_upd_dev_data inv_do_in_standby)

lemma in_read_start_inv:
  assumes "audio_inv s" "in_live s a" "fresh_handles E" "in_read_start E a s = (ret, s')"
  shows "audio_inv s'" "ret = 0 \<longleftrightarrow> \<not> i_standby (ins s' a)" "in_live s' = in_live s" "out_live s' = out_live s"
    "ret = 0 \<or> ret = - ENOMEM"
proof -
  let ?s = "emit (Lock (MIn a)) (emit (Lock MDev) s)"
  obtain r t where st: "start_input_stream E a ?s = (r, t)" by fastforce
  have i: "audio_inv ?s" "in_live ?s a" using assms(1,2) by simp_all
  show "audio_inv s'"  "ret = 0 \<longleftrightarrow> \<not> i_standby (ins s' a)" "in_live s' = in_live s" "out_live s' = out_live s"
    "ret = 0 \<or> ret = - ENOMEM"
    using assms(4) st i(1) start_input_stream_inv [OF i _ assms(3) st] start_input_stream_frame [OF st]
    by (auto simp: in_read_start_def Let_def split: if_splits)
qed

lemma in_read_finish_inv:
  "audio_inv s \<Longrightarrow> in_read_finish E a ret bytes buf s = Inr (r, buf', s') \<Longrightarrow> audio_inv s'"
  by (auto simp: in_read_finish_def bind_res_Inr split: if_splits intro!: inv_emit)

text \<open>The three ways of reading, as one step between the start and the end of \<open>in_read\<close>.\<close>

lemma in_read_body_frame:
  "in_read_body E a buf bytes s = Some (Inr (v, b, t)) \<Longrightarrow> in_frame a s t"
  using read_frames_from_frame in_read_stereo_frame in_read_mono_frame
  unfolding in_read_body_def read_frames_def Let_def by (metis option.inject)

lemma in_read_cases:
  assumes "in_read E a buf bytes s = Some (Inr (r, buf', s'))" "in_read_start E a s = (ret, s1)"
  obtains "ret < 0" "in_read_finish E a ret bytes buf s1 = Inr (r, buf', s')"
  | v b t where "ret \<ge> 0" "in_read_body E a buf bytes s1 = Some (Inr (v, b, t))" "in_frame a s1 t"
      "in_read_finish E a (if v > 0 then 0 else v) bytes b t = Inr (r, buf', s')"
proof (cases "ret < 0")
  case True
  with assms that(1) show ?thesis by (simp add: in_read_def)
next
  case False
  with assms obtain v b t where "in_read_body E a buf bytes s1 = Some (Inr (v, b, t))"
    "in_read_finish E a (if v > 0 then 0 else v) bytes b t = Inr (r, buf', s')"
    by (simp add: in_read_def bind_res_Inr3) blast
  with False that(2) in_read_body_frame show ?thesis by (metis not_less)
qed

lemma inv_in_read:
  assumes "audio_inv s" "in_live s a" "fresh_handles E" "in_read E a buf bytes s = Some (Inr (r, buf', s'))"
  shows "audio_inv s'"
proof -
  obtain ret s1 where st: "in_read_start E a s = (ret, s1)" by fastforce
  note i = in_read_start_inv [OF assms(1-3) st]
  from assms(4) st show ?thesis
  proof (cases rule: in_read_cases)
    case 1
    with i in_read_finish_inv show ?thesis by blast
  next
    case (2 v b t)
    with i have "audio_inv t" using in_frame_inv by fastforce
    with 2 in_read_finish_inv show ?thesis by blast
  qed
qed

section \<open>Locks\<close>

lemma in_standby_locks:
  "lock_events (calls (snd (in_standby a s))) = lock_events (calls s) @
     [Acquire MDev, Acquire (MIn a), Release (MIn a), Release MDev]"
  by (simp add: in_standby_def Let_def)

lemma in_set_parameters_locks:
  "\<exists>inner \<in> {[], [Acquire (MIn a), Release (MIn a)]}.
     lock_events (calls (snd (in_set_parameters E a kv s))) =
       lock_events (calls s) @ [Acquire MDev] @ inner @ [Release MDev]"
  by (auto simp: in_set_parameters_def Let_def split: prod.splits)

lemma in_read_start_locks:
  assumes "in_read_start E a s = (ret, s')"
  shows "lock_events (calls s') = lock_events (calls s) @ [Acquire MDev, Acquire (MIn a)] @
    (if i_standby (ins s a)
     then (case active_out (dev s) of None \<Rightarrow> [] | Some b \<Rightarrow> [Acquire (MOut b), Release (MOut b)]) else []) @
    [Release MDev]"
proof -
  obtain r t where st: "start_input_stream E a (emit (Lock (MIn a)) (emit (Lock MDev) s)) = (r, t)"
    by fastforce
  with assms start_input_stream_frame(3) [OF st] show ?thesis
    by (auto simp: in_read_start_def Let_def split: if_splits)
qed

lemma in_read_finish_locks:
  "in_read_finish E a ret bytes buf s = Inr (r, buf', s') \<Longrightarrow>
   lock_events (calls s') = lock_events (calls s) @ [Release (MIn a)]"
  by (auto simp: in_read_finish_def bind_res_Inr split: if_splits)

lemma in_read_locks:
  assumes "in_read E a buf bytes s = Some (Inr (r, buf', s'))"
  shows "lock_events (calls s') = lock_events (calls s) @ [Acquire MDev, Acquire (MIn a)] @
    (if i_standby (ins s a)
     then (case active_out (dev s) of None \<Rightarrow> [] | Some b \<Rightarrow> [Acquire (MOut b), Release (MOut b)]) else []) @
    [Release MDev, Release (MIn a)]"
proof -
  obtain ret s1 where st: "in_read_start E a s = (ret, s1)" by fastforce
  note l = in_read_start_locks [OF st]
  from assms st show ?thesis
  proof (cases rule: in_read_cases)
    case 1
    with l in_read_finish_locks [OF 1(2)] show ?thesis by simp
  next
    case (2 v b t)
    with l in_read_finish_locks [OF 2(4)] in_frame_locks [OF 2(3)] show ?thesis by simp
  qed
qed


section \<open>What the provider hands out\<close>

lemma left_channel_take:
  "n \<le> m \<Longrightarrow> take n (left_channel m xs @ ys) = left_channel n xs"
  by (rule nth_equalityI) (auto simp: nth_append)

lemma left_channel_block:
  "2 * n \<le> length data \<Longrightarrow> left_channel n (data @ rest) = left_channel n data"
  by (rule nth_equalityI) (auto simp: nth_append)

text \<open>
  A provider whose buffer is used up reads one period from the stereo PCM and hands out its left
  channel, at most a period of it.
\<close>

lemma get_next_buffer_refills:
  assumes "i_pcm (ins s a) = Some p" "frames_in (ins s a) = 0" "i_buffer (ins s a) = Some b"
    and cfg: "i_config (ins s a) \<in> {pcm_config_in, pcm_config_in_low_latency}"
    and rd: "pcm_read E (calls s) (Some p) (i_buffer_size (ins s a)) = (0, data)"
    and len: "length data = 2 * nat (period_size (i_config (ins s a)))" "length data \<le> length b"
    and fc: "0 < fc"
  shows "\<exists>raw s'. get_next_buffer_at E a fc s =
      Inr (0, min fc (period_size (i_config (ins s a))), Some raw, s') \<and>
    take (nat (period_size (i_config (ins s a)))) raw =
      left_channel (nat (period_size (i_config (ins s a)))) data \<and>
    frames_in (ins s' a) = period_size (i_config (ins s a)) \<and> i_buffer (ins s' a) = Some raw"
proof -
  let ?n = "period_size (i_config (ins s a))"
  let ?b = "data @ drop (length data) b"
  have n: "?n > 0" "channels (i_config (ins s a)) = 2" using cfg by (auto simp: pcm_config_defs audio_consts)
  have d: "discard_right 1 (nat ?n) ?b = Inr (left_channel (nat ?n) ?b @ drop (nat ?n) ?b)"
    by (rule discard_right_left_channel) (use len in simp)
  let ?raw = "left_channel (nat ?n) ?b @ drop (nat ?n) ?b"
  let ?s' = "upd_in a (\<lambda>x. x\<lparr>read_status := 0, i_buffer := Some ?raw, frames_in := ?n\<rparr>)
      (emit (PcmRead (Some p) (i_buffer_size (ins s a))) s)"
  have r: "refill E a s = Inr (0, ?s')"
    using assms(1,3) rd len(2) n(2) d by (simp add: refill_def store_block_def Let_def)
  have "get_next_buffer_at E a fc s = Inr (0, min fc ?n, Some ?raw, ?s')"
    using assms(1,2) r n(1) by (simp add: get_next_buffer_at_def hand_out_def min_def)
  moreover have "take (nat ?n) ?raw = left_channel (nat ?n) data"
    using left_channel_take [of "nat ?n" "nat ?n" ?b "drop (nat ?n) ?b"] len(1)
    by (simp add: left_channel_block)
  ultimately show ?thesis by (intro exI [of _ ?raw] exI [of _ ?s']) simp
qed

text \<open>
  Between two refills the pieces are consecutive: after \<open>k\<close> frames were given back the next
  piece starts \<open>k\<close> samples further on.
\<close>

lemma get_next_buffer_continues:
  assumes "get_next_buffer_at E a fc s = Inr (0, n, Some raw, t)" "0 \<le> k" "k \<le> n" "k < frames_in (ins t a)"
    and "i_pcm (ins t a) \<noteq> None" "frames_in (ins t a) \<le> period_size (i_config (ins t a))"
    and "frames_in (ins t a) < 4294967296" "read_status (ins t a) = 0"
  shows "get_next_buffer_at E a m (release_buffer_at a k t) =
    Inr (0, min m (frames_in (ins t a) - k), Some (drop (nat k) raw), release_buffer_at a k t)"
proof -
  from assms(1) have h: "\<exists>u. hand_out a fc u = Inr (0, n, Some raw, t)"
    by (auto simp: get_next_buffer_at_def bind_res_Inr split: if_splits)
  then obtain b where b: "i_buffer (ins t a) = Some b"
      "raw = drop (nat (period_size (i_config (ins t a)) - frames_in (ins t a))) b"
    by (auto simp: hand_out_def Let_def split: option.splits)
  have f: "u32 (frames_in (ins t a) - k) = frames_in (ins t a) - k" using assms by simp
  have "nat (period_size (i_config (ins t a)) - (frames_in (ins t a) - k)) =
      nat k + nat (period_size (i_config (ins t a)) - frames_in (ins t a))"
    using assms by simp
  then show ?thesis using assms(4,5,8) b f
    by (auto simp: get_next_buffer_at_def hand_out_def release_buffer_at_def Let_def min_def)
qed

section \<open>\<open>read_frames\<close> returns\<close>

definition prov_ok :: "addr \<Rightarrow> audio_state \<Rightarrow> bool" where
  "prov_ok a s \<longleftrightarrow> 0 \<le> frames_in (ins s a) \<and> 0 < period_size (i_config (ins s a))"

text \<open>
  What \<open>read_frames\<close> relies on: a call of the resampler writes no more than the frames
  it was asked for, and one that meets no read error produces at least one of them.
\<close>

definition resampler_progress :: "audio_env \<Rightarrow> addr \<Rightarrow> bool" where
  "resampler_progress E a \<longleftrightarrow>
     (\<forall>cs h n s d k s'. 0 < n \<longrightarrow> prov_ok a s \<longrightarrow>
        run_provider E a (resample_from_provider E cs h n) s = Inr (d, k, s') \<longrightarrow>
        2 * int (length d) \<le> n * audio_stream_in_frame_size E \<and>
        (read_status (ins s' a) = 0 \<longrightarrow> 1 \<le> k \<and> k \<le> n))"

lemma get_next_buffer_at_ok:
  "get_next_buffer_at E a fc s = Inr (st, n, raw, s') \<Longrightarrow> prov_ok a s \<Longrightarrow> prov_ok a s'"
  by (auto simp: get_next_buffer_at_def hand_out_def refill_def prov_ok_def bind_res_Inr Let_def
      split: if_splits option.splits prod.splits)

lemma release_buffer_at_ok: "prov_ok a s \<Longrightarrow> prov_ok a (release_buffer_at a n s)"
  by (simp add: prov_ok_def release_buffer_at_def)

lemma prov_ok_emit [simp]: "prov_ok a (emit c s) = prov_ok a s"
  by (simp add: prov_ok_def)

lemma run_provider_ok:
  "run_provider E a p s = Inr (d, n, s') \<Longrightarrow> prov_ok a s \<Longrightarrow> prov_ok a s'"
proof (induction p arbitrary: s)
  case (Produced x1 x2)
  then show ?case by simp
next
  case (NextBuffer m k)
  from NextBuffer.prems(1) obtain st fc raw t where
    t: "get_next_buffer_at E a m (emit (ProviderGet m) s) = Inr (st, fc, raw, t)"
      "run_provider E a (k st fc raw) t = Inr (d, n, s')"
    by (auto simp: bind_res_Inr)
  from get_next_buffer_at_ok [OF t(1)] NextBuffer.prems(2) have "prov_ok a t" by simp
  with NextBuffer.IH t(2) show ?case by blast
next
  case (ReleaseBuffer m p)
  then show ?case by (simp add: release_buffer_at_ok)
qed

lemma read_step_progress:
  assumes "read_step E a n wr buf s = Inr (k, buf', s')" "i_resampler (ins s a) \<noteq> None"
    and "resampler_progress E a" "prov_ok a s" "0 < n"
  shows "prov_ok a s'" "read_status (ins s' a) = 0 \<Longrightarrow> 1 \<le> k \<and> k \<le> n"
proof -
  from assms(2) obtain h where h: "i_resampler (ins s a) = Some h" by blast
  let ?s = "emit (ResampleFromProvider h n) s"
  from assms(1) h obtain d where
    r: "run_provider E a (resample_from_provider E (calls s) h n) ?s = Inr (d, k, s')"
    by (auto simp: read_step_def Let_def bind_res_Inr)
  have ok: "prov_ok a ?s" using assms(4) by simp
  show "prov_ok a s'" using run_provider_ok [OF r ok] .
  show "1 \<le> k \<and> k \<le> n" if "read_status (ins s' a) = 0"
    using assms(3,5) ok r that unfolding resampler_progress_def by blast
qed

text \<open>
  The loop ends, and either with a fault, with the status of a read that failed or with all the
  frames asked for.
\<close>

lemma read_frames_from_returns:
  assumes "resampler_progress E a" "prov_ok a s" "i_resampler (ins s a) \<noteq> None" "wr \<le> frames"
  shows "\<exists>y. read_frames_from E a frames wr buf s = Some y \<and>
    (\<forall>r buf' s'. y = Inr (r, buf', s') \<longrightarrow>
       r = frames \<or> r = read_status (ins s' a) \<and> r \<noteq> 0)"
  using assms(2-4)
proof (induction "nat (frames - wr)" arbitrary: wr buf s rule: less_induct)
  case less
  show ?case
  proof (cases "wr < frames")
    case False
    with less.prems show ?thesis by (simp add: read_frames_from.simps)
  next
    case wr: True
    show ?thesis
    proof (cases "read_step E a (frames - wr) wr buf s")
      case (Inl e)
      with wr show ?thesis by (simp add: read_frames_from.simps)
    next
      case (Inr q)
      obtain k b t where q: "q = (k, b, t)" by (cases q)
      show ?thesis
      proof (cases "read_status (ins t a) = 0")
        case False
        with wr Inr q show ?thesis by (simp add: read_frames_from.simps)
      next
        case True
        from read_step_progress [OF Inr [unfolded q] less.prems(2) assms(1) less.prems(1)] wr True
        have k: "prov_ok a t" "1 \<le> k" "k \<le> frames - wr" by auto
        have rs: "i_resampler (ins t a) \<noteq> None"
          using read_step_frame [OF Inr [unfolded q]] less.prems(2) by (simp add: in_frame_def)
        from k have "nat (frames - (wr + k)) < nat (frames - wr)" "wr + k \<le> frames" using wr by auto
        from less.hyps [OF this(1) k(1) rs this(2), of b]
        show ?thesis using wr Inr q True by (simp add: read_frames_from.simps [of E a frames wr])
      qed
    qed
  qed
qed

lemma in_read_returns:
  assumes "resampler_progress E a" "0 \<le> bytes" "0 < audio_stream_in_frame_size E"
    and "prov_ok a (snd (in_read_start E a s))"
  shows "in_read E a buf bytes s \<noteq> None"
proof -
  obtain ret t where t: "in_read_start E a s = (ret, t)" by fastforce
  have "0 \<le> bytes div audio_stream_in_frame_size E" using assms(2,3) by (simp add: pos_imp_zdiv_nonneg_iff)
  then have "in_read_body E a buf bytes t \<noteq> None"
    using read_frames_from_returns [OF assms(1), of t 0 "bytes div audio_stream_in_frame_size E" buf] assms(4) t
    by (auto simp: in_read_body_def read_frames_def Let_def)
  with t show ?thesis by (auto simp: in_read_def)
qed


text \<open>
  It ends without a fault when the stream is set up as \<open>start_input_stream\<close> does it: the
  buffer holds one period of the PCM, the driver delivers no more bytes than it is asked for, and
  the caller's buffer has room for the frames.
\<close>

definition read_ready :: "addr \<Rightarrow> audio_state \<Rightarrow> bool" where
  "read_ready a s \<longleftrightarrow> (let x = ins s a; cfg = i_config x in
     i_resampler x \<noteq> None \<and> prov_ok a s \<and> channels cfg \<in> {1, 2} \<and>
     i_buffer_size x = 2 * (channels cfg * period_size cfg) \<and>
     (\<exists>b. i_buffer x = Some b \<and> int (length b) = channels cfg * period_size cfg))"

definition reads_fit :: "audio_env \<Rightarrow> bool" where
  "reads_fit E \<longleftrightarrow> (\<forall>cs p n st data. 0 \<le> n \<longrightarrow> pcm_read E cs p n = (st, data) \<longrightarrow> 2 * int (length data) \<le> n)"

text \<open>Where a read status can come from: it was there before, or it is an answer of the driver.\<close>

definition statuses :: "audio_env \<Rightarrow> addr \<Rightarrow> audio_state \<Rightarrow> int set" where
  "statuses E a s = {r. r = read_status (ins s a) \<or>
     (\<exists>cs n data. pcm_read E cs (i_pcm (ins s a)) n = (r, data)) \<or>
     r = - ENODEV \<and> i_pcm (ins s a) = None}"

lemma in_alloc_buffer_ready:
  assumes "i_resampler (ins s a) \<noteq> None" "cfg = i_config (ins s a)"
    and "cfg \<in> {pcm_config_in, pcm_config_in_low_latency, pcm_config_sco}"
    and "pcm_frames_to_bytes E cfg (period_size cfg) = 2 * (channels cfg * period_size cfg)"
    and "malloc E (calls s) (2 * (channels cfg * period_size cfg)) = Some b"
      "int (length b) = channels cfg * period_size cfg"
  shows "read_ready a (in_alloc_buffer E a cfg s)"
  using assms by (auto simp: read_ready_def prov_ok_def in_alloc_buffer_def Let_def pcm_config_defs audio_consts)

lemma read_ready_emit [simp]: "read_ready a (emit c s) = read_ready a s"
  by (simp add: read_ready_def)

lemma statuses_emit [simp]: "statuses E a (emit c s) = statuses E a s"
  by (simp add: statuses_def)

lemma refill_ready:
  assumes "reads_fit E" "read_ready a s"
  shows "\<exists>st s'. refill E a s = Inr (st, s') \<and> read_ready a s' \<and> statuses E a s' \<subseteq> statuses E a s"
proof -
  let ?x = "ins s a"
  let ?n = "period_size (i_config ?x)" and ?c = "channels (i_config ?x)"
  obtain b where b: "i_buffer ?x = Some b" "int (length b) = ?c * ?n" and c: "?c \<in> {1, 2}" and n: "0 < ?n"
    and sz: "i_buffer_size ?x = 2 * (?c * ?n)"
    using assms(2) by (auto simp: read_ready_def prov_ok_def Let_def)
  obtain st data where rd: "pcm_read E (calls s) (i_pcm ?x) (i_buffer_size ?x) = (st, data)" by fastforce
  moreover have "0 \<le> i_buffer_size ?x" using sz c n by auto
  ultimately have "2 * int (length data) \<le> i_buffer_size ?x" using assms(1) unfolding reads_fit_def by blast
  with sz b(2) have fits: "length data \<le> length b" by simp
  have two: "2 * nat ?n \<le> length (data @ drop (length data) b)" if "?c = 2"
    using that b(2) fits n by simp
  show ?thesis
    using rd b fits assms(2) c two discard_right_left_channel [of "nat ?n" "data @ drop (length data) b"] n
    by (auto simp: refill_def store_block_def read_ready_def prov_ok_def statuses_def Let_def)
qed

lemma get_next_buffer_at_ready:
  assumes "reads_fit E" "read_ready a s"
  shows "\<exists>st n raw s'. get_next_buffer_at E a fc s = Inr (st, n, raw, s') \<and> read_ready a s' \<and>
    statuses E a s' \<subseteq> statuses E a s"
proof -
  have hand: "\<exists>st n raw. hand_out a fc t = Inr (st, n, raw, t)" if "read_ready a t" for t
    using that by (auto simp: hand_out_def read_ready_def Let_def)
  show ?thesis
  proof (cases "i_pcm (ins s a) = None")
    case True
    with assms(2) show ?thesis
      by (auto simp: get_next_buffer_at_def read_ready_def prov_ok_def statuses_def Let_def)
  next
    case False
    obtain st t where t: "refill E a s = Inr (st, t)" "read_ready a t" "statuses E a t \<subseteq> statuses E a s"
      using refill_ready [OF assms] by blast
    show ?thesis
      using False t hand [OF t(2)] hand [OF assms(2)] assms(2) by (auto simp: get_next_buffer_at_def)
  qed
qed

lemma run_provider_ready:
  assumes "reads_fit E"
  shows "read_ready a s \<Longrightarrow> \<exists>d n s'. run_provider E a p s = Inr (d, n, s') \<and> read_ready a s' \<and>
    statuses E a s' \<subseteq> statuses E a s"
proof (induction p arbitrary: s)
  case (Produced d n)
  then show ?case by simp
next
  case (NextBuffer m k)
  then have "read_ready a (emit (ProviderGet m) s)" by simp
  from get_next_buffer_at_ready [OF assms this, of m] obtain st fc raw t where
    t: "get_next_buffer_at E a m (emit (ProviderGet m) s) = Inr (st, fc, raw, t)" "read_ready a t"
      "statuses E a t \<subseteq> statuses E a s" by auto
  have "\<exists>d n s'. run_provider E a (k st fc raw) t = Inr (d, n, s') \<and> read_ready a s' \<and>
      statuses E a s' \<subseteq> statuses E a t"
    using t(2) by (intro NextBuffer.IH) auto
  with t(1,3) show ?case by auto
next
  case (ReleaseBuffer m p)
  let ?t = "release_buffer_at a m (emit (ProviderRelease m) s)"
  have "read_ready a ?t" "statuses E a ?t = statuses E a s"
    using ReleaseBuffer.prems by (simp_all add: read_ready_def prov_ok_def release_buffer_at_def statuses_def Let_def)
  with ReleaseBuffer.IH [of ?t] show ?case by simp
qed

lemma read_step_ready:
  assumes "resampler_progress E a" "reads_fit E" "read_ready a s" "0 < n" "0 \<le> wr"
    and room: "(wr + n) * audio_stream_in_frame_size E \<le> 2 * int (length buf)" "0 < audio_stream_in_frame_size E"
  shows "\<exists>k buf' s'. read_step E a n wr buf s = Inr (k, buf', s') \<and> length buf' = length buf \<and>
    read_ready a s' \<and> statuses E a s' \<subseteq> statuses E a s \<and> (read_status (ins s' a) = 0 \<longrightarrow> 1 \<le> k \<and> k \<le> n)"
proof -
  obtain h where h: "i_resampler (ins s a) = Some h" and ok: "prov_ok a s"
    using assms(3) by (auto simp: read_ready_def Let_def)
  let ?s = "emit (ResampleFromProvider h n) s" and ?fs = "audio_stream_in_frame_size E"
  let ?off = "wr * ?fs div 2"
  from run_provider_ready [OF assms(2), of a ?s "resample_from_provider E (calls s) h n"] assms(3) obtain d k s' where
    r: "run_provider E a (resample_from_provider E (calls s) h n) ?s = Inr (d, k, s')" "read_ready a s'"
      "statuses E a s' \<subseteq> statuses E a s" by auto
  have "prov_ok a ?s" using ok by simp
  with r(1) assms(1,4) have k: "2 * int (length d) \<le> n * ?fs"
      "read_status (ins s' a) = 0 \<longrightarrow> 1 \<le> k \<and> k \<le> n"
    unfolding resampler_progress_def by blast+
  have off: "0 \<le> ?off" using assms(5) room(2) by simp
  moreover have "2 * ?off \<le> wr * ?fs" by simp
  ultimately have "nat ?off + length d \<le> length buf" using k(1) room(1) by (simp add: distrib_right)
  then have "copy_at ?off d buf = Inr (take (nat ?off) buf @ d @ drop (nat ?off + length d) buf)"
    "length (take (nat ?off) buf @ d @ drop (nat ?off + length d) buf) = length buf"
    using off by (simp_all add: copy_at_def)
  with h r k(2) show ?thesis by (simp add: read_step_def Let_def)
qed

lemma read_frames_from_result:
  assumes "resampler_progress E a" "reads_fit E" "0 < audio_stream_in_frame_size E"
  shows "read_ready a s \<Longrightarrow> 0 \<le> wr \<Longrightarrow> wr \<le> frames \<Longrightarrow>
    frames * audio_stream_in_frame_size E \<le> 2 * int (length buf) \<Longrightarrow>
    \<exists>r buf' s'. read_frames_from E a frames wr buf s = Some (Inr (r, buf', s')) \<and> length buf' = length buf \<and>
      (r = frames \<or> r = read_status (ins s' a) \<and> r \<noteq> 0 \<and> r \<in> statuses E a s)"
proof (induction "nat (frames - wr)" arbitrary: wr buf s rule: less_induct)
  case less
  show ?case
  proof (cases "wr < frames")
    case False
    with less.prems show ?thesis by (simp add: read_frames_from.simps)
  next
    case wr: True
    obtain k b t where step: "read_step E a (frames - wr) wr buf s = Inr (k, b, t)" "length b = length buf"
        "read_ready a t" "statuses E a t \<subseteq> statuses E a s"
        "read_status (ins t a) = 0 \<longrightarrow> 1 \<le> k \<and> k \<le> frames - wr"
      using read_step_ready [OF assms(1,2) less.prems(1), of "frames - wr" wr buf] wr less.prems assms(3) by auto
    show ?thesis
    proof (cases "read_status (ins t a) = 0")
      case False
      moreover have "read_status (ins t a) \<in> statuses E a s" using step(4) by (auto simp: statuses_def)
      ultimately show ?thesis using wr step(1,2) by (simp add: read_frames_from.simps [of E a frames wr])
    next
      case True
      then have "nat (frames - (wr + k)) < nat (frames - wr)" "0 \<le> wr + k" "wr + k \<le> frames"
        using step(5) wr less.prems(2) by auto
      from less.hyps [OF this(1) step(3) this(2,3), of b] less.prems(4) step(2,4)
      show ?thesis using wr step(1) True by (auto simp: read_frames_from.simps [of E a frames wr])
    qed
  qed
qed

section \<open>Reading from a stereo PCM at its own rate\<close>

definition in_direct :: "audio_env \<Rightarrow> addr \<Rightarrow> audio_state \<Rightarrow> bool" where
  "in_direct E a s \<longleftrightarrow>
     \<not> i_standby (ins s a) \<and> i_resampler (ins s a) = None \<and>
     i_config (ins s a) \<in> {pcm_config_in, pcm_config_in_low_latency} \<and>
     requested_rate (ins s a) = rate (i_config (ins s a)) \<and>
     (\<exists>b. i_buffer (ins s a) = Some b \<and> length b = 2 * nat (period_size (i_config (ins s a)))) \<and>
     audio_stream_in_frame_size E = 2"

lemma in_direct_buffer_size:
  assumes "in_direct E a s"
  shows "in_get_buffer_size E a s = 2 * period_size (i_config (ins s a))"
  using assms
  by (auto simp: in_direct_def in_get_buffer_size_def in_get_sample_rate_def round_up_16_def
      pcm_config_defs audio_consts)

lemma in_read_start_running:
  "\<not> i_standby (ins s a) \<Longrightarrow>
   in_read_start E a s = (0, emit (Unlock MDev) (emit (Lock (MIn a)) (emit (Lock MDev) s)))"
  by (simp add: in_read_start_def Let_def)

lemma in_read_direct:
  assumes d: "in_direct E a s" and k: "0 \<le> k" "2 * k \<le> in_get_buffer_size E a s" "length buf = nat k"
    and rd: "pcm_read E (Unlock MDev # Lock (MIn a) # Lock MDev # calls s) (i_pcm (ins s a)) (4 * k) = (0, data)"
      "length data = 2 * nat k"
  shows "\<exists>s'. in_read E a buf (2 * k) s =
    Some (Inr (2 * k, if mic_mute (dev s) then replicate (nat k) 0 else left_channel (nat k) data, s'))"
proof -
  let ?t = "emit (Unlock MDev) (emit (Lock (MIn a)) (emit (Lock MDev) s))"
  have p: "period_size (i_config (ins s a)) \<in> {512, 1024}" "channels (i_config (ins s a)) = 2"
    using d by (auto simp: in_direct_def pcm_config_defs audio_consts)
  have st: "in_read_start E a s = (0, ?t)" using d by (simp add: in_direct_def in_read_start_running)
  obtain b where b: "i_buffer (ins s a) = Some b" "length b = 2 * nat (period_size (i_config (ins s a)))"
    using d by (auto simp: in_direct_def)
  have sz: "k \<le> period_size (i_config (ins s a))" using k(2) in_direct_buffer_size [OF d] by simp
  then have u: "u32 (2 * k * 2) = 4 * k" using k(1) p by auto
  let ?b = "data @ drop (length data) b"
  have store: "store_block b data = Inr ?b" using rd(2) b(2) sz k(1) by (simp add: store_block_def)
  have left: "copy_left (nat k) ?b buf = Inr (left_channel (nat k) data)"
    using rd(2) b(2) k sz by (auto simp: copy_left_def left_channel_block)
  let ?u = "upd_in a (\<lambda>x. x\<lparr>i_buffer := Some ?b\<rparr>) (emit (PcmRead (i_pcm (ins s a)) (4 * k)) ?t)"
  have body: "in_read_body E a buf (2 * k) ?t = Some (Inr (0, left_channel (nat k) data, ?u))"
    using d p(2) rd(1) u b(1) store left by (simp add: in_direct_def in_read_body_def in_read_stereo_def)
  have "in_read_finish E a 0 (2 * k) (left_channel (nat k) data) ?u =
      Inr (2 * k, if mic_mute (dev s) then replicate (nat k) 0 else left_channel (nat k) data,
           emit (Unlock (MIn a)) ?u)"
    using k(1) by (simp add: in_read_finish_def copy_at_def)
  with st body show ?thesis by (simp add: in_read_def)
qed

text \<open>A longer read writes behind the end of the stream's buffer.\<close>

lemma in_read_overrun:
  assumes d: "in_direct E a s" and k: "in_get_buffer_size E a s < 2 * k" "k < 1073741824"
    and rd: "pcm_read E (Unlock MDev # Lock (MIn a) # Lock MDev # calls s) (i_pcm (ins s a)) (4 * k) = (0, data)"
      "length data = 2 * nat k"
  shows "in_read E a buf (2 * k) s = Some (Inl OutOfBounds)"
proof -
  let ?t = "emit (Unlock MDev) (emit (Lock (MIn a)) (emit (Lock MDev) s))"
  have p: "period_size (i_config (ins s a)) \<in> {512, 1024}" "channels (i_config (ins s a)) = 2"
    using d by (auto simp: in_direct_def pcm_config_defs audio_consts)
  have st: "in_read_start E a s = (0, ?t)" using d by (simp add: in_direct_def in_read_start_running)
  obtain b where b: "i_buffer (ins s a) = Some b" "length b = 2 * nat (period_size (i_config (ins s a)))"
    using d by (auto simp: in_direct_def)
  have sz: "period_size (i_config (ins s a)) < k" using k(1) in_direct_buffer_size [OF d] by simp
  then have u: "u32 (2 * k * 2) = 4 * k" using k(2) p by auto
  have "store_block b data = Inl OutOfBounds" using rd(2) b(2) sz p by (auto simp: store_block_def)
  with d p(2) rd(1) u b(1) have "in_read_body E a buf (2 * k) ?t = Some (Inl OutOfBounds)"
    by (simp add: in_direct_def in_read_body_def in_read_stereo_def)
  with st show ?thesis by (simp add: in_read_def)
qed

end
