(* ===== verification/Audio_Adev.thy ===== *)
theory Audio_Adev
  imports Audio_Out_Thms Audio_In_Thms
begin

unbundle bit_operations_syntax

text \<open>
  The device functions of \<open>audio_hw.c\<close> (the \<open>adev_*\<close> family): opening and
  closing the device and its streams, the device parameters and the microphone switch.
\<close>

section \<open>Streams\<close>

record audio_config =
  sample_rate :: int
  channel_mask :: mask
  audio_format :: mask

text \<open>What \<open>calloc\<close> leaves in the structs.\<close>

definition zero_out :: stream_out where
  "zero_out = \<lparr>o_pcm = None, o_config = None, o_standby = False, o_written = 0, o_resampler = None,
     o_buffer = None, o_buffer_frames = 0, write_threshold = 0, cur_write_threshold = 0,
     buffer_type = OUT_BUFFER_TYPE_UNKNOWN\<rparr>"

definition new_stream_in :: "pcm_config \<Rightarrow> int \<Rightarrow> stream_in" where
  "new_stream_in cfg r = \<lparr>i_pcm = None, i_config = cfg, i_config_non_sco = cfg, i_standby = True,
     requested_rate = r, i_resampler = None, i_buffer = None, i_buffer_size = 0, frames_in = 0,
     read_status = 0\<rparr>"

definition in_use :: "audio_state \<Rightarrow> addr \<Rightarrow> bool" where
  "in_use s a \<longleftrightarrow> out_live s a \<or> in_live s a"

text \<open>The result: the return value, the caller's configuration, the new stream and the state.\<close>

definition adev_open_output_stream ::
  "audio_env \<Rightarrow> audio_config \<Rightarrow> audio_state \<Rightarrow> int \<times> audio_config \<times> addr option \<times> audio_state" where
  "adev_open_output_stream E config s =
     (let p = calloc_stream E (calls s) (in_use s);
          s = emit Calloc s
      in case p of
           None \<Rightarrow> (- ENOMEM, config, None, s)
         | Some a \<Rightarrow>
             let config = config\<lparr>audio_format := out_get_format E, channel_mask := out_get_channels E,
                            sample_rate := out_get_sample_rate\<rparr>;
                 s = upd_out a (\<lambda>_. zero_out\<lparr>o_standby := True\<rparr>) s
             in (0, config, Some a, s\<lparr>out_live := (out_live s)(a := True)\<rparr>))"

definition adev_close_output_stream :: "addr \<Rightarrow> audio_state \<Rightarrow> audio_state" where
  "adev_close_output_stream a s =
     (let s = snd (out_standby a s)
      in emit FreeStream (s\<lparr>out_live := (out_live s)(a := False)\<rparr>))"

definition adev_open_input_stream ::
  "audio_env \<Rightarrow> audio_config \<Rightarrow> mask \<Rightarrow> audio_state \<Rightarrow> int \<times> audio_config \<times> addr option \<times> audio_state" where
  "adev_open_input_stream E config flags s =
     (if channel_mask config \<noteq> AUDIO_CHANNEL_IN_MONO E
      then (- EINVAL, config\<lparr>channel_mask := AUDIO_CHANNEL_IN_MONO E\<rparr>, None, s)
      else
        let p = calloc_stream E (calls s) (in_use s);
            s = emit Calloc s
        in case p of
             None \<Rightarrow> (- ENOMEM, config, None, s)
           | Some a \<Rightarrow>
               let cfg = (if sample_rate config = IN_SAMPLING_RATE \<and> flags AND AUDIO_INPUT_FLAG_FAST E \<noteq> 0
                          then pcm_config_in_low_latency else pcm_config_in);
                   s = upd_in a (\<lambda>_. new_stream_in cfg (sample_rate config)) s
               in (0, config, Some a, s\<lparr>in_live := (in_live s)(a := True)\<rparr>))"

definition adev_close_input_stream :: "addr \<Rightarrow> audio_state \<Rightarrow> audio_state" where
  "adev_close_input_stream a s =
     (let s = snd (in_standby a s)
      in emit FreeStream (s\<lparr>in_live := (in_live s)(a := False)\<rparr>))"

section \<open>Device parameters\<close>

definition parse_orientation :: "string \<Rightarrow> orient" where
  "parse_orientation value =
     (if value = ''landscape'' then ORIENTATION_LANDSCAPE
      else if value = ''portrait'' then ORIENTATION_PORTRAIT
      else if value = ''square'' then ORIENTATION_SQUARE
      else ORIENTATION_UNDEFINED)"

text \<open>The return value is that of the second lookup.\<close>

definition adev_set_parameters :: "audio_env \<Rightarrow> string \<Rightarrow> audio_state \<Rightarrow> int \<times> audio_state" where
  "adev_set_parameters E kvpairs s =
     (let (ret, value) = str_parms_get_str E kvpairs ''orientation'';
          s = (if ret \<ge> 0 then
                 let orient = parse_orientation value;
                     s = emit (Lock MDev) s;
                     s = (if orient \<noteq> orientation (dev s)
                          then select_devices E (upd_dev (\<lambda>d. d\<lparr>orientation := orient\<rparr>) s) else s)
                 in emit (Unlock MDev) s
               else s);
          (ret, value) = str_parms_get_str E kvpairs ''screen_state'';
          s = (if ret \<ge> 0
               then upd_dev (\<lambda>d. d\<lparr>screen_off := (value \<noteq> AUDIO_PARAMETER_VALUE_ON E)\<rparr>) s else s)
      in (ret, s))"

definition adev_get_parameters :: "string \<Rightarrow> string" where "adev_get_parameters keys = ''''"
definition adev_init_check :: int where "adev_init_check = 0"
definition adev_set_voice_volume :: int where "adev_set_voice_volume = - ENOSYS"
definition adev_set_master_volume :: int where "adev_set_master_volume = - ENOSYS"
definition adev_set_mode :: int where "adev_set_mode = 0"
definition adev_dump :: "int \<Rightarrow> int" where "adev_dump fd = 0"

definition adev_set_mic_mute :: "bool \<Rightarrow> audio_state \<Rightarrow> int \<times> audio_state" where
  "adev_set_mic_mute state s = (0, upd_dev (\<lambda>d. d\<lparr>mic_mute := state\<rparr>) s)"

definition adev_get_mic_mute :: "audio_state \<Rightarrow> int \<times> bool" where
  "adev_get_mic_mute s = (0, mic_mute (dev s))"

definition adev_get_input_buffer_size :: "audio_env \<Rightarrow> audio_config \<Rightarrow> int" where
  "adev_get_input_buffer_size E config =
     (let n = u32 (period_size pcm_config_in * sample_rate config) div rate pcm_config_in
      in u32 (u32 (round_up_16 n * audio_channel_count_from_in_mask E (channel_mask config)) *
              audio_bytes_per_sample E (audio_format config)))"

section \<open>The device\<close>

definition adev_open :: "audio_env \<Rightarrow> string \<Rightarrow> int \<times> audio_state option" where
  "adev_open E name =
     (if name \<noteq> AUDIO_HARDWARE_INTERFACE E then (- EINVAL, None)
      else if \<not> calloc_device E then (- ENOMEM, None)
      else
        let d = \<lparr>out_device = AUDIO_DEVICE_OUT_SPEAKER E,
                 in_device = AUDIO_DEVICE_IN_BUILTIN_MIC E AND NOT (AUDIO_DEVICE_BIT_IN E),
                 mic_mute = False, ar = audio_route_init E [] MIXER_CARD,
                 orientation = ORIENTATION_UNDEFINED, screen_off = False,
                 active_out = None, active_in = None\<rparr>;
            s = \<lparr>dev = d, outs = (\<lambda>_. zero_out), ins = (\<lambda>_. new_stream_in pcm_config_in 0),
                 out_live = (\<lambda>_. False), in_live = (\<lambda>_. False), calls = [AudioRouteInit MIXER_CARD]\<rparr>
        in (0, Some (select_devices E s)))"

text \<open>Closing frees the device: what is left is the history of calls.\<close>

definition adev_close :: "audio_state \<Rightarrow> int \<times> call list" where
  "adev_close s = (0, AudioRouteFree # calls s)"

section \<open>The calls a client makes\<close>

datatype audio_op =
    OutStandby addr | OutSetParameters addr string | OutGetLatency addr
  | OutWrite addr "s16 list" int | OutGetPresentationPosition addr
  | InStandby addr | InSetParameters addr string | InRead addr "s16 list" int
  | OpenOutput audio_config | CloseOutput addr
  | OpenInput audio_config mask | CloseInput addr
  | SetParameters string | SetMicMute bool

text \<open>The state after a call that returns; \<open>None\<close> for one that faults or does not return.\<close>

fun exec_op :: "audio_env \<Rightarrow> audio_op \<Rightarrow> audio_state \<Rightarrow> audio_state option" where
  "exec_op E (OutStandby a) s = Some (snd (out_standby a s))"
| "exec_op E (OutSetParameters a kv) s = Some (snd (out_set_parameters E a kv s))"
| "exec_op E (OutGetLatency a) s = Some (snd (out_get_latency E s))"
| "exec_op E (OutWrite a buf bytes) s =
     (case out_write E a buf bytes s of Inl e \<Rightarrow> None | Inr (r, b, s') \<Rightarrow> Some s')"
| "exec_op E (OutGetPresentationPosition a) s =
     (case out_get_presentation_position E a s of Inl e \<Rightarrow> None | Inr (r, f, s') \<Rightarrow> Some s')"
| "exec_op E (InStandby a) s = Some (snd (in_standby a s))"
| "exec_op E (InSetParameters a kv) s = Some (snd (in_set_parameters E a kv s))"
| "exec_op E (InRead a buf bytes) s =
     (case in_read E a buf bytes s of Some (Inr (r, b, s')) \<Rightarrow> Some s' | _ \<Rightarrow> None)"
| "exec_op E (OpenOutput config) s = Some (snd (snd (snd (adev_open_output_stream E config s))))"
| "exec_op E (CloseOutput a) s = Some (adev_close_output_stream a s)"
| "exec_op E (OpenInput config flags) s = Some (snd (snd (snd (adev_open_input_stream E config flags s))))"
| "exec_op E (CloseInput a) s = Some (adev_close_input_stream a s)"
| "exec_op E (SetParameters kv) s = Some (snd (adev_set_parameters E kv s))"
| "exec_op E (SetMicMute b) s = Some (snd (adev_set_mic_mute b s))"

text \<open>A call is made on a stream that was opened and not yet closed.\<close>

fun op_allowed :: "audio_op \<Rightarrow> audio_state \<Rightarrow> bool" where
  "op_allowed (OutStandby a) s = out_live s a"
| "op_allowed (OutSetParameters a kv) s = out_live s a"
| "op_allowed (OutGetLatency a) s = out_live s a"
| "op_allowed (OutWrite a buf bytes) s = out_live s a"
| "op_allowed (OutGetPresentationPosition a) s = out_live s a"
| "op_allowed (InStandby a) s = in_live s a"
| "op_allowed (InSetParameters a kv) s = in_live s a"
| "op_allowed (InRead a buf bytes) s = in_live s a"
| "op_allowed (CloseOutput a) s = out_live s a"
| "op_allowed (CloseInput a) s = in_live s a"
| "op_allowed _ s = True"

text \<open>
  The states a client can reach; \<open>P\<close> says which further rule the client follows (none, or
  one stream per direction).
\<close>

inductive audio_reach :: "audio_env \<Rightarrow> (audio_op \<Rightarrow> audio_state \<Rightarrow> bool) \<Rightarrow> audio_state \<Rightarrow> bool"
  for E P where
  opened: "adev_open E name = (0, Some s) \<Longrightarrow> audio_reach E P s"
| called: "audio_reach E P s \<Longrightarrow> op_allowed p s \<Longrightarrow> P p s \<Longrightarrow> exec_op E p s = Some s' \<Longrightarrow> audio_reach E P s'"

definition fresh_alloc :: "audio_env \<Rightarrow> bool" where
  "fresh_alloc E \<longleftrightarrow> (\<forall>cs used a. calloc_stream E cs used = Some a \<longrightarrow> \<not> used a)"

section \<open>The invariant holds in every state\<close>

lemma inv_adev_open:
  assumes "adev_open E name = (r, Some s)"
  shows "audio_inv s"
proof -
  define s0 where "s0 = \<lparr>dev = \<lparr>out_device = AUDIO_DEVICE_OUT_SPEAKER E,
      in_device = AUDIO_DEVICE_IN_BUILTIN_MIC E AND NOT (AUDIO_DEVICE_BIT_IN E), mic_mute = False,
      ar = audio_route_init E [] MIXER_CARD, orientation = ORIENTATION_UNDEFINED, screen_off = False,
      active_out = None, active_in = None\<rparr>, outs = (\<lambda>_. zero_out), ins = (\<lambda>_. new_stream_in pcm_config_in 0),
      out_live = (\<lambda>_. False), in_live = (\<lambda>_. False), calls = [AudioRouteInit MIXER_CARD]\<rparr>"
  have n: "\<not> pcm_holds s0 w h" "\<not> res_holds s0 w h" for w h by (cases w; simp add: s0_def)+
  have "owned pcm_opens pcm_closes [AudioRouteInit MIXER_CARD] (pcm_holds s0)"
    by (intro pcm.owned_skip pcm.owned_empty n) simp_all
  moreover have "owned res_opens res_closes [AudioRouteInit MIXER_CARD] (res_holds s0)"
    by (intro res.owned_skip res.owned_empty n) simp_all
  ultimately have "handles_ok s0" by (simp add: handles_ok_def) (simp add: s0_def)
  then have "audio_inv s0"
    by (simp add: audio_inv_def active_ok_def cfg_ok_def idle_ok_def rates_ok_def) (simp add: s0_def)
  then show ?thesis using assms inv_select_devices [of s0 E]
    by (simp add: adev_open_def s0_def split: if_splits)
qed

lemma handles_ok_cong:
  assumes "handles_ok s" "calls s' = calls s"
    and "\<And>w h. pcm_holds s' w h = pcm_holds s w h" "\<And>w h. res_holds s' w h = res_holds s w h"
  shows "handles_ok s'"
proof -
  have "pcm_holds s' = pcm_holds s" "res_holds s' = res_holds s" by (intro ext, rule assms)+
  with assms(1,2) show ?thesis by (simp add: handles_ok_def)
qed

text \<open>Opening a stream at an address that is not in use.\<close>

lemma inv_new_out:
  assumes "audio_inv s" "\<not> out_live s a"
  shows "audio_inv (upd_out a (\<lambda>_. zero_out\<lparr>o_standby := True\<rparr>) s\<lparr>out_live := (out_live s)(a := True)\<rparr>)"
    (is "audio_inv ?s")
proof -
  have "pcm_holds ?s w h = pcm_holds s w h" "res_holds ?s w h = res_holds s w h" for w h
    using assms(2) by (cases w; auto)+
  moreover have "handles_ok s" "calls ?s = calls s" using assms(1) by (simp_all add: audio_inv_def)
  ultimately have "handles_ok ?s" by (metis handles_ok_cong)
  moreover have "active_ok ?s" "cfg_ok ?s" "idle_ok ?s" "rates_ok ?s"
    using assms by (auto simp: audio_inv_def active_ok_def cfg_ok_def idle_ok_def rates_ok_def out_cfg_def
        zero_out_def)
  ultimately show ?thesis by (simp add: audio_inv_def)
qed

lemma inv_new_in:
  assumes "audio_inv s" "\<not> in_live s a" "cfg \<in> {pcm_config_in, pcm_config_in_low_latency}"
  shows "audio_inv (upd_in a (\<lambda>_. new_stream_in cfg r) s\<lparr>in_live := (in_live s)(a := True)\<rparr>)"
    (is "audio_inv ?s")
proof -
  have "pcm_holds ?s w h = pcm_holds s w h" "res_holds ?s w h = res_holds s w h" for w h
    using assms(2) by (cases w; auto simp: new_stream_in_def)+
  moreover have "handles_ok s" "calls ?s = calls s" using assms(1) by (simp_all add: audio_inv_def)
  ultimately have "handles_ok ?s" by (metis handles_ok_cong)
  moreover have "active_ok ?s" "cfg_ok ?s" "idle_ok ?s" "rates_ok ?s"
    using assms by (auto simp: audio_inv_def active_ok_def cfg_ok_def idle_ok_def rates_ok_def out_cfg_def
        new_stream_in_def)
  ultimately show ?thesis by (simp add: audio_inv_def)
qed

lemma neutral_alloc [simp]: "neutral_call Calloc" "neutral_call FreeStream"
  by (simp_all add: neutral_call_def)

lemma inv_emit_neutral: "audio_inv s \<Longrightarrow> neutral_call c \<Longrightarrow> audio_inv (emit c s)"
  by (rule inv_emit) (simp_all add: neutral_call_def)

lemma inv_adev_open_output_stream:
  assumes "audio_inv s" "fresh_alloc E"
  shows "audio_inv (snd (snd (snd (adev_open_output_stream E config s))))"
proof (cases "calloc_stream E (calls s) (in_use s)")
  case None
  with assms show ?thesis by (simp add: adev_open_output_stream_def inv_emit_neutral)
next
  case (Some a)
  then have "\<not> in_use s a" using assms(2) by (metis fresh_alloc_def)
  with Some assms inv_new_out [of "emit Calloc s" a] show ?thesis
    by (simp add: adev_open_output_stream_def inv_emit_neutral in_use_def Let_def)
qed

lemma inv_adev_open_input_stream:
  assumes "audio_inv s" "fresh_alloc E"
  shows "audio_inv (snd (snd (snd (adev_open_input_stream E config flags s))))"
proof (cases "channel_mask config = AUDIO_CHANNEL_IN_MONO E")
  case False
  with assms show ?thesis by (simp add: adev_open_input_stream_def)
next
  case mono: True
  show ?thesis
  proof (cases "calloc_stream E (calls s) (in_use s)")
    case None
    with assms mono show ?thesis by (simp add: adev_open_input_stream_def inv_emit_neutral)
  next
    case (Some a)
    then have "\<not> in_use s a" using assms(2) by (metis fresh_alloc_def)
    with Some assms mono inv_new_in [of "emit Calloc s" a] show ?thesis
      by (simp add: adev_open_input_stream_def inv_emit_neutral in_use_def Let_def)
  qed
qed

text \<open>A stream that is in standby owns nothing and can be freed.\<close>

lemma inv_free_out:
  assumes "audio_inv s" "o_standby (outs s a)"
  shows "audio_inv (s\<lparr>out_live := (out_live s)(a := False)\<rparr>)" (is "audio_inv ?s")
proof -
  have "pcm_holds ?s w h = pcm_holds s w h" "res_holds ?s w h = res_holds s w h" for w h
    using assms(2) by (cases w; auto)+
  moreover have "handles_ok s" "calls ?s = calls s" using assms(1) by (simp_all add: audio_inv_def)
  ultimately have "handles_ok ?s" by (metis handles_ok_cong)
  moreover have "active_ok ?s" "cfg_ok ?s" "idle_ok ?s" "rates_ok ?s"
    using assms by (auto simp: audio_inv_def active_ok_def cfg_ok_def idle_ok_def rates_ok_def out_cfg_def)
  ultimately show ?thesis by (simp add: audio_inv_def)
qed

lemma inv_free_in:
  assumes "audio_inv s" "i_standby (ins s a)"
  shows "audio_inv (s\<lparr>in_live := (in_live s)(a := False)\<rparr>)" (is "audio_inv ?s")
proof -
  have "pcm_holds ?s w h = pcm_holds s w h" "res_holds ?s w h = res_holds s w h" for w h
    using assms(2) by (cases w; auto)+
  moreover have "handles_ok s" "calls ?s = calls s" using assms(1) by (simp_all add: audio_inv_def)
  ultimately have "handles_ok ?s" by (metis handles_ok_cong)
  moreover have "active_ok ?s" "cfg_ok ?s" "idle_ok ?s" "rates_ok ?s"
    using assms by (auto simp: audio_inv_def active_ok_def cfg_ok_def idle_ok_def rates_ok_def out_cfg_def)
  ultimately show ?thesis by (simp add: audio_inv_def)
qed

lemma inv_adev_close_output_stream:
  assumes "audio_inv s" "out_live s a"
  shows "audio_inv (adev_close_output_stream a s)"
proof -
  have "audio_inv (snd (out_standby a s))" using assms by (rule inv_out_standby)
  moreover have "o_standby (outs (snd (out_standby a s)) a)" by (simp add: out_standby_def Let_def)
  ultimately show ?thesis by (simp add: adev_close_output_stream_def Let_def inv_emit_neutral inv_free_out)
qed

lemma inv_adev_close_input_stream:
  assumes "audio_inv s" "in_live s a"
  shows "audio_inv (adev_close_input_stream a s)"
proof -
  have "audio_inv (snd (in_standby a s))" using assms by (rule inv_in_standby)
  moreover have "i_standby (ins (snd (in_standby a s)) a)" by (simp add: in_standby_def Let_def)
  ultimately show ?thesis by (simp add: adev_close_input_stream_def Let_def inv_emit_neutral inv_free_in)
qed

lemma inv_adev_set_parameters:
  assumes "audio_inv s"
  shows "audio_inv (snd (adev_set_parameters E kv s))"
  using assms
  by (auto simp: adev_set_parameters_def Let_def split: prod.splits
      intro!: inv_upd_dev_data inv_unlock inv_select_devices inv_lock)

lemma inv_exec_op:
  assumes "audio_inv s" "op_allowed p s" "fresh_handles E" "fresh_alloc E" "exec_op E p s = Some s'"
  shows "audio_inv s'"
proof (cases p)
  case (OutWrite a buf bytes)
  with assms show ?thesis by (auto split: sum.splits dest: inv_out_write)
next
  case (InRead a buf bytes)
  with assms show ?thesis by (auto split: option.splits sum.splits dest: inv_in_read)
next
  case (OutGetPresentationPosition a)
  with assms show ?thesis by (auto split: sum.splits dest: inv_out_get_presentation_position)
next
  case (SetMicMute b)
  with assms show ?thesis by (auto simp: adev_set_mic_mute_def intro!: inv_upd_dev_data)
qed (use assms in \<open>auto simp: inv_out_standby inv_out_set_parameters inv_out_get_latency inv_in_standby
    inv_in_set_parameters inv_adev_open_output_stream inv_adev_open_input_stream
    inv_adev_close_output_stream inv_adev_close_input_stream inv_adev_set_parameters\<close>)

lemma audio_reach_inv:
  assumes "audio_reach E P s" "fresh_handles E" "fresh_alloc E"
  shows "audio_inv s"
  using assms(1)
proof induction
  case (opened name s)
  then show ?case by (rule inv_adev_open)
next
  case (called s p s')
  with inv_exec_op assms(2,3) show ?case by blast
qed

end
