(* ===== verification/Audio_System.thy ===== *)
theory Audio_System
  imports Audio_Adev
begin

unbundle bit_operations_syntax

text \<open>
  The audio HAL as a whole: the locks of every client call as an instance of \<open>gated_ops\<close>,
  the rule that all open PCM devices use one group of rates for a client with one stream per
  direction, and what the two ways of asking for the size of an input buffer answer.
\<close>

section \<open>Locks of every call\<close>

type_synonym audio_call = "audio_env \<times> audio_op \<times> audio_state"

text \<open>
  A call with the platform it runs on and the state it starts in. \<open>op_script\<close> is what the
  call adds to the lock events of the trace; it is used for calls that return only. A call that
  does not return (a read whose resampler makes no progress stays in \<open>read_frames\<close> with
  the mutex of the stream held) or that meets a fault is outside of what the order can promise.
\<close>

definition op_returns :: "audio_call \<Rightarrow> bool" where
  "op_returns c \<longleftrightarrow> (case c of (E, p, s) \<Rightarrow> exec_op E p s \<noteq> None)"

definition op_script :: "audio_call \<Rightarrow> mutex lock_event list" where
  "op_script c =
     (case c of (E, p, s) \<Rightarrow>
        (case exec_op E p s of
           None \<Rightarrow> []
         | Some s' \<Rightarrow> drop (length (lock_events (calls s))) (lock_events (calls s'))))"

lemma op_script_eq:
  "exec_op E p s = Some s' \<Longrightarrow> lock_events (calls s') = lock_events (calls s) @ es \<Longrightarrow> op_script (E, p, s) = es"
  by (simp add: op_script_def)

lemma adev_set_parameters_locks:
  "\<exists>es \<in> {[], [Acquire MDev, Release MDev]}.
     lock_events (calls (snd (adev_set_parameters E kv s))) = lock_events (calls s) @ es"
  by (auto simp: adev_set_parameters_def Let_def split: prod.splits)

lemma adev_stream_locks:
  "lock_events (calls (snd (snd (snd (adev_open_output_stream E config s))))) = lock_events (calls s)"
  "lock_events (calls (snd (snd (snd (adev_open_input_stream E config flags s))))) = lock_events (calls s)"
  "lock_events (calls (adev_close_output_stream a s)) = lock_events (calls s) @
     [Acquire MDev, Acquire (MOut a), Release (MOut a), Release MDev]"
  "lock_events (calls (adev_close_input_stream a s)) = lock_events (calls s) @
     [Acquire MDev, Acquire (MIn a), Release (MIn a), Release MDev]"
  by (simp_all add: adev_open_output_stream_def adev_open_input_stream_def adev_close_output_stream_def
      adev_close_input_stream_def Let_def out_standby_locks in_standby_locks split: option.split)

definition orderly :: "audio_state \<Rightarrow> audio_state \<Rightarrow> bool" where
  "orderly s s' \<longleftrightarrow> (\<exists>es. lock_events (calls s') = lock_events (calls s) @ es \<and> disciplined MDev [] es)"

lemma orderlyI:
  "lock_events (calls s') = lock_events (calls s) @ es \<Longrightarrow> disciplined MDev [] es \<Longrightarrow> orderly s s'"
  by (auto simp: orderly_def)

lemma out_write_orderly:
  assumes "out_write E a buf bytes s = Inr (r, b, s')" shows "orderly s s'"
  by (rule orderlyI [OF out_write_locks [OF assms]]) (auto split: option.split)

lemma in_read_orderly:
  assumes "in_read E a buf bytes s = Some (Inr (r, b, s'))" shows "orderly s s'"
  by (rule orderlyI [OF in_read_locks [OF assms]]) (auto split: option.split)

lemma presentation_position_orderly:
  assumes "out_get_presentation_position E a s = Inr (r, f, s')" shows "orderly s s'"
  by (rule orderlyI [OF out_get_presentation_position_locks [OF assms]]) simp

lemma set_parameters_orderly:
  "orderly s (snd (out_set_parameters E a kv s))" "orderly s (snd (in_set_parameters E a kv s))"
  "orderly s (snd (adev_set_parameters E kv s))"
  using out_set_parameters_locks [of a E kv s] in_set_parameters_locks [of a E kv s]
    adev_set_parameters_locks [of E kv s]
  by (auto simp: orderly_def)

lemma exec_op_orderly:
  assumes "exec_op E p s = Some s'"
  shows "orderly s s'"
proof (cases p)
  case (OutWrite a buf bytes)
  with assms show ?thesis by (auto split: sum.splits dest: out_write_orderly)
next
  case (InRead a buf bytes)
  with assms show ?thesis by (auto split: option.splits sum.splits dest: in_read_orderly)
next
  case (OutGetPresentationPosition a)
  with assms show ?thesis by (auto split: sum.splits dest: presentation_position_orderly)
qed (use assms set_parameters_orderly in \<open>auto simp: orderly_def adev_stream_locks out_standby_locks
    in_standby_locks out_get_latency_locks adev_set_mic_mute_def\<close>)

lemma op_script_calls:
  assumes "exec_op E p s = Some s'"
  shows "lock_events (calls s') = lock_events (calls s) @ op_script (E, p, s) \<and>
    disciplined MDev [] (op_script (E, p, s))"
  using exec_op_orderly [OF assms] assms by (auto simp: orderly_def op_script_eq)

interpretation audio_locks: gated_ops MDev op_returns op_script
proof
  fix c :: audio_call
  assume "op_returns c"
  then obtain E p s s' where "c = (E, p, s)" "exec_op E p s = Some s'"
    by (auto simp: op_returns_def split: prod.splits)
  then show "disciplined MDev [] (op_script c)" using op_script_calls by blast
qed

text \<open>\<open>in_read\<close> meets the condition when the resampler makes progress and nothing faults.\<close>

lemma in_read_op_returns:
  assumes "resampler_progress E a" "0 \<le> bytes" "0 < audio_stream_in_frame_size E"
    and "prov_ok a (snd (in_read_start E a s))" "\<And>e. in_read E a buf bytes s \<noteq> Some (Inl e)"
  shows "op_returns (E, InRead a buf bytes, s)"
proof -
  from in_read_returns [OF assms(1-4), of buf] obtain y where y: "in_read E a buf bytes s = Some y" by blast
  with assms(5) obtain r b s' where "y = Inr (r, b, s')" by (cases y) auto
  with y show ?thesis by (simp add: op_returns_def)
qed

section \<open>One group of rates\<close>

text \<open>A client that has at most one stream in each direction.\<close>

fun one_per_direction :: "audio_op \<Rightarrow> audio_state \<Rightarrow> bool" where
  "one_per_direction (OpenOutput config) s = (\<forall>a. \<not> out_live s a)"
| "one_per_direction (OpenInput config flags) s = (\<forall>a. \<not> in_live s a)"
| "one_per_direction _ s = True"

definition one_stream :: "audio_state \<Rightarrow> bool" where
  "one_stream s \<longleftrightarrow> (\<forall>a b. out_live s a \<longrightarrow> out_live s b \<longrightarrow> a = b) \<and>
     (\<forall>a b. in_live s a \<longrightarrow> in_live s b \<longrightarrow> a = b)"

text \<open>The running streams are the active ones.\<close>

definition running_active :: "audio_state \<Rightarrow> bool" where
  "running_active s \<longleftrightarrow>
     (\<forall>a. out_live s a \<longrightarrow> \<not> o_standby (outs s a) \<longrightarrow> active_out (dev s) = Some a) \<and>
     (\<forall>a. in_live s a \<longrightarrow> \<not> i_standby (ins s a) \<longrightarrow> active_in (dev s) = Some a)"

definition all_in_one_group :: "audio_state \<Rightarrow> bool" where
  "all_in_one_group s \<longleftrightarrow>
     (\<forall>a i. out_live s a \<longrightarrow> \<not> o_standby (outs s a) \<longrightarrow> in_live s i \<longrightarrow> \<not> i_standby (ins s i) \<longrightarrow>
        \<not> rates_conflict (rate (out_cfg s a)) (rate (i_config (ins s i))))"

lemma running_active_group: "audio_inv s \<Longrightarrow> running_active s \<Longrightarrow> all_in_one_group s"
  by (auto simp: audio_inv_def rates_ok_def running_active_def all_in_one_group_def)

text \<open>What an operation may do to the flags without leaving the property.\<close>

definition quiet :: "audio_state \<Rightarrow> audio_state \<Rightarrow> bool" where
  "quiet s s' \<longleftrightarrow> out_live s' = out_live s \<and> in_live s' = in_live s \<and>
     active_out (dev s') = active_out (dev s) \<and> active_in (dev s') = active_in (dev s) \<and>
     (\<forall>a. o_standby (outs s' a) = o_standby (outs s a)) \<and> (\<forall>a. i_standby (ins s' a) = i_standby (ins s a))"

definition keeps :: "audio_state \<Rightarrow> audio_state \<Rightarrow> bool" where
  "keeps s s' \<longleftrightarrow> out_live s' = out_live s \<and> in_live s' = in_live s \<and>
     (one_stream s \<longrightarrow> running_active s \<longrightarrow> running_active s')"

lemma keeps_trans: "keeps s t \<Longrightarrow> keeps t u \<Longrightarrow> keeps s u"
  by (auto simp: keeps_def one_stream_def)

lemma quiet_keeps: "quiet s s' \<Longrightarrow> keeps s s'"
  by (auto simp: quiet_def keeps_def running_active_def)

lemma quiet_refl [simp]: "quiet s s" by (simp add: quiet_def)
lemma quiet_emit [simp]: "quiet s (emit c t) = quiet s t" by (simp add: quiet_def)
lemma quiet_select [simp]: "quiet s (select_devices E t) = quiet s t" by (simp add: quiet_def)
lemma keeps_emit [simp]: "keeps s (emit c t) = keeps s t" by (simp add: keeps_def running_active_def)
lemma keeps_select [simp]: "keeps s (select_devices E t) = keeps s t"
  by (simp add: keeps_def running_active_def)
lemma keeps_refl [simp]: "keeps s s" by (simp add: keeps_def)
lemma keeps_emit_left [simp]: "keeps (emit c s) t = keeps s t"
  by (simp add: keeps_def running_active_def one_stream_def)

lemma keeps_do_out_standby: "out_live s a \<Longrightarrow> keeps s (do_out_standby a s)"
  by (auto simp: keeps_def running_active_def one_stream_def do_out_standby_running
      intro!: do_out_standby_idle)

lemma keeps_do_in_standby: "in_live s a \<Longrightarrow> keeps s (do_in_standby a s)"
  by (auto simp: keeps_def running_active_def one_stream_def do_in_standby_running)


lemma keeps_then_standby:
  "keeps s t \<Longrightarrow> out_live s a \<Longrightarrow> keeps s (do_out_standby a t)"
  "keeps s t \<Longrightarrow> in_live s a \<Longrightarrow> keeps s (do_in_standby a t)"
  using keeps_trans [OF _ keeps_do_out_standby] keeps_trans [OF _ keeps_do_in_standby]
  by (simp_all add: keeps_def)

lemma keeps_stop_conflicting_input: "audio_inv s \<Longrightarrow> keeps s (stop_conflicting_input r s)"
  by (auto simp: stop_conflicting_input_def Let_def audio_inv_def active_ok_def split: option.split
      intro!: keeps_then_standby)

lemma keeps_stop_conflicting_output: "audio_inv s \<Longrightarrow> keeps s (stop_conflicting_output r s)"
  by (auto simp: stop_conflicting_output_def Let_def audio_inv_def active_ok_def split: option.split
      intro!: keeps_then_standby)

lemma out_prepare_keeps:
  assumes "audio_inv s" "o_standby (outs s a)" "out_prepare E a s = (device, cfg, s1)"
  shows "keeps s s1"
proof -
  obtain s0 where c: "out_choose_config E a s = (device, cfg, s0)" and s1: "s1 = stop_conflicting_input (rate cfg) s0"
    using assms(3) by (auto simp: out_prepare_def Let_def split: prod.splits)
  have "quiet s s0" using c by (auto simp: quiet_def out_choose_config_def split: if_splits)
  then show ?thesis
    unfolding s1 using inv_out_choose_config [OF assms(1,2) c]
    by (meson keeps_trans quiet_keeps keeps_stop_conflicting_input)
qed

lemma in_prepare_keeps:
  assumes "audio_inv s" "in_live s a" "i_standby (ins s a)" "in_prepare E a s = (device, cfg, s1)"
  shows "keeps s s1"
proof -
  obtain s0 where c: "in_choose_config E a s = (device, cfg, s0)" and s1: "s1 = stop_conflicting_output (rate cfg) s0"
    using assms(4) by (auto simp: in_prepare_def Let_def split: prod.splits)
  have "quiet s s0" using c by (auto simp: quiet_def in_choose_config_def split: if_splits)
  then show ?thesis
    unfolding s1 using inv_in_choose_config [OF assms(1-3) c]
    by (meson keeps_trans quiet_keeps keeps_stop_conflicting_output)
qed

text \<open>Starting the only stream of a direction makes it the active one.\<close>

lemma keeps_activate_out:
  assumes "keeps s t" "out_live s a" "out_live u = out_live t" "in_live u = in_live t"
    "\<And>i. i_standby (ins u i) = i_standby (ins t i)" "active_in (dev u) = active_in (dev t)"
    "active_out (dev u) = Some a"
  shows "keeps s u"
  using assms by (auto simp: keeps_def running_active_def one_stream_def)

lemma keeps_activate_in:
  assumes "keeps s t" "in_live s a" "out_live u = out_live t" "in_live u = in_live t"
    "\<And>b. o_standby (outs u b) = o_standby (outs t b)" "active_out (dev u) = active_out (dev t)"
    "active_in (dev u) = Some a"
  shows "keeps s u"
  using assms by (auto simp: keeps_def running_active_def one_stream_def)

lemma start_output_stream_keeps:
  assumes "audio_inv s" "out_live s a" "o_standby (outs s a)" "start_output_stream E a s = (ret, s')"
  shows "if ret = 0 then keeps s (upd_out a (\<lambda>x. x\<lparr>o_standby := False\<rparr>) s') else keeps s s'"
proof -
  obtain device cfg s1 where prep: "out_prepare E a s = (device, cfg, s1)" using prod_cases3 by blast
  note k = out_prepare_keeps [OF assms(1,3) prep]
  let ?p = "pcm_open E (calls s1) PCM_CARD device PCM_OUT_NORESTART_MONOTONIC cfg"
  let ?s2 = "upd_out a (\<lambda>x. x\<lparr>o_pcm := ?p\<rparr>) (emit (PcmOpen PCM_CARD device PCM_OUT_NORESTART_MONOTONIC cfg ?p) s1)"
  have q: "quiet s1 ?s2" by (auto simp: quiet_def)
  show ?thesis
  proof (cases "?p \<noteq> None \<and> \<not> pcm_is_ready E (calls ?s2) ?p")
    case True
    with assms(4) have "ret \<noteq> 0" "s' = emit (PcmClose ?p) ?s2"
      unfolding start_output_stream_unfold [OF prep refl refl] by auto
    with keeps_trans [OF k quiet_keeps [OF q]] show ?thesis by simp
  next
    case False
    with assms(4) have "ret = 0" and s': "s' = upd_dev (\<lambda>d. d\<lparr>active_out := Some a\<rparr>)
        (if out_get_sample_rate \<noteq> rate cfg then out_create_resampler E a cfg ?s2 else ?s2)"
      unfolding start_output_stream_unfold [OF prep refl refl] by auto
    moreover have "keeps s (upd_out a (\<lambda>x. x\<lparr>o_standby := False\<rparr>) s')"
      unfolding s' by (rule keeps_activate_out [OF k assms(2)]) (simp_all add: out_create_resampler_def Let_def)
    ultimately show ?thesis by simp
  qed
qed

lemma start_input_stream_keeps:
  assumes "audio_inv s" "in_live s a" "i_standby (ins s a)" "start_input_stream E a s = (ret, s')"
  shows "if ret = 0 then keeps s (upd_in a (\<lambda>x. x\<lparr>i_standby := False\<rparr>) s') else keeps s s'"
proof -
  obtain device cfg s1 where prep: "in_prepare E a s = (device, cfg, s1)" using prod_cases3 by blast
  note k = in_prepare_keeps [OF assms(1-3) prep]
  let ?p = "pcm_open E (calls s1) PCM_CARD device PCM_IN cfg"
  let ?s2 = "upd_in a (\<lambda>x. x\<lparr>i_pcm := ?p\<rparr>) (emit (PcmOpen PCM_CARD device PCM_IN cfg ?p) s1)"
  have q: "quiet s1 ?s2" by (auto simp: quiet_def)
  show ?thesis
  proof (cases "?p \<noteq> None \<and> \<not> pcm_is_ready E (calls ?s2) ?p")
    case True
    with assms(4) have "ret \<noteq> 0" "s' = emit (PcmClose ?p) ?s2"
      unfolding start_input_stream_unfold [OF prep refl refl] by auto
    with keeps_trans [OF k quiet_keeps [OF q]] show ?thesis by simp
  next
    case False
    with assms(4) have "ret = 0" and s': "s' = upd_dev (\<lambda>d. d\<lparr>active_in := Some a\<rparr>) (in_alloc_buffer E a cfg
        (if requested_rate (ins ?s2 a) \<noteq> rate cfg then in_create_resampler E a cfg ?s2 else ?s2))"
      unfolding start_input_stream_unfold [OF prep refl refl] by auto
    moreover have "keeps s (upd_in a (\<lambda>x. x\<lparr>i_standby := False\<rparr>) s')"
      unfolding s' by (rule keeps_activate_in [OF k assms(2)])
        (simp_all add: in_create_resampler_def in_alloc_buffer_def Let_def)
    ultimately show ?thesis by simp
  qed
qed

lemma keeps_upd_dev:
  "\<forall>d. active_out (f d) = active_out d \<and> active_in (f d) = active_in d \<Longrightarrow> keeps s (upd_dev f t) = keeps s t"
  by (simp add: keeps_def running_active_def)

lemma keeps_upd_out:
  "\<forall>x. o_standby (f x) = o_standby x \<Longrightarrow> keeps s (upd_out a f t) = keeps s t"
  by (auto simp: keeps_def running_active_def)

lemma out_write_keeps:
  assumes "audio_inv s" "out_live s a" "out_write E a buf bytes s = Inr (r, b, s')"
  shows "keeps s s'"
proof -
  obtain ret btype sco s1 where st: "out_write_start E a s = (ret, btype, sco, s1)" using prod_cases4 by blast
  let ?s = "emit (Lock (MOut a)) (emit (Lock MDev) s)"
  obtain r0 t where t: "start_output_stream E a ?s = (r0, t)" by fastforce
  have i: "audio_inv ?s" "out_live ?s a" using assms by simp_all
  have k1: "keeps s s1"
    using st t start_output_stream_keeps [OF i _ t]
    by (auto simp: out_write_start_def Let_def split: if_splits)
  show ?thesis
  proof (cases "ret = 0")
    case False
    with assms(3) st k1 show ?thesis
      by (auto simp: out_write_def out_write_exit_def Let_def split: if_splits)
  next
    case True
    then obtain fs data n s3 s4 where
      c: "out_change_rate E a (out_cfg s1 a) (bytes div audio_stream_out_frame_size E) b
         (upd_out a (out_adapt_buffer (out_cfg s1 a) btype sco) s1) = Inr (data, n, s3)"
      and tt: "out_throttle E a (out_cfg s1 a) sco s3 = Inr s4"
      and w: "out_write_pcm E a data n fs bytes s4 = (r, s')"
      using assms(3) st out_write_running [of E a s btype sco s1] by blast
    have "keeps s s3" using c k1
      by (auto simp: out_change_rate_def Let_def bind_res_Inr keeps_upd_out
          split: if_splits option.splits prod.splits)
    moreover obtain new cur where "s4 = (if sco then s3 else
        upd_out a (\<lambda>x. x\<lparr>cur_write_threshold := cur\<rparr>) (s3\<lparr>calls := new @ calls s3\<rparr>))"
      using out_throttle_result [OF tt] by blast
    ultimately have "keeps s s4"
      by (auto simp: keeps_upd_out) (simp add: keeps_def running_active_def)
    then show ?thesis using w
      by (auto simp: out_write_pcm_def out_write_exit_def Let_def keeps_upd_out split: if_splits)
  qed
qed

lemma in_read_keeps:
  assumes "audio_inv s" "in_live s a" "in_read E a buf bytes s = Some (Inr (r, b, s'))"
  shows "keeps s s'"
proof -
  obtain ret s1 where st: "in_read_start E a s = (ret, s1)" by fastforce
  let ?s = "emit (Lock (MIn a)) (emit (Lock MDev) s)"
  obtain r0 t where t: "start_input_stream E a ?s = (r0, t)" by fastforce
  have i: "audio_inv ?s" "in_live ?s a" using assms by simp_all
  have k1: "keeps s s1"
    using st t start_input_stream_keeps [OF i _ t]
    by (auto simp: in_read_start_def Let_def split: if_splits)
  have fin: "keeps s u \<Longrightarrow> in_read_finish E a v bytes c u = Inr (r, b, s') \<Longrightarrow> keeps s s'" for u v c
    by (auto simp: in_read_finish_def bind_res_Inr split: if_splits)
  from assms(3) st show ?thesis
  proof (cases rule: in_read_cases)
    case 1
    with k1 fin show ?thesis by blast
  next
    case (2 v c u)
    have "i_standby (ins u x) = i_standby (ins s1 x)" for x
      using 2(3) by (cases "x = a") (auto simp: in_frame_def)
    then have "quiet s1 u" using 2(3) by (auto simp: in_frame_def quiet_def)
    with k1 fin 2(4) show ?thesis by (meson keeps_trans quiet_keeps)
  qed
qed


lemma keeps_calls:
  assumes "audio_inv s" "op_allowed p s" "exec_op E p s = Some s'"
    "\<And>c. p \<noteq> OpenOutput c" "\<And>c f. p \<noteq> OpenInput c f" "\<And>a. p \<noteq> CloseOutput a" "\<And>a. p \<noteq> CloseInput a"
  shows "keeps s s'"
proof (cases p)
  case (OutWrite a buf bytes)
  with assms show ?thesis by (auto split: sum.splits dest: out_write_keeps)
next
  case (InRead a buf bytes)
  with assms show ?thesis by (auto split: option.splits sum.splits dest: in_read_keeps)
next
  case (OutGetPresentationPosition a)
  with assms show ?thesis
    by (auto simp: out_get_presentation_position_def Let_def
        split: sum.splits ht_result.splits option.splits if_splits)
next
  case (OutStandby a)
  with assms show ?thesis by (auto simp: out_standby_def Let_def intro!: keeps_then_standby)
next
  case (InStandby a)
  with assms show ?thesis by (auto simp: in_standby_def Let_def intro!: keeps_then_standby)
next
  case (OutSetParameters a kv)
  with assms show ?thesis
    by (auto simp: out_set_parameters_def Let_def keeps_upd_dev split: prod.splits
        intro!: keeps_then_standby)
next
  case (InSetParameters a kv)
  with assms show ?thesis
    by (auto simp: in_set_parameters_def Let_def keeps_upd_dev split: prod.splits
        intro!: keeps_then_standby)
next
  case (SetParameters kv)
  with assms show ?thesis by (auto simp: adev_set_parameters_def Let_def keeps_upd_dev split: prod.splits)
qed (use assms in \<open>auto simp: out_get_latency_def adev_set_mic_mute_def Let_def keeps_upd_dev\<close>)

lemma one_stream_free:
  assumes "one_stream s \<and> running_active s"
  shows "one_stream (emit c (s\<lparr>out_live := (out_live s)(a := False)\<rparr>)) \<and>
      running_active (emit c (s\<lparr>out_live := (out_live s)(a := False)\<rparr>))"
    "one_stream (emit c (s\<lparr>in_live := (in_live s)(a := False)\<rparr>)) \<and>
      running_active (emit c (s\<lparr>in_live := (in_live s)(a := False)\<rparr>))"
  using assms by (simp_all add: one_stream_def running_active_def)

lemma one_stream_calls:
  assumes "audio_inv s" "one_stream s" "running_active s" "op_allowed p s" "one_per_direction p s"
    "exec_op E p s = Some s'"
  shows "one_stream s' \<and> running_active s'"
proof -
  have dflt: "one_stream s' \<and> running_active s'" if "keeps s s'"
    using that assms(2,3) by (auto simp: keeps_def one_stream_def)
  show ?thesis
  proof (cases p)
    case (OpenOutput c)
    with assms show ?thesis
      by (auto simp: adev_open_output_stream_def Let_def one_stream_def running_active_def
          split: option.splits if_splits)
  next
    case (OpenInput c f)
    with assms show ?thesis
      by (auto simp: adev_open_input_stream_def Let_def one_stream_def running_active_def new_stream_in_def
          split: option.splits if_splits)
  next
    case (CloseOutput a)
    with assms have "keeps s (snd (out_standby a s))"
      by (auto simp: out_standby_def Let_def intro!: keeps_then_standby)
    then have "one_stream (snd (out_standby a s)) \<and> running_active (snd (out_standby a s))"
      using assms(2,3) unfolding keeps_def one_stream_def by auto
    moreover have "s' = adev_close_output_stream a s" using CloseOutput assms(6) by simp
    ultimately show ?thesis by (simp add: adev_close_output_stream_def Let_def one_stream_free)
  next
    case (CloseInput a)
    with assms have "keeps s (snd (in_standby a s))"
      by (auto simp: in_standby_def Let_def intro!: keeps_then_standby)
    then have "one_stream (snd (in_standby a s)) \<and> running_active (snd (in_standby a s))"
      using assms(2,3) unfolding keeps_def one_stream_def by auto
    moreover have "s' = adev_close_input_stream a s" using CloseInput assms(6) by simp
    ultimately show ?thesis by (simp add: adev_close_input_stream_def Let_def one_stream_free)
  qed (use dflt keeps_calls [OF assms(1,4,6)] in \<open>simp_all\<close>)
qed

lemma audio_reach_one_group:
  assumes "audio_reach E one_per_direction s" "fresh_handles E" "fresh_alloc E"
  shows "all_in_one_group s"
proof -
  have "one_stream s \<and> running_active s" using assms(1)
  proof induction
    case (opened name s)
    then show ?case by (auto simp: adev_open_def Let_def one_stream_def running_active_def split: if_splits)
  next
    case (called s p s')
    with audio_reach_inv [OF called.hyps(1) assms(2,3)] one_stream_calls show ?case by blast
  qed
  with audio_reach_inv [OF assms] running_active_group show ?thesis by blast
qed

section \<open>Opening input streams\<close>

text \<open>
  A request for another channel layout is answered with the one the HAL has; the client's second
  try then passes the check.
\<close>

lemma open_input_negotiation:
  assumes "adev_open_input_stream E config flags s = (r, config', p, s')" "r = - EINVAL"
  shows "fst (adev_open_input_stream E config' flags s') \<noteq> - EINVAL \<and> p = None \<and> s' = s \<and>
    sample_rate config' = sample_rate config"
  using assms by (auto simp: adev_open_input_stream_def Let_def split: if_splits option.splits)

text \<open>
  The two ways of asking for the buffer size. The device always computes with the period of
  \<open>pcm_config_in\<close>; a stream opened at 44100 Hz with the fast flag has the shorter period of
  \<open>pcm_config_in_low_latency\<close>, and reports half of what the device quotes.
\<close>

definition low_latency :: "audio_env \<Rightarrow> audio_config \<Rightarrow> mask \<Rightarrow> bool" where
  "low_latency E config flags \<longleftrightarrow>
     sample_rate config = IN_SAMPLING_RATE \<and> flags AND AUDIO_INPUT_FLAG_FAST E \<noteq> 0"

lemma open_input_buffer_size:
  assumes "adev_open_input_stream E config flags s = (0, config', Some a, s')"
    and "u32 (audio_channel_count_from_in_mask E (AUDIO_CHANNEL_IN_MONO E) *
           audio_bytes_per_sample E (audio_format config)) = u32 (audio_stream_in_frame_size E)"
  shows "if low_latency E config flags
    then in_get_buffer_size E a s' = u32 (512 * audio_stream_in_frame_size E) \<and>
      adev_get_input_buffer_size E config = u32 (1024 * audio_stream_in_frame_size E)
    else in_get_buffer_size E a s' = adev_get_input_buffer_size E config"
proof -
  have m: "channel_mask config = AUDIO_CHANNEL_IN_MONO E"
    and i: "ins s' a = new_stream_in (if low_latency E config flags then pcm_config_in_low_latency
        else pcm_config_in) (sample_rate config)"
    using assms(1) by (auto simp: adev_open_input_stream_def low_latency_def Let_def split: if_splits option.splits)
  have u: "u32 (u32 (n * c) * b) = u32 (n * u32 (c * b))" for n c b
    by (simp add: u32_def mod_simps mult.assoc)
  have v: "u32 (n * u32 c) = u32 (n * c)" for n c by (simp add: u32_def mod_simps)
  have dev: "adev_get_input_buffer_size E config =
      u32 (round_up_16 (u32 (period_size pcm_config_in * sample_rate config) div rate pcm_config_in) *
        audio_stream_in_frame_size E)"
    unfolding adev_get_input_buffer_size_def m Let_def u assms(2) v ..
  show ?thesis
  proof (cases "low_latency E config flags")
    case True
    then have "sample_rate config = 44100" by (simp add: low_latency_def audio_consts)
    with True show ?thesis
      unfolding dev in_get_buffer_size_def i
      by (simp add: in_get_sample_rate_def i new_stream_in_def pcm_config_defs audio_consts round_up_16_def)
  next
    case False
    then show ?thesis
      unfolding dev in_get_buffer_size_def i by (simp add: in_get_sample_rate_def i new_stream_in_def)
  qed
qed

end
