(* ===== verification/Audio_Demo.thy ===== *)
theory Audio_Demo
  imports Audio_System
begin

unbundle bit_operations_syntax

text \<open>
  A concrete platform: the values of \<open>system/audio.h\<close>, a driver that always succeeds, an
  allocator that takes the first free address, a resampler that passes its input through. It shows
  that what the theorems ask of the platform can hold, and is the platform on which the
  model is evaluated.
\<close>

section \<open>The platform\<close>

text \<open>Parameters are written \<^verbatim>\<open>key=value;key=value\<close>.\<close>

fun split_at :: "char \<Rightarrow> string \<Rightarrow> string list" where
  "split_at c [] = [[]]"
| "split_at c (x # xs) =
     (if x = c then [] # split_at c xs
      else (case split_at c xs of [] \<Rightarrow> [[x]] | y # ys \<Rightarrow> (x # y) # ys))"

definition parms_lookup :: "string \<Rightarrow> string \<Rightarrow> int \<times> string" where
  "parms_lookup kvpairs key =
     (case map_of (map (\<lambda>kv. (takeWhile (\<lambda>c. c \<noteq> CHR ''='') kv, drop 1 (dropWhile (\<lambda>c. c \<noteq> CHR ''='') kv)))
                    (split_at (CHR '';'') kvpairs)) key of
        None \<Rightarrow> (- 2, [])
      | Some v \<Rightarrow> (int (length v), v))"

definition next_handle :: "(call \<Rightarrow> handle option) \<Rightarrow> call list \<Rightarrow> handle" where
  "next_handle opens cs = Suc (sum_list (map (\<lambda>c. case opens c of None \<Rightarrow> 0 | Some h \<Rightarrow> h) cs))"

definition pass_through :: "int \<Rightarrow> provider_prog" where
  "pass_through n = NextBuffer n (\<lambda>st fc raw.
     case raw of None \<Rightarrow> Produced [] 0 | Some d \<Rightarrow> ReleaseBuffer fc (Produced (take (nat fc) d) fc))"

definition demo_env :: audio_env where
  "demo_env = \<lparr>
     AUDIO_DEVICE_OUT_SPEAKER = 0x2, AUDIO_DEVICE_OUT_WIRED_HEADSET = 0x4,
     AUDIO_DEVICE_OUT_WIRED_HEADPHONE = 0x8, AUDIO_DEVICE_OUT_ANLG_DOCK_HEADSET = 0x800,
     AUDIO_DEVICE_OUT_ALL_SCO = 0x70, AUDIO_DEVICE_BIT_IN = 0x80000000,
     AUDIO_DEVICE_IN_BUILTIN_MIC = 0x80000004, AUDIO_DEVICE_IN_ALL_SCO = 0x80000008,
     AUDIO_CHANNEL_OUT_STEREO = 3, AUDIO_CHANNEL_IN_MONO = 0x10, AUDIO_FORMAT_PCM_16_BIT = 1,
     AUDIO_INPUT_FLAG_FAST = 1, AUDIO_PARAMETER_STREAM_ROUTING = ''routing'',
     AUDIO_PARAMETER_VALUE_ON = ''on'', AUDIO_HARDWARE_INTERFACE = ''audio_hw_if'',
     audio_stream_out_frame_size = 4, audio_stream_in_frame_size = 2,
     audio_channel_count_from_out_mask = (\<lambda>m. if m = 3 then 2 else 1),
     audio_channel_count_from_in_mask = (\<lambda>m. if m = 0xC then 2 else 1),
     audio_bytes_per_sample = (\<lambda>f. 2),
     str_parms_get_str = parms_lookup,
     audio_route_init = (\<lambda>cs n. Some 0),
     pcm_open = (\<lambda>cs n d dir cfg. Some (next_handle pcm_opens cs)),
     pcm_is_ready = (\<lambda>cs p. True),
     pcm_frames_to_bytes = (\<lambda>cfg n. n * channels cfg * 2),
     pcm_get_buffer_size = (\<lambda>cfg. period_size cfg * period_count cfg),
     pcm_get_htimestamp = (\<lambda>cs p. HtOk 4096 0),
     pcm_write = (\<lambda>cs p d n. 0),
     pcm_read = (\<lambda>cs p n. (0, map (\<lambda>i. word_of_nat (Suc i)) [0..<nat (n div 2)])),
     create_resampler = (\<lambda>cs a b c. Some (next_handle res_opens cs)),
     resample_from_input = (\<lambda>cs h d n cap. (n, take (nat (min n cap)) d, min n cap)),
     resample_from_provider = (\<lambda>cs h n. pass_through n),
     malloc = (\<lambda>cs n. Some (replicate (nat (n div 2)) 0)),
     calloc_stream = (\<lambda>cs used. find (\<lambda>a. \<not> used a) [0, 1, 2, 3]),
     calloc_device = True,
     uninitialised = (\<lambda>cs. 0)\<rparr>"

lemma demo_sel [simp]:
  "AUDIO_DEVICE_OUT_SPEAKER demo_env = 0x2" "AUDIO_DEVICE_OUT_WIRED_HEADSET demo_env = 0x4"
  "AUDIO_DEVICE_OUT_WIRED_HEADPHONE demo_env = 0x8" "AUDIO_DEVICE_OUT_ANLG_DOCK_HEADSET demo_env = 0x800"
  "AUDIO_DEVICE_OUT_ALL_SCO demo_env = 0x70" "AUDIO_DEVICE_BIT_IN demo_env = 0x80000000"
  "AUDIO_DEVICE_IN_BUILTIN_MIC demo_env = 0x80000004" "AUDIO_DEVICE_IN_ALL_SCO demo_env = 0x80000008"
  "AUDIO_CHANNEL_OUT_STEREO demo_env = 3" "AUDIO_CHANNEL_IN_MONO demo_env = 0x10"
  "AUDIO_FORMAT_PCM_16_BIT demo_env = 1" "AUDIO_INPUT_FLAG_FAST demo_env = 1"
  "AUDIO_PARAMETER_STREAM_ROUTING demo_env = ''routing''" "AUDIO_PARAMETER_VALUE_ON demo_env = ''on''"
  "AUDIO_HARDWARE_INTERFACE demo_env = ''audio_hw_if''"
  "audio_stream_out_frame_size demo_env = 4" "audio_stream_in_frame_size demo_env = 2"
  "audio_channel_count_from_out_mask demo_env m = (if m = 3 then 2 else 1)"
  "audio_channel_count_from_in_mask demo_env m = (if m = 0xC then 2 else 1)"
  "audio_bytes_per_sample demo_env f = 2" "str_parms_get_str demo_env = parms_lookup"
  "audio_route_init demo_env cs n = Some 0"
  "pcm_open demo_env cs n d dir cfg = Some (next_handle pcm_opens cs)" "pcm_is_ready demo_env cs p"
  "pcm_frames_to_bytes demo_env cfg k = k * channels cfg * 2"
  "pcm_get_buffer_size demo_env cfg = period_size cfg * period_count cfg"
  "pcm_get_htimestamp demo_env cs p = HtOk 4096 0" "pcm_write demo_env cs p x k = 0"
  "pcm_read demo_env cs p k = (0, map (\<lambda>i. word_of_nat (Suc i)) [0..<nat (k div 2)])"
  "create_resampler demo_env cs i j l = Some (next_handle res_opens cs)"
  "resample_from_input demo_env cs h x k l = (k, take (nat (min k l)) x, min k l)"
  "resample_from_provider demo_env cs h k = pass_through k"
  "malloc demo_env cs k = Some (replicate (nat (k div 2)) 0)"
  "calloc_stream demo_env cs used = find (\<lambda>a. \<not> used a) [0, 1, 2, 3]" "calloc_device demo_env"
  "uninitialised demo_env cs = 0"
  by (simp_all add: demo_env_def)

section \<open>It keeps the promises\<close>

lemma live_le_sum:
  fixes opens :: "call \<Rightarrow> handle option"
  shows "h \<in> open_handles opens closes cs \<Longrightarrow>
   h \<le> sum_list (map (\<lambda>c. case opens c of None \<Rightarrow> 0 | Some h \<Rightarrow> h) cs)"
  by (induction cs) (auto split: option.splits)

lemma next_handle_fresh: "next_handle opens cs \<notin> open_handles opens closes cs"
  using live_le_sum [of "next_handle opens cs" opens closes cs] by (auto simp: next_handle_def)

lemma demo_fresh_handles: "fresh_handles demo_env"
  by (auto simp: fresh_handles_def demo_env_def next_handle_fresh)

lemma demo_fresh_alloc: "fresh_alloc demo_env"
  by (auto simp: fresh_alloc_def demo_env_def split: if_splits)

lemma demo_reads_fit: "reads_fit demo_env"
  by (auto simp: reads_fit_def)

lemma demo_resampler_progress: "resampler_progress demo_env a"
  by (auto simp: resampler_progress_def demo_env_def pass_through_def prov_ok_def get_next_buffer_at_def
      hand_out_def refill_def release_buffer_at_def bind_res_Inr Let_def of_nat_min min_le_iff_disj
      split: if_splits option.splits prod.splits)

section \<open>Runs\<close>

definition demo_start :: audio_state where
  "demo_start = the (snd (adev_open demo_env ''audio_hw_if''))"

lemma demo_open: "adev_open demo_env ''audio_hw_if'' = (0, Some demo_start)"
  by (simp add: demo_start_def adev_open_def demo_env_def)

lemma demo_start_reach: "audio_reach demo_env P demo_start"
  by (rule audio_reach.opened [OF demo_open])

text \<open>One stream in each direction, then playing on the output stream.\<close>

definition demo_config :: audio_config where
  "demo_config = \<lparr>sample_rate = 44100, channel_mask = 0x10, audio_format = 1\<rparr>"

definition demo_opened :: audio_state where
  "demo_opened = the (exec_op demo_env (OpenInput demo_config 0) (the (exec_op demo_env (OpenOutput demo_config) demo_start)))"

definition demo_playing :: audio_state where
  "demo_playing = the (exec_op demo_env (OutWrite 0 [1, 2, 3, 4] 8) demo_opened)"

lemma demo_start_sel [simp]:
  "out_live demo_start a = False" "in_live demo_start a = False"
  "outs demo_start a = zero_out" "ins demo_start a = new_stream_in pcm_config_in 0"
  "out_device (dev demo_start) = 2" "in_device (dev demo_start) = 4"
  "active_out (dev demo_start) = None" "active_in (dev demo_start) = None"
  "screen_off (dev demo_start) = False" "mic_mute (dev demo_start) = False"
  by (simp_all add: demo_start_def adev_open_def)

lemma demo_opened_sel [simp]:
  "out_live demo_opened a \<longleftrightarrow> a = 0" "in_live demo_opened a \<longleftrightarrow> a = 1"
  "outs demo_opened 0 = zero_out\<lparr>o_standby := True\<rparr>" "ins demo_opened 1 = new_stream_in pcm_config_in 44100"
  "dev demo_opened = dev demo_start" "calls demo_opened = Calloc # Calloc # calls demo_start"
  by (auto simp: demo_opened_def adev_open_output_stream_def adev_open_input_stream_def in_use_def
      demo_config_def audio_consts Let_def)

lemma demo_opened_reach: "audio_reach demo_env one_per_direction demo_opened"
  unfolding demo_opened_def
  by (rule audio_reach.called [where s = "the (exec_op demo_env (OpenOutput demo_config) demo_start)"
        and p = "OpenInput demo_config 0"],
      rule audio_reach.called [OF demo_start_reach, where p = "OpenOutput demo_config"])
    (auto simp: adev_open_output_stream_def in_use_def demo_config_def Let_def)

lemmas out_write_phases =
  out_write_def out_write_start_def start_output_stream_def out_choose_config_def
  stop_conflicting_input_def out_reduce_channels_def out_change_rate_def out_cfg_def
  out_get_channels_def out_get_sample_rate_def out_adapt_buffer_def out_throttle_def
  write_wait.simps adjust_threshold_def out_write_pcm_def out_write_exit_def

lemma demo_playing_exec: "exec_op demo_env (OutWrite 0 [1, 2, 3, 4] 8) demo_opened = Some demo_playing"
proof -
  have "exec_op demo_env (OutWrite 0 [1, 2, 3, 4] 8) demo_opened \<noteq> None"
    by (simp add: out_write_phases Let_def pcm_config_out_def zero_out_def next_handle_def audio_consts
        split: prod.split)
  then show ?thesis by (auto simp: demo_playing_def)
qed

lemma demo_playing_reach: "audio_reach demo_env one_per_direction demo_playing"
  by (rule audio_reach.called [OF demo_opened_reach, where p = "OutWrite 0 [1, 2, 3, 4] 8"])
    (simp_all add: demo_playing_exec del: exec_op.simps)

lemma demo_start_calls [simp]:
  "calls demo_start = [AudioRouteUpdateMixer, AudioRouteApplyPath ''main-mic-top'',
     AudioRouteApplyPath ''speaker'', AudioRouteReset, AudioRouteInit 1]"
  by (simp add: demo_start_def adev_open_def select_devices_eq routes_def MIXER_CARD_def)

lemma demo_playing_sel [simp]:
  "out_live demo_playing a \<longleftrightarrow> a = 0" "in_live demo_playing a \<longleftrightarrow> a = 1"
  "\<not> o_standby (outs demo_playing 0)"
  "o_pcm (outs demo_playing 0) = Some 1" "o_config (outs demo_playing 0) = Some pcm_config_out"
  "0 \<le> cur_write_threshold (outs demo_playing 0)"
  "out_device (dev demo_playing) = 2" "o_written (outs demo_playing 0) = 2"
  "active_out (dev demo_playing) = Some 0" "active_in (dev demo_playing) = None"
  "ins demo_playing 1 = new_stream_in pcm_config_in 44100"
  by (simp_all add: demo_playing_def out_write_phases Let_def pcm_config_out_def zero_out_def
      next_handle_def audio_consts demo_opened_sel(4) [unfolded One_nat_def])

text \<open>The input stream running at the rate of the PCM.\<close>

definition demo_recording :: audio_state where
  "demo_recording = upd_in 1 (\<lambda>x. x\<lparr>i_standby := False, i_pcm := Some 1, i_buffer := Some (replicate 2048 0),
     i_buffer_size := 4096\<rparr>) demo_opened"

lemma demo_recording_direct: "in_direct demo_env 1 demo_recording"
  by (simp add: in_direct_def demo_recording_def new_stream_in_def pcm_config_in_def audio_consts
      demo_opened_sel(4) [unfolded One_nat_def])

lemmas in_read_phases =
  in_read_def in_read_start_def start_input_stream_def in_choose_config_def stop_conflicting_output_def
  rates_conflict_def out_cfg_def in_alloc_buffer_def in_read_body_def in_read_stereo_def store_block_def
  copy_left_def left_channel_def in_read_finish_def

definition demo_both :: audio_state where
  "demo_both = the (exec_op demo_env (InRead 1 [0, 0] 4) demo_playing)"

lemma demo_playing_in [simp]:
  "in_live demo_playing (Suc 0)" "ins demo_playing (Suc 0) = new_stream_in pcm_config_in 44100"
  "in_device (dev demo_playing) = 4" "mic_mute (dev demo_playing) = False"
  using demo_playing_sel(2) [of 1] demo_playing_sel(11)
  by (simp_all add: demo_playing_def out_write_phases Let_def pcm_config_out_def zero_out_def
      next_handle_def audio_consts)

lemma demo_both_exec:
  "exec_op demo_env (InRead 1 [0, 0] 4) demo_playing \<noteq> None"
  "out_live demo_both 0" "in_live demo_both 1" "\<not> o_standby (outs demo_both 0)" "\<not> i_standby (ins demo_both 1)"
  by (simp_all add: demo_both_def in_read_phases Let_def new_stream_in_def pcm_config_in_def pcm_config_out_def
      audio_consts)

lemma demo_both_reach: "audio_reach demo_env one_per_direction demo_both"
  by (rule audio_reach.called [OF demo_playing_reach, where p = "InRead 1 [0, 0] 4"])
    (use demo_both_exec(1) in \<open>auto simp: demo_both_def simp del: exec_op.simps\<close>)

end
