(* ===== verification/Audio_Props.thy ===== *)
theory Audio_Props
  imports Audio_Demo
begin

unbundle bit_operations_syntax

text \<open>
  The properties of the audio HAL, each with an instance on the concrete platform of
  \<open>Audio_Demo\<close> where it has hypotheses.
\<close>

section \<open>Handles and rates\<close>

text \<open>
  C1. In every state a client can bring the HAL into, by any sequence of calls that return, the PCM
  devices and resamplers that are open are exactly those of the streams that are not in standby, and
  each belongs to one stream: nothing leaks, nothing is closed twice.
\<close>

theorem audio_handles_owned:
  assumes "audio_reach E P s" "fresh_handles E" "fresh_alloc E"
  shows "owned pcm_opens pcm_closes (calls s) (pcm_holds s) \<and>
    owned res_opens res_closes (calls s) (res_holds s)"
  using audio_reach_inv [OF assms] by (simp add: audio_inv_def handles_ok_def)

theorem audio_handles_owned_witness:
  "owned pcm_opens pcm_closes (calls demo_playing) (pcm_holds demo_playing) \<and>
   pcm_holds demo_playing (MOut 0) 1"
  using audio_handles_owned [OF demo_playing_reach demo_fresh_handles demo_fresh_alloc] by simp

text \<open>
  C5. All open PCMs use a single group of rates at once, as the comments in
  \<open>start_output_stream\<close> and \<open>start_input_stream\<close> require: for a client that
  has at most one stream per direction, no running output stream conflicts with a running input
  stream.
\<close>

theorem audio_one_rate_group:
  assumes "audio_reach E one_per_direction s" "fresh_handles E" "fresh_alloc E"
    and "out_live s a" "\<not> o_standby (outs s a)" "in_live s i" "\<not> i_standby (ins s i)"
  shows "\<not> rates_conflict (rate (out_cfg s a)) (rate (i_config (ins s i)))"
  using audio_reach_one_group [OF assms(1-3)] assms(4-7) by (simp add: all_in_one_group_def)

theorem audio_one_rate_group_witness:
  "\<not> rates_conflict (rate (out_cfg demo_both 0)) (rate (i_config (ins demo_both 1)))"
  using audio_one_rate_group [OF demo_both_reach demo_fresh_handles demo_fresh_alloc] demo_both_exec by simp

section \<open>Locks\<close>

text \<open>
  C11. For threads whose HAL calls return: each call takes its mutexes in the order noted in the
  source, the device mutex only with nothing held and a stream mutex only under the device mutex
  or with nothing held, and gives all of them back; and whatever sequences of such calls finitely
  many threads run, from any interleaving of their lock and unlock calls that can occur all threads
  can still run to completion.
\<close>

theorem audio_never_deadlocks:
  fixes ops :: "nat \<Rightarrow> audio_call list"
  assumes "finite {t. ops t \<noteq> []}"
    and "\<forall>t E p u. (E, p, u) \<in> set (ops t) \<longrightarrow> exec_op E p u \<noteq> None"
    and "lock_step\<^sup>*\<^sup>* (lock_start (\<lambda>t. concat (map op_script (ops t)))) s"
  shows "(\<forall>t E p u u'. (E, p, u) \<in> set (ops t) \<longrightarrow> exec_op E p u = Some u' \<longrightarrow>
      lock_events (calls u') = lock_events (calls u) @ op_script (E, p, u) \<and>
      disciplined MDev [] (op_script (E, p, u))) \<and>
    (\<exists>s'. lock_step\<^sup>*\<^sup>* s s' \<and> all_done s')"
proof (intro conjI allI impI)
  fix t E p u u' assume "exec_op E p u = Some u'"
  from op_script_calls [OF this]
  show "lock_events (calls u') = lock_events (calls u) @ op_script (E, p, u)"
    "disciplined MDev [] (op_script (E, p, u))" by simp_all
next
  show "\<exists>s'. lock_step\<^sup>*\<^sup>* s s' \<and> all_done s'"
    by (rule audio_locks.threads_never_deadlock [OF assms(1) _ assms(3)])
      (use assms(2) in \<open>auto simp: op_returns_def split: prod.splits\<close>)
qed

definition demo_threads :: "nat \<Rightarrow> audio_call list" where
  "demo_threads t =
     (if t = 0 then [(demo_env, OutWrite 0 [1, 2, 3, 4] 8, demo_opened)]
      else if t = 1 then [(demo_env, InStandby 1, demo_playing), (demo_env, OutGetLatency 0, demo_playing)]
      else [])"

theorem audio_never_deadlocks_witness:
  "lock_events (calls demo_playing) =
      lock_events (calls demo_opened) @ op_script (demo_env, OutWrite 0 [1, 2, 3, 4] 8, demo_opened) \<and>
   disciplined MDev [] (op_script (demo_env, OutWrite 0 [1, 2, 3, 4] 8, demo_opened)) \<and>
   (\<exists>s'. lock_step\<^sup>*\<^sup>* (lock_start (\<lambda>t. concat (map op_script (demo_threads t)))) s' \<and> all_done s')"
proof -
  have "{t. demo_threads t \<noteq> []} \<subseteq> {0, 1}" by (auto simp: demo_threads_def)
  then have fin: "finite {t. demo_threads t \<noteq> []}" by (rule finite_subset) simp
  have ret: "\<forall>t E p u. (E, p, u) \<in> set (demo_threads t) \<longrightarrow> exec_op E p u \<noteq> None"
    using demo_playing_exec by (auto simp: demo_threads_def simp del: exec_op.simps(4) split: if_splits)
  have "(demo_env, OutWrite 0 [1, 2, 3, 4] 8, demo_opened) \<in> set (demo_threads 0)"
    by (simp add: demo_threads_def)
  with audio_never_deadlocks [OF fin ret rtranclp.rtrancl_refl] demo_playing_exec show ?thesis by blast
qed

section \<open>Playback\<close>

text \<open>
  C23. The wait of \<open>out_write\<close> for room in the kernel buffer, whatever the driver reports.
  When it returns it has only slept and asked for time stamps, slept at most
  \<open>MAX_WRITE_SLEEP_US\<close> in total, and made at most 24 calls; and it has returned because no
  more than the threshold is left, or would be after less than the shortest sleep, or because the
  time is used up, or because the last time stamp failed. Only when the driver reports over 2000
  seconds more than the threshold can a signed operation overflow instead.
\<close>

theorem out_write_wait_bounded:
  assumes "0 < r" "r \<le> 1000000"
  shows "(\<exists>kf' new. write_wait E p bufsz r thr kf 0 cs = Inr (kf', new @ cs) \<and>
      (\<forall>c. c \<in> set new \<longrightarrow> wait_call p c) \<and> slept_us new \<le> MAX_WRITE_SLEEP_US \<and> length new \<le> 24 \<and>
      (kf' \<le> thr \<or> s32 ((kf' - thr) * 1000000 div r) < MIN_WRITE_SLEEP_US \<or>
       slept_us new = MAX_WRITE_SLEEP_US \<or> pcm_get_htimestamp E (tl (new @ cs)) p = HtErr)) \<or>
    (write_wait E p bufsz r thr kf 0 cs = Inl Overflow \<and>
      (\<exists>cs' avail ts. pcm_get_htimestamp E cs' p = HtOk avail ts \<and> 2000 * r < s32 (bufsz - avail) - thr))"
proof (cases "write_wait E p bufsz r thr kf 0 cs")
  case (Inl e)
  with write_wait_trace [where slept = 0 and E = E and p = p and bufsz = bufsz and r = r and thr = thr
      and kf = kf and cs = cs] assms
  show ?thesis by (simp add: far_behind_def MAX_WRITE_SLEEP_US_val)
next
  case (Inr q)
  with write_wait_trace [where slept = 0 and E = E and p = p and bufsz = bufsz and r = r and thr = thr
      and kf = kf and cs = cs]
  have "wait_over E p r thr MAX_WRITE_SLEEP_US cs (fst q) (snd q)"
    by (simp add: MAX_WRITE_SLEEP_US_val split: prod.splits)
  then obtain new where "snd q = new @ cs" "\<forall>c \<in> set new. wait_call p c" "slept_us new \<le> MAX_WRITE_SLEEP_US"
      "int (length new) \<le> 2 * (MAX_WRITE_SLEEP_US div MIN_WRITE_SLEEP_US) + 2"
      "fst q \<le> thr \<or> s32 ((fst q - thr) * 1000000 div r) < MIN_WRITE_SLEEP_US \<or>
         slept_us new = MAX_WRITE_SLEEP_US \<or> pcm_get_htimestamp E (tl (snd q)) p = HtErr"
    unfolding wait_over_def by blast
  with Inr show ?thesis
    by (intro disjI1 exI [of _ "fst q"] exI [of _ new]) (auto simp: audio_consts prod_eq_iff)
qed

text \<open>A driver that holds 1536 frames at first and has played them after the first sleep.\<close>

definition drain_env :: audio_env where
  "drain_env = demo_env\<lparr>pcm_get_htimestamp := (\<lambda>cs p. if cs = [] then HtOk 2560 0 else HtOk 4096 0)\<rparr>"

theorem out_write_wait_bounded_witness:
  "\<exists>new. write_wait drain_env (Some 1) 4096 44100 1024 7 0 [] = Inr (0, new) \<and> slept_us new = 11609 \<and>
     (\<forall>c. c \<in> set new \<longrightarrow> wait_call (Some 1) c) \<and> length new = 3"
proof -
  have w: "write_wait drain_env (Some 1) 4096 44100 1024 7 0 [] =
      Inr (0, [PcmGetHtimestamp (Some 1), Usleep 11609, PcmGetHtimestamp (Some 1)])"
    by (simp add: write_wait.simps drain_env_def audio_consts Let_def)
  from out_write_wait_bounded [of 44100 drain_env "Some 1" 4096 1024 7 "[]"] show ?thesis
    unfolding w by auto
qed

text \<open>
  C17. A write to the running main PCM succeeds, with a driver that never holds more than half an
  hour of sound and a threshold that is not negative: the driver gets the caller's samples
  unchanged, rounded down to whole frames, after the bounded wait and with the device lock already
  released; the caller gets its byte count back and the frame counter advances by the frames.
\<close>

theorem out_write_plays:
  assumes "\<not> o_standby (outs s a)" "o_config (outs s a) = Some pcm_config_out"
    and "out_device (dev s) AND AUDIO_DEVICE_OUT_ALL_SCO E = 0"
    and "audio_stream_out_frame_size E = 4"
    and "audio_channel_count_from_out_mask E (AUDIO_CHANNEL_OUT_STEREO E) = 2"
    and "\<And>cs p d n. pcm_write E cs p d n = 0" "0 \<le> bytes" "bytes < 4294967296"
    and "0 \<le> cur_write_threshold (outs s a)"
    and "\<And>cs p avail ts. pcm_get_htimestamp E cs p = HtOk avail ts \<Longrightarrow>
         s32 (pcm_get_buffer_size E pcm_config_out - avail) \<le> 80000000"
  shows "\<exists>s' w. out_write E a buffer bytes s = Inr (bytes, buffer, s') \<and>
    calls s' = Unlock (MOut a) # PcmWrite (o_pcm (outs s a)) buffer (4 * (bytes div 4)) # w @
      Unlock MDev # Lock (MOut a) # Lock MDev # calls s \<and>
    (\<forall>c \<in> set w. wait_call (o_pcm (outs s a)) c) \<and> slept_us w \<le> MAX_WRITE_SLEEP_US \<and>
    o_written (outs s' a) = u64 (o_written (outs s a) + bytes div 4)"
  using assms by (rule out_write_main_pcm)

theorem out_write_plays_witness:
  "\<exists>s'. out_write demo_env 0 [1, 2, 3, 4, 5, 6] 12 demo_playing = Inr (12, [1, 2, 3, 4, 5, 6], s') \<and>
     o_written (outs s' 0) = 5"
  using out_write_plays [of demo_playing 0 demo_env 12 "[1, 2, 3, 4, 5, 6]"]
  by (auto simp: pcm_config_out_def audio_consts)

text \<open>
  C21. A write while routed to Bluetooth SCO: the resampler is given the left channel of the
  caller's stereo samples (the loop that drops the right channel in place never reads what it has
  overwritten), its output goes to the driver as mono frames of two bytes, and no wait is made.
\<close>

theorem out_write_sco:
  assumes "\<not> o_standby (outs s a)" "o_config (outs s a) = Some pcm_config_sco"
    and "out_device (dev s) AND AUDIO_DEVICE_OUT_ALL_SCO E \<noteq> 0"
    and "audio_stream_out_frame_size E = 4"
    and "audio_channel_count_from_out_mask E (AUDIO_CHANNEL_OUT_STEREO E) = 2"
    and "o_resampler (outs s a) = Some h" "o_buffer (outs s a) = Some b"
    and "0 \<le> n" "2 * nat n \<le> length buffer"
    and "resample_from_input E (Unlock MDev # Lock (MOut a) # Lock MDev # calls s) h
        (left_channel (nat n) buffer @ drop (nat n) buffer) n (o_buffer_frames (outs s a)) = (used, data, m)"
      "length data \<le> length b"
    and "\<And>cs p d k. pcm_write E cs p d k = 0"
  shows "\<exists>s'. out_write E a buffer (4 * n) s =
      Inr (4 * n, left_channel (nat n) buffer @ drop (nat n) buffer, s') \<and>
    calls s' = [Unlock (MOut a), PcmWrite (o_pcm (outs s a)) (data @ drop (length data) b) (u32 (m * 2)),
      ResampleFromInput h (left_channel (nat n) buffer @ drop (nat n) buffer) n (o_buffer_frames (outs s a)),
      Unlock MDev, Lock (MOut a), Lock MDev] @ calls s \<and>
    o_written (outs s' a) = u64 (o_written (outs s a) + m)"
  using assms by (rule out_write_sco_pcm)

definition demo_sco :: audio_state where
  "demo_sco = upd_dev (\<lambda>d. d\<lparr>out_device := 0x10\<rparr>)
     (upd_out 0 (\<lambda>x. x\<lparr>o_config := Some pcm_config_sco, o_resampler := Some 1, o_buffer := Some [0, 0, 0, 0],
        o_buffer_frames := 4, o_pcm := Some 1, o_standby := False, o_written := 0\<rparr>) demo_opened)"

theorem out_write_sco_witness:
  "\<exists>s'. out_write demo_env 0 [1, 2, 3, 4] 8 demo_sco = Inr (8, [1, 3, 3, 4], s') \<and>
     hd (tl (calls s')) = PcmWrite (Some 1) [1, 3, 0, 0] 4"
proof -
  have left: "left_channel (nat 2) [1, 2, 3, 4] @ drop (nat 2) [1, 2, 3, 4] = [1, 3, 3, 4 :: s16]"
    by (simp add: left_channel_def numeral_2_eq_2)
  show ?thesis
    using out_write_sco [of demo_sco 0 demo_env 1 "[0, 0, 0, 0]" 2 "[1, 2, 3, 4]" 2 "[1, 3]" 2]
    unfolding left by (auto simp: demo_sco_def)
qed

text \<open>
  The current threshold approaches its target by a quarter of a period with each write,
  whatever the filling level of the kernel buffer, and never passes it: after \<open>k\<close> writes
  the distance has shrunk by \<open>128 * k\<close> frames.
\<close>

theorem adjust_threshold_converges:
  assumes "\<bar>cur\<bar> < 1073741824" "\<bar>target\<bar> < 1073741824" "128 * int (length kfs) \<le> \<bar>cur - target\<bar>"
  shows "\<bar>foldl (\<lambda>c kf. adjust_threshold 512 kf target c) cur kfs - target\<bar> =
      \<bar>cur - target\<bar> - 128 * int (length kfs) \<and>
    min cur target \<le> foldl (\<lambda>c kf. adjust_threshold 512 kf target c) cur kfs \<and>
    foldl (\<lambda>c kf. adjust_threshold 512 kf target c) cur kfs \<le> max cur target"
  using assms by (rule adjust_threshold_writes)

theorem adjust_threshold_converges_witness:
  "foldl (\<lambda>c kf. adjust_threshold 512 kf 4096 c) 1024 (replicate 24 3000) = 4096"
  using adjust_threshold_converges [of 1024 4096 "replicate 24 3000"] by simp

text \<open>
  C29. The position presented is the number of frames written less those still in the kernel
  buffer; when that would be negative the call fails and stores nothing.
\<close>

theorem presentation_position:
  assumes "pcm_get_htimestamp E (Lock (MOut a) # calls s) (o_pcm (outs s a)) = HtOk avail ts"
    and "o_config (outs s a) = Some cfg" "cfg \<in> {pcm_config_out, pcm_config_sco}"
    and "0 \<le> avail" "avail < 4294967296" "0 \<le> o_written (outs s a)" "o_written (outs s a) < 4611686018427387904"
  shows "\<exists>s'. out_get_presentation_position E a s =
    (let pos = o_written (outs s a) - (period_size cfg * period_count cfg - avail)
     in if pos \<ge> 0 then Inr (0, Some pos, s') else Inr (- 1, None, s'))"
  using assms by (rule out_get_presentation_position_value)

theorem presentation_position_witness:
  "\<exists>s'. out_get_presentation_position demo_env 0 demo_playing = Inr (0, Some 2, s')"
  using presentation_position [of demo_env 0 demo_playing 4096 0 pcm_config_out]
  by (simp add: pcm_config_out_def audio_consts)

text \<open>
  C40. A start that fails leaves the stream in standby with the PCM pointer it has just closed;
  \<open>out_get_presentation_position\<close>, which looks at neither, returns, and the one call to the
  driver it adds to the trace asks for the time stamp of that closed pointer.
\<close>

theorem position_after_failed_start:
  assumes "start_output_stream E a s = (- ENOMEM, s')" "o_standby (outs s a)"
  shows "\<exists>h r f t. h \<notin> open_handles pcm_opens pcm_closes (calls s') \<and> o_standby (outs s' a) \<and>
    out_get_presentation_position E a s' = Inr (r, f, t) \<and>
    calls t = Unlock (MOut a) # PcmGetHtimestamp (Some h) # Lock (MOut a) # calls s'"
proof -
  have "o_config (outs s' a) \<noteq> None" "o_standby (outs s' a)" and
    "\<exists>h. o_pcm (outs s' a) = Some h \<and> (\<exists>cs. calls s' = PcmClose (Some h) # cs)"
    using failed_start [OF assms] by blast+
  then obtain h cfg where h: "o_pcm (outs s' a) = Some h" "o_config (outs s' a) = Some cfg"
      "h \<notin> open_handles pcm_opens pcm_closes (calls s')" by auto
  obtain r f t where "out_get_presentation_position E a s' = Inr (r, f, t)"
      "calls t = Unlock (MOut a) # PcmGetHtimestamp (Some h) # Lock (MOut a) # calls s'"
    using position_of_closed [OF h(1,2)] by blast
  with h \<open>o_standby (outs s' a)\<close> show ?thesis by blast
qed

definition busy_env :: audio_env where
  "busy_env = demo_env\<lparr>pcm_is_ready := (\<lambda>cs p. False)\<rparr>"

theorem position_after_failed_start_witness:
  "\<exists>h r f t. h \<notin> open_handles pcm_opens pcm_closes (calls (snd (start_output_stream busy_env 0 demo_opened))) \<and>
     out_get_presentation_position busy_env 0 (snd (start_output_stream busy_env 0 demo_opened)) = Inr (r, f, t) \<and>
     hd (tl (calls t)) = PcmGetHtimestamp (Some h)"
proof -
  have "start_output_stream busy_env 0 demo_opened =
      (- ENOMEM, snd (start_output_stream busy_env 0 demo_opened))"
    by (simp add: busy_env_def start_output_stream_def out_choose_config_def Let_def stop_conflicting_input_def)
  from position_after_failed_start [OF this] show ?thesis by fastforce
qed

section \<open>Recording\<close>

text \<open>
  C18. A read at the rate of the PCM, of no more than \<open>in_get_buffer_size\<close> bytes, stays
  inside the stream's buffer and delivers the left channel of what the driver captured, or
  silence when the microphone is muted.
\<close>

theorem in_read_records:
  assumes "in_direct E a s" "0 \<le> k" "2 * k \<le> in_get_buffer_size E a s" "length buf = nat k"
    and "pcm_read E (Unlock MDev # Lock (MIn a) # Lock MDev # calls s) (i_pcm (ins s a)) (4 * k) = (0, data)"
      "length data = 2 * nat k"
  shows "\<exists>s'. in_read E a buf (2 * k) s =
    Some (Inr (2 * k, if mic_mute (dev s) then replicate (nat k) 0 else left_channel (nat k) data, s'))"
  using assms by (rule in_read_direct)

theorem in_read_records_witness:
  "\<exists>s'. in_read demo_env 1 [0, 0, 0] 6 demo_recording = Some (Inr (6, [1, 3, 5], s'))"
proof -
  have "in_get_buffer_size demo_env 1 demo_recording = 2048"
    using in_direct_buffer_size [OF demo_recording_direct]
    by (simp add: demo_recording_def new_stream_in_def pcm_config_in_def audio_consts
        demo_opened_sel(4) [unfolded One_nat_def])
  with in_read_records [OF demo_recording_direct, of 3 "[0, 0, 0]" "[1, 2, 3, 4, 5, 6]"]
  show ?thesis by (simp add: demo_recording_def left_channel_def upt_rec)
qed

text \<open>
  C39. A longer read makes the driver write behind the end of the stream's buffer: \<open>in_read\<close>
  asks for twice the caller's bytes and never compares them with the size of its own buffer.
\<close>

theorem in_read_overruns:
  assumes "in_direct E a s" "in_get_buffer_size E a s < 2 * k" "k < 1073741824"
    and "pcm_read E (Unlock MDev # Lock (MIn a) # Lock MDev # calls s) (i_pcm (ins s a)) (4 * k) = (0, data)"
      "length data = 2 * nat k"
  shows "in_read E a buf (2 * k) s = Some (Inl OutOfBounds)"
  using assms by (rule in_read_overrun)

theorem in_read_overruns_witness:
  "in_read demo_env 1 (replicate 2000 0) 4000 demo_recording = Some (Inl OutOfBounds)"
proof -
  have "in_get_buffer_size demo_env 1 demo_recording = 2048"
    using in_direct_buffer_size [OF demo_recording_direct]
    by (simp add: demo_recording_def new_stream_in_def pcm_config_in_def audio_consts
        demo_opened_sel(4) [unfolded One_nat_def])
  with in_read_overruns [OF demo_recording_direct, of 2000 "map (\<lambda>i. word_of_nat (Suc i)) [0..<4000]"]
  show ?thesis by (simp del: upt_rec_numeral upt_conv_Cons)
qed




text \<open>
  A provider whose buffer is used up reads one period from the stereo PCM, keeps its left
  channel in place, and hands out at most a period of it.
\<close>

theorem get_next_buffer_left_channel:
  assumes "i_pcm (ins s a) = Some p" "frames_in (ins s a) = 0" "i_buffer (ins s a) = Some b"
    and "i_config (ins s a) \<in> {pcm_config_in, pcm_config_in_low_latency}"
    and "pcm_read E (calls s) (Some p) (i_buffer_size (ins s a)) = (0, data)"
    and "length data = 2 * nat (period_size (i_config (ins s a)))" "length data \<le> length b" "0 < fc"
  shows "\<exists>raw s'. get_next_buffer_at E a fc s =
      Inr (0, min fc (period_size (i_config (ins s a))), Some raw, s') \<and>
    take (nat (period_size (i_config (ins s a)))) raw =
      left_channel (nat (period_size (i_config (ins s a)))) data \<and>
    frames_in (ins s' a) = period_size (i_config (ins s a)) \<and> i_buffer (ins s' a) = Some raw"
  using assms by (rule get_next_buffer_refills)

theorem get_next_buffer_left_channel_witness:
  "\<exists>raw s'. get_next_buffer_at demo_env 1 100 demo_recording = Inr (0, 100, Some raw, s')"
proof -
  have "\<exists>raw s'. get_next_buffer_at demo_env 1 100 demo_recording =
      Inr (0, min 100 (period_size (i_config (ins demo_recording 1))), Some raw, s')"
    using get_next_buffer_left_channel [of demo_recording 1 1 "replicate 2048 0" demo_env
        "map (\<lambda>i. word_of_nat (Suc i)) [0..<2048]" 100]
    by (auto simp: demo_recording_def new_stream_in_def pcm_config_in_def audio_consts
        demo_opened_sel(4) [unfolded One_nat_def] simp del: upt_rec_numeral upt_conv_Cons)
  then show ?thesis
    by (simp add: demo_recording_def new_stream_in_def pcm_config_in_def audio_consts
        demo_opened_sel(4) [unfolded One_nat_def])
qed

text \<open>
  Opening an input stream with another channel layout fails without changing anything and
  tells the client the one that is supported; the second try with that answer passes the check.
\<close>

theorem open_input_retry:
  assumes "adev_open_input_stream E config flags s = (- EINVAL, config', p, s')"
  shows "fst (adev_open_input_stream E config' flags s') \<noteq> - EINVAL \<and> p = None \<and> s' = s \<and>
    sample_rate config' = sample_rate config"
  using assms by (rule open_input_negotiation) simp

theorem open_input_retry_witness:
  "fst (adev_open_input_stream demo_env (demo_config\<lparr>channel_mask := 0xC\<rparr>) 0 demo_start) = - EINVAL \<and>
   fst (adev_open_input_stream demo_env demo_config 0 demo_start) \<noteq> - EINVAL"
  using open_input_retry [of demo_env "demo_config\<lparr>channel_mask := 0xC\<rparr>" 0 demo_start demo_config None demo_start]
  by (simp add: adev_open_input_stream_def demo_config_def)



end
