(* ===== verification/Sysfs.thy ===== *)
theory Sysfs
  imports Prelude Ledger
begin

text \<open>
  The file operations the lights and the power HAL use, and the helpers of
  \<open>power/powerhal_utils.cpp\<close> on top of them. The kernel is the parameter
  \<open>file_env\<close>: it answers a call from the history of calls. Buffers are character lists
  of their C size; a C string is what stands before the first NUL.
\<close>

section \<open>The kernel\<close>

type_synonym fd = nat

datatype fcall =
    FOpen string "fd option" | FWrite fd string | FWriteVal fd int | FRead fd nat | FClose "fd option"
  | FAccess string | FPipeFail | FPipeEnd fd
  | FLock | FUnlock | FLog string | FSetProp string string

text \<open>
  \<open>Inl\<close> carries the error number of a call that failed. \<open>f_strerror\<close> is the text
  \<open>strerror_r\<close> writes; \<open>f_prop\<close> the system property, if it is set.
\<close>

record file_env =
  f_open :: "fcall list \<Rightarrow> string \<Rightarrow> nat + fd"
  f_write :: "fcall list \<Rightarrow> fd \<Rightarrow> string \<Rightarrow> nat + nat"
  f_read :: "fcall list \<Rightarrow> fd \<Rightarrow> nat \<Rightarrow> nat + string"
  f_access :: "fcall list \<Rightarrow> string \<Rightarrow> bool"
  f_pipe :: "fcall list \<Rightarrow> (fd \<times> fd) option"
  f_strerror :: "nat \<Rightarrow> string"
  f_prop :: "fcall list \<Rightarrow> string \<Rightarrow> string option"
  f_set_prop :: "fcall list \<Rightarrow> string \<Rightarrow> string \<Rightarrow> int"

fun fd_of :: "nat + fd \<Rightarrow> fd option" where
  "fd_of (Inl e) = None"
| "fd_of (Inr d) = Some d"

section \<open>C strings in buffers\<close>

definition NUL :: char where "NUL = CHR 0x00"

definition cstring :: "char list \<Rightarrow> string res" where
  "cstring buf = (if NUL \<in> set buf then Inr (takeWhile (\<lambda>c. c \<noteq> NUL) buf) else Inl OutOfBounds)"

text \<open>Writing a block at the start of a buffer, by \<open>read\<close> or by \<open>memcpy\<close>.\<close>

definition put_block :: "string \<Rightarrow> char list \<Rightarrow> char list" where
  "put_block data buf = take (length buf) (data @ drop (length data) buf)"

text \<open>\<open>strerror_r\<close> and \<open>snprintf\<close>: at most one character less than the buffer holds, then NUL.\<close>

definition put_text :: "string \<Rightarrow> char list \<Rightarrow> char list" where
  "put_text t buf = put_block (take (length buf - 1) t @ [NUL]) buf"

lemma length_put_block [simp]: "length (put_block data buf) = length buf"
  by (simp add: put_block_def)

lemma length_put_text [simp]: "length (put_text t buf) = length buf"
  by (simp add: put_text_def)

lemma put_block_short: "length data \<le> length buf \<Longrightarrow> put_block data buf = data @ drop (length data) buf"
  by (simp add: put_block_def)

lemma cstring_append:
  assumes "NUL \<notin> set t"
  shows "cstring (t @ NUL # rest) = Inr t"
proof -
  have "takeWhile (\<lambda>c. c \<noteq> NUL) (t @ NUL # rest) = t"
    using assms by (subst takeWhile_append2) auto
  then show ?thesis by (simp add: cstring_def)
qed

lemma cstring_put_text:
  assumes "length t < length buf" "NUL \<notin> set t"
  shows "cstring (put_text t buf) = Inr t"
proof -
  have "put_text t buf = t @ NUL # drop (Suc (length t)) buf"
    using assms(1) by (simp add: put_text_def put_block_short)
  then show ?thesis using cstring_append [OF assms(2)] by simp
qed

section \<open>\<open>powerhal_utils.cpp\<close>\<close>

definition sysfs_write :: "file_env \<Rightarrow> string \<Rightarrow> string \<Rightarrow> fcall list \<Rightarrow> fcall list" where
  "sysfs_write E path s cs =
     (let r = f_open E cs path; cs = FOpen path (fd_of r) # cs in
      case r of
        Inl e \<Rightarrow> FLog path # cs
      | Inr fd \<Rightarrow>
          let w = f_write E cs fd s; cs = FWrite fd s # cs;
              cs = (case w of Inl e \<Rightarrow> FLog path # cs | Inr n \<Rightarrow> cs)
          in FClose (Some fd) # cs)"

text \<open>The buffer afterwards; a failing call leaves the text of the error in it.\<close>

definition sysfs_read :: "file_env \<Rightarrow> string \<Rightarrow> char list \<Rightarrow> fcall list \<Rightarrow> char list \<times> fcall list" where
  "sysfs_read E path s cs =
     (let r = f_open E cs path; cs = FOpen path (fd_of r) # cs in
      case r of
        Inl e \<Rightarrow> (put_text (f_strerror E e) s, FLog path # cs)
      | Inr fd \<Rightarrow>
          let d = f_read E cs fd (length s);
              cs = FClose (Some fd) # FRead fd (length s) # cs
          in case d of
               Inl e \<Rightarrow> (put_text (f_strerror E e) s, FLog path # cs)
             | Inr data \<Rightarrow> (put_block data s, cs))"

definition sysfs_exists :: "file_env \<Rightarrow> string \<Rightarrow> fcall list \<Rightarrow> bool \<times> fcall list" where
  "sysfs_exists E path cs =
     (let r = fd_of (f_open E cs path) in (r \<noteq> None, FClose r # FOpen path r # cs))"

definition PROPERTY_VALUE_MAX :: nat where "PROPERTY_VALUE_MAX = 92"

definition lower :: "char \<Rightarrow> char" where
  "lower c = (if 65 \<le> (of_char c :: nat) \<and> (of_char c :: nat) \<le> 90 then char_of (of_char c + 32 :: nat) else c)"

definition same_nocase :: "string \<Rightarrow> string \<Rightarrow> bool" where
  "same_nocase a b \<longleftrightarrow> map lower a = map lower b"

definition get_property_bool :: "file_env \<Rightarrow> string \<Rightarrow> bool \<Rightarrow> fcall list \<Rightarrow> bool" where
  "get_property_bool E key default_value cs =
     (case f_prop E cs key of
        None \<Rightarrow> default_value
      | Some value \<Rightarrow>
          if value = '''' then default_value
          else if value = ''1'' \<or> same_nocase value ''on'' \<or> same_nocase value ''true'' then True
          else if value = ''0'' \<or> same_nocase value ''off'' \<or> same_nocase value ''false'' then False
          else default_value)"

definition set_property_int :: "file_env \<Rightarrow> string \<Rightarrow> int \<Rightarrow> fcall list \<Rightarrow> fcall list" where
  "set_property_int E key value cs =
     (let val = take (PROPERTY_VALUE_MAX - 1) (show_int value);
          status = f_set_prop E cs key val;
          cs = FSetProp key val # cs
      in if status \<noteq> 0 then FLog key # cs else cs)"

definition sysfs_write_int :: "file_env \<Rightarrow> string \<Rightarrow> int \<Rightarrow> fcall list \<Rightarrow> fcall list" where
  "sysfs_write_int E path value cs =
     sysfs_write E path (take (PROPERTY_VALUE_MAX - 1) (show_int value)) cs"

section \<open>File descriptors\<close>

fun fd_opens :: "fcall \<Rightarrow> fd option" where
  "fd_opens (FOpen path d) = d"
| "fd_opens (FPipeEnd d) = Some d"
| "fd_opens _ = None"

fun fd_closes :: "fcall \<Rightarrow> fd option" where
  "fd_closes (FClose d) = d"
| "fd_closes _ = None"

interpretation files: handle_ledger fd_opens fd_closes
proof
  show "fd_closes c = None" if "fd_opens c = Some h" for c h using that by (cases c) auto
qed

text \<open>The kernel hands out a descriptor that is not in use.\<close>

definition fresh_fds :: "file_env \<Rightarrow> bool" where
  "fresh_fds E \<longleftrightarrow>
     (\<forall>cs path d. f_open E cs path = Inr d \<longrightarrow> d \<notin> open_handles fd_opens fd_closes cs) \<and>
     (\<forall>cs c s. f_pipe E cs = Some (c, s) \<longrightarrow>
        c \<noteq> s \<and> c \<notin> open_handles fd_opens fd_closes cs \<and> s \<notin> open_handles fd_opens fd_closes cs)"

lemma fresh_fdsD: "fresh_fds E \<Longrightarrow> f_open E cs path = Inr d \<Longrightarrow> open_handles fd_opens fd_closes cs - {d} = open_handles fd_opens fd_closes cs"
  by (auto simp: fresh_fds_def)

lemma sysfs_write_fds:
  "fresh_fds E \<Longrightarrow> open_handles fd_opens fd_closes (sysfs_write E path s cs) = open_handles fd_opens fd_closes cs"
  by (auto simp: sysfs_write_def Let_def fresh_fds_def split: sum.split)

lemma sysfs_read_fds:
  "fresh_fds E \<Longrightarrow> open_handles fd_opens fd_closes (snd (sysfs_read E path s cs)) = open_handles fd_opens fd_closes cs"
  by (auto simp: sysfs_read_def Let_def fresh_fds_def split: sum.split)

lemma sysfs_exists_fds:
  "fresh_fds E \<Longrightarrow> open_handles fd_opens fd_closes (snd (sysfs_exists E path cs)) = open_handles fd_opens fd_closes cs"
  by (cases "f_open E cs path") (auto simp: sysfs_exists_def Let_def fresh_fds_def)

lemma length_sysfs_read [simp]: "length (fst (sysfs_read E path s cs)) = length s"
  by (auto simp: sysfs_read_def Let_def split: sum.split)

text \<open>A file whose content fits is read whole.\<close>

lemma sysfs_read_content:
  assumes "f_open E cs path = Inr d" "f_read E (FOpen path (Some d) # cs) d (length s) = Inr data"
    and "length data \<le> length s"
  shows "fst (sysfs_read E path s cs) = data @ drop (length data) s"
  using assms by (simp add: sysfs_read_def put_block_short)

section \<open>A concrete kernel\<close>

definition next_fd :: "fcall list \<Rightarrow> fd" where
  "next_fd cs = Suc (sum_list (map (\<lambda>c. case fd_opens c of None \<Rightarrow> 0 | Some h \<Rightarrow> h) cs))"

text \<open>The path an open descriptor was opened with.\<close>

fun path_of :: "fd \<Rightarrow> fcall list \<Rightarrow> string" where
  "path_of d [] = ''''"
| "path_of d (FOpen p (Some e) # cs) = (if d = e then p else path_of d cs)"
| "path_of d (_ # cs) = path_of d cs"

definition demo_files :: "(string \<Rightarrow> string option) \<Rightarrow> file_env" where
  "demo_files content = \<lparr>
     f_open = (\<lambda>cs p. if content p = None then Inl 2 else Inr (next_fd cs)),
     f_write = (\<lambda>cs d s. Inr (length s)),
     f_read = (\<lambda>cs d n. case content (path_of d cs) of None \<Rightarrow> Inl 5 | Some t \<Rightarrow> Inr (take n t)),
     f_access = (\<lambda>cs p. content p \<noteq> None),
     f_pipe = (\<lambda>cs. Some (Suc (next_fd cs), Suc (Suc (next_fd cs)))),
     f_strerror = (\<lambda>e. ''No such file or directory''),
     f_prop = (\<lambda>cs k. None),
     f_set_prop = (\<lambda>cs k v. 0)\<rparr>"

lemma next_fd_fresh: "next_fd cs + n \<notin> open_handles fd_opens fd_closes cs"
proof
  have "h \<in> open_handles fd_opens fd_closes cs \<Longrightarrow>
      h \<le> sum_list (map (\<lambda>c. case fd_opens c of None \<Rightarrow> 0 | Some h \<Rightarrow> h) cs)" for h
    by (induction cs) (auto split: option.splits)
  moreover assume "next_fd cs + n \<in> open_handles fd_opens fd_closes cs"
  ultimately show False by (fastforce simp: next_fd_def)
qed

lemma demo_files_fresh: "fresh_fds (demo_files content)"
  using next_fd_fresh [of _ 0] next_fd_fresh [of _ 1] next_fd_fresh [of _ 2]
  by (auto simp: fresh_fds_def demo_files_def split: if_splits)

end
