(* ===== verification/Lights.thy ===== *)
theory Lights
  imports Sysfs
begin

unbundle bit_operations_syntax

text \<open>
  \<open>liblights/lights.c\<close>: the backlight. The colour the framework sends becomes a
  brightness, the upper part of the range is compressed to save power, and the value is written to
  the driver as decimal text.
\<close>

section \<open>Operations\<close>

text \<open>
  The state: the static flag of \<open>write_int\<close>, the calls made, and the addresses of the
  device structures that are allocated.
\<close>

record lights_state =
  already_warned :: int
  lcalls :: "fcall list"
  ldevs :: "nat list"

definition log_call :: "fcall \<Rightarrow> lights_state \<Rightarrow> lights_state" where
  "log_call c s = s\<lparr>lcalls := c # lcalls s\<rparr>"

definition write_int :: "file_env \<Rightarrow> string \<Rightarrow> int \<Rightarrow> lights_state \<Rightarrow> int \<times> lights_state" where
  "write_int E path value s =
     (let r = f_open E (lcalls s) path; s = log_call (FOpen path (fd_of r)) s in
      case r of
        Inr fd \<Rightarrow>
          let buffer = show_int value @ [CHR 0x0A];
              amt = f_write E (lcalls s) fd buffer;
              s = log_call (FClose (Some fd)) (log_call (FWrite fd buffer) s)
          in (case amt of Inl e \<Rightarrow> (- int e, s) | Inr n \<Rightarrow> (0, s))
      | Inl e \<Rightarrow>
          let s = (if already_warned s = - 1 then (log_call (FLog path) s)\<lparr>already_warned := 1\<rparr> else s)
          in (- int e, s))"

definition rgb_to_brightness :: "32 word \<Rightarrow> int" where
  "rgb_to_brightness col =
     (let color = col AND 0x00ffffff in
      sint ((77 * (drop_bit 16 color AND 0x00ff) + 150 * (drop_bit 8 color AND 0x00ff)
              + 29 * (color AND 0x00ff)) :: 32 word) div 256)"

text \<open>The tables and the loop that looks the range up.\<close>

definition old_brightness_range_indexs :: "int list" where "old_brightness_range_indexs = [160, 255]"
definition new_brightness_range_indexs :: "int list" where "new_brightness_range_indexs = [160, 182]"
definition range_num :: nat where "range_num = 1"

fun brightness_range :: "int \<Rightarrow> nat list \<Rightarrow> int" where
  "brightness_range b [] = - 1"
| "brightness_range b (i # is) =
     (if old_brightness_range_indexs ! i \<le> b \<and> b \<le> old_brightness_range_indexs ! (i + 1)
      then int i else brightness_range b is)"

definition power_save :: "int \<Rightarrow> int" where
  "power_save brightness =
     (let r = brightness_range brightness [0..<range_num] in
      if r \<ge> 0 then
        let old_min = old_brightness_range_indexs ! nat r;
            old_max = old_brightness_range_indexs ! (nat r + 1);
            new_min = new_brightness_range_indexs ! nat r;
            new_max = new_brightness_range_indexs ! (nat r + 1)
        in new_min + cdiv ((new_max - new_min) * (brightness - old_min)) (old_max - old_min)
      else brightness)"

definition backlight_path :: string where
  "backlight_path = ''/sys/class/backlight/pwm-backlight/brightness''"

definition set_light_backlight :: "file_env \<Rightarrow> 32 word \<Rightarrow> lights_state \<Rightarrow> int \<times> lights_state" where
  "set_light_backlight E color s =
     (let brightness = power_save (rgb_to_brightness color);
          s = log_call FLock s;
          (err, s) = write_int E backlight_path brightness s
      in (err, log_call FUnlock s))"

text \<open>
  The device: \<open>open_lights\<close> dereferences what \<open>malloc\<close> returned, the address
  \<open>mem\<close>; the only function it installs is \<open>set_light_backlight\<close>.
\<close>

datatype light_fun = SET_LIGHT_BACKLIGHT

definition open_lights ::
  "string \<Rightarrow> string \<Rightarrow> nat option \<Rightarrow> lights_state \<Rightarrow> (int \<times> (nat \<times> light_fun) option \<times> lights_state) res" where
  "open_lights LIGHT_ID_BACKLIGHT name mem s =
     (if name = LIGHT_ID_BACKLIGHT
      then case mem of
             None \<Rightarrow> Inl NullDeref
           | Some p \<Rightarrow> Inr (0, Some (p, SET_LIGHT_BACKLIGHT), s\<lparr>ldevs := p # ldevs s\<rparr>)
      else Inr (- EINVAL, None, s))"

definition close_lights :: "nat option \<Rightarrow> lights_state \<Rightarrow> int \<times> lights_state" where
  "close_lights dev s =
     (0, case dev of None \<Rightarrow> s | Some p \<Rightarrow> s\<lparr>ldevs := remove1 p (ldevs s)\<rparr>)"

section \<open>Brightness\<close>

lemma byte_of_word:
  fixes w :: "32 word"
  shows "uint (w AND 255) = uint w mod 256"
proof -
  have "uint (w AND 255) = uint w AND mask 8" by (simp add: unsigned_and_eq mask_eq_exp_minus_1)
  also have "\<dots> = uint w mod 256" by (simp add: take_bit_eq_mod flip: take_bit_eq_mask)
  finally show ?thesis .
qed

lemma uint_drop_bit_32: "uint (drop_bit n (w :: 32 word)) = uint w div 2 ^ n"
proof -
  have "uint w < 2 ^ LENGTH(32)" by (rule uint_lt2p)
  then have "take_bit LENGTH(32) (uint w) = uint w" by (intro take_bit_int_eq_self) simp_all
  then show ?thesis unfolding unsigned_drop_bit_eq by (simp add: drop_bit_eq_div)
qed

text \<open>The weights add up to 256: a grey of level \<open>v\<close> has brightness \<open>v\<close>.\<close>

definition red :: "32 word \<Rightarrow> int" where "red c = uint c div 65536 mod 256"
definition green :: "32 word \<Rightarrow> int" where "green c = uint c div 256 mod 256"
definition blue :: "32 word \<Rightarrow> int" where "blue c = uint c mod 256"

lemma channel_bounds [simp]:
  "0 \<le> red c" "red c \<le> 255" "0 \<le> green c" "green c \<le> 255" "0 \<le> blue c" "blue c \<le> 255"
  by (simp_all add: red_def green_def blue_def zle_diff1_eq flip: zle_add1_eq_le)

lemma digit_of_mod:
  fixes x a b :: int
  assumes "0 < a" "0 \<le> b"
  shows "x mod (a * b) div a = x div a mod b"
  using assms by (simp add: zmod_zmult2_eq [of b x a] div_mult_self4)

lemma masked_channels:
  "uint (drop_bit 16 (c AND 0xffffff) AND 255) = red c"
  "uint (drop_bit 8 (c AND 0xffffff) AND 255) = green c"
  "uint ((c AND 0xffffff) AND 255) = blue (c :: 32 word)"
proof -
  have "uint (c AND 0xffffff) = uint c AND mask 24" by (simp add: unsigned_and_eq mask_eq_exp_minus_1)
  then have m: "uint (c AND 0xffffff) = uint c mod 16777216"
    by (simp add: take_bit_eq_mod flip: take_bit_eq_mask)
  have "uint c mod 16777216 div 65536 = uint c div 65536 mod 256"
    using digit_of_mod [of 65536 256 "uint c"] by simp
  then show "uint (drop_bit 16 (c AND 0xffffff) AND 255) = red c"
    unfolding byte_of_word uint_drop_bit_32 m red_def by simp
  have "uint c mod 16777216 div 256 = uint c div 256 mod 65536"
    using digit_of_mod [of 256 65536 "uint c"] by simp
  then show "uint (drop_bit 8 (c AND 0xffffff) AND 255) = green c"
    unfolding byte_of_word uint_drop_bit_32 m green_def by (simp add: mod_mod_cancel)
  show "uint ((c AND 0xffffff) AND 255) = blue c"
    unfolding byte_of_word m blue_def by (simp add: mod_mod_cancel)
qed

lemma rgb_to_brightness_eq:
  "rgb_to_brightness c = (77 * red c + 150 * green c + 29 * blue c) div 256"
proof -
  let ?r = "drop_bit 16 (c AND 0xffffff) AND 255 :: 32 word"
  let ?g = "drop_bit 8 (c AND 0xffffff) AND 255 :: 32 word"
  let ?b = "(c AND 0xffffff) AND 255 :: 32 word"
  let ?v = "77 * red c + 150 * green c + 29 * blue c"
  have v: "- 2147483648 \<le> ?v" "?v < 2147483648" using channel_bounds [of c] by linarith+
  have "77 * ?r + 150 * ?g + 29 * ?b = word_of_int ?v"
    unfolding masked_channels [symmetric] by simp
  moreover have "sint (word_of_int ?v :: 32 word) = ?v"
    unfolding sint_sbintrunc' by (rule signed_take_bit_int_eq_self) (use v in simp_all)
  ultimately show ?thesis by (simp only: rgb_to_brightness_def Let_def)
qed

lemma rgb_to_brightness_bounds: "0 \<le> rgb_to_brightness c \<and> rgb_to_brightness c \<le> 255"
proof -
  let ?v = "77 * red c + 150 * green c + 29 * blue c"
  have "0 \<le> ?v" "?v \<le> 255 * 256" using channel_bounds [of c] by linarith+
  then have "0 \<le> ?v div 256" "?v div 256 \<le> 255 * 256 div 256"
    by (simp_all add: pos_imp_zdiv_nonneg_iff zdiv_mono1 del: div_mult_self2)
  then show ?thesis by (simp add: rgb_to_brightness_eq)
qed

text \<open>The compression: the identity below 160, and the range up to 255 mapped into 160 to 182.\<close>

lemma power_save_eq:
  assumes "0 \<le> b" "b \<le> 255"
  shows "power_save b = (if b < 160 then b else 160 + 22 * (b - 160) div 95)"
  using assms by (simp add: power_save_def range_num_def old_brightness_range_indexs_def
      new_brightness_range_indexs_def Let_def)

lemma power_save_bounds: "0 \<le> b \<Longrightarrow> b \<le> 255 \<Longrightarrow> 0 \<le> power_save b \<and> power_save b \<le> min b 182"
  by (simp add: power_save_eq) (auto simp: min_def)

lemma power_save_mono: "0 \<le> a \<Longrightarrow> a \<le> b \<Longrightarrow> b \<le> 255 \<Longrightarrow> power_save a \<le> power_save b"
  by (auto simp: power_save_eq intro!: zdiv_mono1)

section \<open>What reaches the driver\<close>

lemma set_light_backlight_calls:
  assumes "f_open E (FLock # lcalls s) backlight_path = Inr fd"
    and "f_write E (FOpen backlight_path (Some fd) # FLock # lcalls s) fd
           (show_int (power_save (rgb_to_brightness color)) @ [CHR 0x0A]) = Inr n"
  shows "\<exists>s'. set_light_backlight E color s = (0, s') \<and>
    lcalls s' = [FUnlock, FClose (Some fd), FWrite fd (show_int (power_save (rgb_to_brightness color)) @ [CHR 0x0A]),
      FOpen backlight_path (Some fd), FLock] @ lcalls s"
  using assms by (simp add: set_light_backlight_def write_int_def log_call_def Let_def)

lemma set_light_backlight_fds:
  assumes "fresh_fds E"
  shows "open_handles fd_opens fd_closes (lcalls (snd (set_light_backlight E color s))) =
    open_handles fd_opens fd_closes (lcalls s)"
proof (cases "f_open E (FLock # lcalls s) backlight_path")
  case (Inl e)
  then show ?thesis by (simp add: set_light_backlight_def write_int_def log_call_def Let_def)
next
  case (Inr d)
  with fresh_fdsD [OF assms this] show ?thesis
    by (simp add: set_light_backlight_def write_int_def log_call_def Let_def split: sum.split)
qed

text \<open>A driver that cannot be opened is reported with its error number, and logged only once.\<close>

lemma write_int_fails:
  assumes "f_open E (lcalls s) path = Inl e"
  shows "fst (write_int E path v s) = - int e \<and> already_warned (snd (write_int E path v s)) \<noteq> - 1 \<and>
    (already_warned s \<noteq> - 1 \<longrightarrow> lcalls (snd (write_int E path v s)) = FOpen path None # lcalls s)"
  using assms by (simp add: write_int_def log_call_def Let_def)

text \<open>
  Closing what \<open>open_lights\<close> returned for the backlight gives the memory back; any other
  name is refused and changes nothing.
\<close>

lemma lights_open_close:
  "\<exists>s'. open_lights B B (Some p) s = Inr (0, Some (p, SET_LIGHT_BACKLIGHT), s') \<and> close_lights (Some p) s' = (0, s)"
  "name \<noteq> B \<Longrightarrow> open_lights B name mem s = Inr (- EINVAL, None, s)"
  by (simp_all add: open_lights_def close_lights_def)

section \<open>Properties\<close>

text \<open>
  C4. What the panel gets: with a driver that accepts the write, \<open>set_light_backlight\<close>
  returns 0 and has made exactly one write, between opening and closing the file and inside the
  lock; the text is a decimal number and a newline, and \<open>atoi\<close> reads it back as the
  weighted sum of the channels, compressed above 160 by the factor 22/95.
\<close>

theorem backlight_written:
  assumes "f_open E (FLock # lcalls s) backlight_path = Inr fd"
    and "f_write E (FOpen backlight_path (Some fd) # FLock # lcalls s) fd
           (show_int (power_save (rgb_to_brightness color)) @ [CHR 0x0A]) = Inr n"
  shows "\<exists>s' text. set_light_backlight E color s = (0, s') \<and>
    lcalls s' = [FUnlock, FClose (Some fd), FWrite fd text, FOpen backlight_path (Some fd), FLock] @ lcalls s \<and>
    last text = CHR 0x0A \<and>
    (let b = (77 * red color + 150 * green color + 29 * blue color) div 256
     in atoi text = (if b < 160 then b else 160 + 22 * (b - 160) div 95))"
proof -
  let ?v = "power_save (rgb_to_brightness color)"
  obtain s' where s': "set_light_backlight E color s = (0, s')"
      "lcalls s' = [FUnlock, FClose (Some fd), FWrite fd (show_int ?v @ [CHR 0x0A]),
         FOpen backlight_path (Some fd), FLock] @ lcalls s"
    using set_light_backlight_calls [OF assms] by blast
  have "0 \<le> ?v" using power_save_bounds rgb_to_brightness_bounds [of color] by blast
  then have "atoi (show_int ?v @ [CHR 0x0A]) = ?v"
    using atoi_show_nat [of "[CHR 0x0A]" "nat ?v"] by (simp add: show_int_def is_digit_def)
  then have "let b = (77 * red color + 150 * green color + 29 * blue color) div 256
      in atoi (show_int ?v @ [CHR 0x0A]) = (if b < 160 then b else 160 + 22 * (b - 160) div 95)"
    using rgb_to_brightness_bounds [of color] by (simp add: power_save_eq flip: rgb_to_brightness_eq)
  with s' show ?thesis by auto
qed

definition demo_lights :: lights_state where
  "demo_lights = \<lparr>already_warned = - 1, lcalls = [], ldevs = []\<rparr>"

theorem backlight_written_witness:
  "\<exists>s' text. set_light_backlight (demo_files (\<lambda>p. Some [])) 0xffffffff demo_lights = (0, s') \<and>
     FWrite 1 text \<in> set (lcalls s') \<and> atoi text = 182"
proof -
  let ?E = "demo_files (\<lambda>p. Some [])"
  have o: "f_open ?E (FLock # lcalls demo_lights) backlight_path = Inr 1"
    by (simp add: demo_files_def demo_lights_def next_fd_def)
  have w: "f_write ?E (FOpen backlight_path (Some 1) # FLock # lcalls demo_lights) 1
      (show_int (power_save (rgb_to_brightness 0xffffffff)) @ [CHR 0x0A]) =
      Inr (length (show_int (power_save (rgb_to_brightness 0xffffffff)) @ [CHR 0x0A]))"
    by (simp add: demo_files_def)
  from backlight_written [OF o w] show ?thesis by (fastforce simp: red_def green_def blue_def)
qed

text \<open>
  C30. The level written stays between 0 and 182, does not exceed the brightness asked for, and a
  colour that is at least as bright in every channel never gives a darker panel.
\<close>

theorem backlight_level:
  assumes "red c \<le> red d" "green c \<le> green d" "blue c \<le> blue d"
  shows "0 \<le> power_save (rgb_to_brightness c) \<and>
    power_save (rgb_to_brightness c) \<le> power_save (rgb_to_brightness d) \<and>
    power_save (rgb_to_brightness d) \<le> min (rgb_to_brightness d) 182"
proof -
  have "rgb_to_brightness c \<le> rgb_to_brightness d"
    unfolding rgb_to_brightness_eq using assms by (intro zdiv_mono1) simp_all
  then show ?thesis
    using power_save_mono power_save_bounds rgb_to_brightness_bounds [of c] rgb_to_brightness_bounds [of d] by blast
qed

theorem backlight_level_witness:
  "power_save (rgb_to_brightness 0x808080) \<le> power_save (rgb_to_brightness 0x80ff80) \<and>
   power_save (rgb_to_brightness 0x80ff80) \<le> 182"
  using backlight_level [of "0x808080" "0x80ff80"] by (simp add: red_def green_def blue_def)

text \<open>
  C34. A driver file that cannot be opened: the error number comes back negated, nothing is written,
  the lock is released, and the failure is logged the first time only.
\<close>

theorem backlight_error:
  assumes "f_open E (FLock # lcalls s) backlight_path = Inl e"
  shows "\<exists>s'. set_light_backlight E color s = (- int e, s') \<and> already_warned s' \<noteq> - 1 \<and>
    lcalls s' = [FUnlock] @ (if already_warned s = - 1 then [FLog backlight_path] else []) @
      [FOpen backlight_path None, FLock] @ lcalls s"
  using assms by (simp add: set_light_backlight_def write_int_def log_call_def Let_def)

theorem backlight_error_witness:
  "\<exists>s'. set_light_backlight (demo_files (\<lambda>p. None)) 0 demo_lights = (- 2, s') \<and>
     lcalls s' = [FUnlock, FLog backlight_path, FOpen backlight_path None, FLock]"
proof -
  have o: "f_open (demo_files (\<lambda>p. None)) (FLock # lcalls demo_lights) backlight_path = Inl 2"
    by (simp add: demo_files_def)
  from backlight_error [OF o, of 0] show ?thesis by (auto simp: demo_lights_def)
qed

end
