(* ===== verification/Keymaster_Types.thy ===== *)
theory Keymaster_Types
  imports Prelude Ledger
begin

unbundle bit_operations_syntax

text \<open>
  The data of \<open>keymaster/keymaster_grouper.cpp\<close>: the constants it takes from
  \<open>pkcs11.h\<close> and \<open>cryptoki.h\<close>, attributes, and the libraries it calls. The
  secure element behind the PKCS#11 interface and OpenSSL are not part of the repository: they are
  the parameter \<open>tee_env\<close>, which answers a call from the history of calls.
\<close>

section \<open>Constants\<close>

definition CK_INVALID_HANDLE :: nat where "CK_INVALID_HANDLE = 0"
definition CKF_RW_SESSION :: mask where "CKF_RW_SESSION = 0x00000002"
definition CKF_SERIAL_SESSION :: mask where "CKF_SERIAL_SESSION = 0x00000004"
definition CKVF_OPEN_SUB_SESSION :: mask where "CKVF_OPEN_SUB_SESSION = 0x00000008"
definition CKO_PUBLIC_KEY :: int where "CKO_PUBLIC_KEY = 0x00000002"
definition CKO_PRIVATE_KEY :: int where "CKO_PRIVATE_KEY = 0x00000003"
definition CKK_RSA :: int where "CKK_RSA = 0x00000000"
definition CKA_CLASS :: int where "CKA_CLASS = 0x00000000"
definition CKA_TOKEN :: int where "CKA_TOKEN = 0x00000001"
definition CKA_KEY_TYPE :: int where "CKA_KEY_TYPE = 0x00000100"
definition CKA_ID :: int where "CKA_ID = 0x00000102"
definition CKA_ENCRYPT :: int where "CKA_ENCRYPT = 0x00000104"
definition CKA_DECRYPT :: int where "CKA_DECRYPT = 0x00000105"
definition CKA_SIGN :: int where "CKA_SIGN = 0x00000108"
definition CKA_VERIFY :: int where "CKA_VERIFY = 0x0000010A"
definition CKA_MODULUS :: int where "CKA_MODULUS = 0x00000120"
definition CKA_MODULUS_BITS :: int where "CKA_MODULUS_BITS = 0x00000121"
definition CKA_PUBLIC_EXPONENT :: int where "CKA_PUBLIC_EXPONENT = 0x00000122"
definition CKA_PRIVATE_EXPONENT :: int where "CKA_PRIVATE_EXPONENT = 0x00000123"
definition CKA_PRIME_1 :: int where "CKA_PRIME_1 = 0x00000124"
definition CKA_PRIME_2 :: int where "CKA_PRIME_2 = 0x00000125"
definition CKA_EXPONENT_1 :: int where "CKA_EXPONENT_1 = 0x00000126"
definition CKA_EXPONENT_2 :: int where "CKA_EXPONENT_2 = 0x00000127"
definition CKA_COEFFICIENT :: int where "CKA_COEFFICIENT = 0x00000128"
definition CKM_RSA_PKCS_KEY_PAIR_GEN :: int where "CKM_RSA_PKCS_KEY_PAIR_GEN = 0x00000000"
definition CKM_RSA_X_509 :: int where "CKM_RSA_X_509 = 0x00000003"
definition CKR_OK :: int where "CKR_OK = 0x00000000"
definition CKV_TOKEN_USER :: int where "CKV_TOKEN_USER = 0x00004004"

definition ID_LENGTH :: nat where "ID_LENGTH = 32"
definition KEY_VERSION :: int where "KEY_VERSION = 1"

lemmas ck_consts = CK_INVALID_HANDLE_def CKR_OK_def ID_LENGTH_def KEY_VERSION_def
  CKO_PUBLIC_KEY_def CKO_PRIVATE_KEY_def

section \<open>Attributes and calls\<close>

type_synonym session = nat
type_synonym object = nat

datatype attr_value = BytesV "u8 list" | BoolV bool | ULongV int

type_synonym ck_attribute = "int \<times> attr_value"

definition set_attribute :: "int \<Rightarrow> attr_value \<Rightarrow> ck_attribute" where
  "set_attribute type pValue = (type, pValue)"

text \<open>
  \<open>GotObject\<close> records that an \<open>ObjectHandle\<close> takes charge of a handle; the other
  events are calls of the library. A session that could not be opened is \<open>None\<close>. The calls
  that close, and finalizing, carry the element's answer, which the code does not look at.
\<close>

datatype tcall =
    CInitialize | CFinalize int | CGetInfo
  | COpenSession mask "session option" | CCloseSession session int
  | GotObject object | CCloseObjectHandle session object int
  | CFindObjectsInit session "ck_attribute list" | CFindObjects session | CFindObjectsFinal session
  | CGenerateKeyPair session int "ck_attribute list" "ck_attribute list"
  | CCreateObject session "ck_attribute list" int
  | CGetAttributeValue session object "int list"
  | CDestroyObject session object int
  | CSignInit session int object | CSign session "u8 list"
  | CVerifyInit session int object | CVerify session "u8 list" "u8 list"

text \<open>An RSA key of OpenSSL; the last five numbers may be missing.\<close>

record rsa_key =
  rsa_n :: nat
  rsa_e :: nat
  rsa_d :: nat
  rsa_p :: "nat option"
  rsa_q :: "nat option"
  rsa_dmp1 :: "nat option"
  rsa_dmq1 :: "nat option"
  rsa_iqmp :: "nat option"

record openssl =
  RAND_pseudo_bytes :: "tcall list \<Rightarrow> nat \<Rightarrow> u8 list option"
  d2i_PKCS8_PRIV_KEY_INFO :: "u8 list \<Rightarrow> nat option"
  EVP_PKCS82PKEY :: "nat \<Rightarrow> nat option"
  EVP_PKEY_is_RSA :: "nat \<Rightarrow> bool"
  EVP_PKEY_get1_RSA :: "nat \<Rightarrow> rsa_key option"
  BN_num_bytes :: "nat \<Rightarrow> nat"
  BN_bn2bin :: "nat \<Rightarrow> u8 list"
  BN_bin2bn :: "u8 list \<Rightarrow> nat option"
  RSA_new :: "tcall list \<Rightarrow> bool"
  EVP_PKEY_new :: "tcall list \<Rightarrow> bool"
  EVP_PKEY_assign_RSA :: "tcall list \<Rightarrow> bool"
  i2d_PUBKEY :: "nat \<Rightarrow> nat \<Rightarrow> int \<times> u8 list"
  x509_malloc :: "tcall list \<Rightarrow> int \<Rightarrow> bool"

record tee_env = openssl +
  TYPE_RSA :: int
  DIGEST_NONE :: int
  PADDING_NONE :: int
  KEYSTORE_KEYMASTER :: string
  C_Initialize :: "tcall list \<Rightarrow> int"
  C_GetInfo :: "tcall list \<Rightarrow> int"
  C_Finalize :: "tcall list \<Rightarrow> int"
  C_OpenSession :: "tcall list \<Rightarrow> mask \<Rightarrow> session \<Rightarrow> int \<times> session"
  C_CloseSession :: "tcall list \<Rightarrow> session \<Rightarrow> int"
  C_CloseObjectHandle :: "tcall list \<Rightarrow> session \<Rightarrow> object \<Rightarrow> int"
  C_FindObjectsInit :: "tcall list \<Rightarrow> session \<Rightarrow> ck_attribute list \<Rightarrow> int"
  C_FindObjects :: "tcall list \<Rightarrow> session \<Rightarrow> int \<times> object \<times> int"
  C_GenerateKeyPair :: "tcall list \<Rightarrow> session \<Rightarrow> ck_attribute list \<Rightarrow> ck_attribute list \<Rightarrow> int \<times> object \<times> object"
  C_CreateObject :: "tcall list \<Rightarrow> session \<Rightarrow> ck_attribute list \<Rightarrow> int \<times> object"
  C_AttributeSizes :: "tcall list \<Rightarrow> session \<Rightarrow> object \<Rightarrow> int \<times> nat \<times> nat"
  C_AttributeValues :: "tcall list \<Rightarrow> session \<Rightarrow> object \<Rightarrow> nat \<Rightarrow> nat \<Rightarrow> int \<times> u8 list \<times> u8 list"
  C_DestroyObject :: "tcall list \<Rightarrow> session \<Rightarrow> object \<Rightarrow> int"
  C_SignInit :: "tcall list \<Rightarrow> session \<Rightarrow> object \<Rightarrow> int"
  C_Sign :: "tcall list \<Rightarrow> session \<Rightarrow> u8 list \<Rightarrow> int \<times> u8 list"
  C_VerifyInit :: "tcall list \<Rightarrow> session \<Rightarrow> object \<Rightarrow> int"
  C_Verify :: "tcall list \<Rightarrow> session \<Rightarrow> u8 list \<Rightarrow> u8 list \<Rightarrow> int"

section \<open>Scoped sessions and handles\<close>

text \<open>
  The classes \<open>CryptoSession\<close> and \<open>ObjectHandle\<close>: their constructors and
  destructors. The destructor runs at every return of the function that owns the object. A session
  that cannot be opened makes the constructor finalize the library; the operation goes on with an
  invalid session.
\<close>

definition finalize :: "tee_env \<Rightarrow> tcall list \<Rightarrow> tcall list" where
  "finalize E cs = CFinalize (C_Finalize E cs) # cs"

definition crypto_session :: "tee_env \<Rightarrow> session \<Rightarrow> tcall list \<Rightarrow> session \<times> tcall list" where
  "crypto_session E masterHandle cs =
     (let flags = CKF_SERIAL_SESSION OR CKF_RW_SESSION OR CKVF_OPEN_SUB_SESSION;
          (rv, sub) = C_OpenSession E cs flags masterHandle
      in if rv \<noteq> CKR_OK \<or> sub = CK_INVALID_HANDLE
         then (CK_INVALID_HANDLE, finalize E (COpenSession flags None # cs))
         else (sub, COpenSession flags (Some sub) # cs))"

definition crypto_session_end :: "tee_env \<Rightarrow> session \<Rightarrow> tcall list \<Rightarrow> tcall list" where
  "crypto_session_end E sub cs =
     (if sub \<noteq> CK_INVALID_HANDLE then CCloseSession sub (C_CloseSession E cs sub) # cs else cs)"

definition object_handle :: "object \<Rightarrow> tcall list \<Rightarrow> tcall list" where
  "object_handle h cs = (if h \<noteq> CK_INVALID_HANDLE then GotObject h # cs else cs)"

definition object_handle_end :: "tee_env \<Rightarrow> session \<Rightarrow> object \<Rightarrow> tcall list \<Rightarrow> tcall list" where
  "object_handle_end E primary h cs =
     (if h \<noteq> CK_INVALID_HANDLE then CCloseObjectHandle primary h (C_CloseObjectHandle E cs primary h) # cs else cs)"

text \<open>The destructors of a session and of two handles declared after it, in their order.\<close>

definition scope_end :: "tee_env \<Rightarrow> session \<Rightarrow> session \<Rightarrow> object \<Rightarrow> object \<Rightarrow> tcall list \<Rightarrow> tcall list" where
  "scope_end E primary sub pub priv cs =
     crypto_session_end E sub (object_handle_end E primary pub (object_handle_end E primary priv cs))"

section \<open>Ledgers\<close>

fun sess_opens :: "tcall \<Rightarrow> session option" where
  "sess_opens (COpenSession fl h) = h"
| "sess_opens _ = None"

fun sess_closes :: "tcall \<Rightarrow> session option" where
  "sess_closes (CCloseSession h rv) = (if rv = CKR_OK then Some h else None)"
| "sess_closes _ = None"

fun obj_opens :: "tcall \<Rightarrow> object option" where
  "obj_opens (GotObject h) = Some h"
| "obj_opens _ = None"

fun obj_closes :: "tcall \<Rightarrow> object option" where
  "obj_closes (CCloseObjectHandle p h rv) = (if rv = CKR_OK then Some h else None)"
| "obj_closes _ = None"

interpretation sess: handle_ledger sess_opens sess_closes
proof
  show "sess_closes c = None" if "sess_opens c = Some h" for c h using that by (cases c) auto
qed

interpretation obj: handle_ledger obj_opens obj_closes
proof
  show "obj_closes c = None" if "obj_opens c = Some h" for c h using that by (cases c) auto
qed

text \<open>
  What is open after a history of calls: a close that is refused closes nothing, and finalizing the
  library, when it succeeds, ends every session and every handle of the process.
\<close>

definition since_finalize :: "tcall list \<Rightarrow> tcall list" where
  "since_finalize cs = takeWhile (\<lambda>c. c \<noteq> CFinalize CKR_OK) cs"

definition live_sessions :: "tcall list \<Rightarrow> session set" where
  "live_sessions cs = sess.live (since_finalize cs)"

definition live_objects :: "tcall list \<Rightarrow> object set" where
  "live_objects cs = obj.live (since_finalize cs)"

lemma live_nil [simp]: "live_sessions [] = {}" "live_objects [] = {}"
  by (simp_all add: live_sessions_def live_objects_def since_finalize_def)

lemma live_finalize [simp]:
  "live_sessions (CFinalize rv # cs) = (if rv = CKR_OK then {} else live_sessions cs)"
  "live_objects (CFinalize rv # cs) = (if rv = CKR_OK then {} else live_objects cs)"
  by (simp_all add: live_sessions_def live_objects_def since_finalize_def)

lemma live_session_calls [simp]:
  "live_sessions (COpenSession fl s # cs) = live_sessions cs \<union> set_option s"
  "live_sessions (CCloseSession t rv # cs) = (if rv = CKR_OK then live_sessions cs - {t} else live_sessions cs)"
  "live_objects (COpenSession fl s # cs) = live_objects cs"
  "live_objects (CCloseSession t rv # cs) = live_objects cs"
  by (cases s) (simp_all add: live_sessions_def live_objects_def since_finalize_def)

lemma live_object_calls [simp]:
  "live_objects (GotObject h # cs) = insert h (live_objects cs)"
  "live_objects (CCloseObjectHandle p h rv # cs) = (if rv = CKR_OK then live_objects cs - {h} else live_objects cs)"
  "live_sessions (GotObject h # cs) = live_sessions cs"
  "live_sessions (CCloseObjectHandle p h rv # cs) = live_sessions cs"
  by (simp_all add: live_sessions_def live_objects_def since_finalize_def)

text \<open>The secure element hands out handles that are not in use.\<close>

definition fresh_tee :: "tee_env \<Rightarrow> bool" where
  "fresh_tee E \<longleftrightarrow>
     (\<forall>cs fl m h. C_OpenSession E cs fl m = (CKR_OK, h) \<longrightarrow> h \<notin> live_sessions cs) \<and>
     (\<forall>cs s h n. C_FindObjects E cs s = (CKR_OK, h, n) \<longrightarrow> h \<notin> live_objects cs) \<and>
     (\<forall>cs s a b g h. C_GenerateKeyPair E cs s a b = (CKR_OK, g, h) \<longrightarrow>
        g \<notin> live_objects cs \<and> h \<notin> live_objects cs) \<and>
     (\<forall>cs s a h. C_CreateObject E cs s a = (CKR_OK, h) \<longrightarrow> h \<notin> live_objects cs)"

end
