(* ===== verification/Keymaster.thy ===== *)
theory Keymaster
  imports Keymaster_Types
begin

unbundle bit_operations_syntax

text \<open>
  The operations of \<open>keymaster_grouper.cpp\<close>: key blobs, the lookup of key objects, and
  the six functions of the keymaster table with opening and closing the device. An operation returns
  its C return value, what it stored through its output pointers, and the history of library calls;
  where the code can follow a null pointer it returns a fault.
\<close>

section \<open>Byte arrays\<close>

definition bignum_to_array :: "tee_env \<Rightarrow> nat \<Rightarrow> u8 list option" where
  "bignum_to_array E bn =
     (let bignumSize = BN_num_bytes E bn; bytes = BN_bn2bin E bn
      in if length bytes \<noteq> bignumSize then None else Some bytes)"

definition generate_random_id :: "tee_env \<Rightarrow> tcall list \<Rightarrow> u8 list option" where
  "generate_random_id E cs = RAND_pseudo_bytes E cs ID_LENGTH"

text \<open>The 64-bit exponent as bytes, filled from the end: \<^verbatim>\<open>publicExponent[offset--] = (exp >> (i * 8)) & 0xFF\<close>.\<close>

definition exponent_bytes :: "int \<Rightarrow> u8 list" where
  "exponent_bytes e = foldl (\<lambda>a i. a[7 - i := word_of_int (u64 e div 2 ^ (i * 8))]) (replicate 8 0) [0..<8]"

section \<open>Key blobs\<close>

text \<open>The version in four bytes, most significant first, then the identifier.\<close>

definition keyblob_save :: "u8 list \<Rightarrow> int \<times> u8 list" where
  "keyblob_save objId = (0, be_bytes 4 KEY_VERSION @ objId)"

text \<open>The attributes of a search, and those asked for of a public key.\<close>

abbreviation find_template :: "u8 list \<Rightarrow> int \<Rightarrow> ck_attribute list" where
  "find_template obj_id obj_class \<equiv> [(CKA_ID, BytesV obj_id), (CKA_CLASS, ULongV obj_class)]"

abbreviation public_query :: "int list" where
  "public_query \<equiv> [CKA_MODULUS, CKA_PUBLIC_EXPONENT]"

definition find_single_object ::
  "tee_env \<Rightarrow> u8 list \<Rightarrow> int \<Rightarrow> session \<Rightarrow> tcall list \<Rightarrow> int \<times> object \<times> tcall list" where
  "find_single_object E obj_id obj_class s cs =
     (let attributes = find_template obj_id obj_class;
          rv = C_FindObjectsInit E cs s attributes;
          cs = CFindObjectsInit s attributes # cs
      in if rv \<noteq> CKR_OK then (- 1, CK_INVALID_HANDLE, cs)
         else
           let (rv, h, n) = C_FindObjects E cs s;
               cs = CFindObjects s # cs
           in if rv \<noteq> CKR_OK \<or> n \<noteq> 1 then (- 1, CK_INVALID_HANDLE, CFindObjectsFinal s # cs)
              else (0, h, object_handle h (CFindObjectsFinal s # cs)))"

text \<open>The loop \<^verbatim>\<open>keyVersion = (keyVersion << 8) | *p++\<close> on a 32-bit value.\<close>

definition blob_version :: "u8 list \<Rightarrow> 32 word" where
  "blob_version bs = foldl (\<lambda>v b. push_bit 8 v OR ucast b) 0 (take 4 bs)"

definition keyblob_restore ::
  "tee_env \<Rightarrow> session \<Rightarrow> u8 list option \<Rightarrow> tcall list \<Rightarrow> int \<times> object \<times> object \<times> tcall list" where
  "keyblob_restore E s keyBlob cs =
     (case keyBlob of
        None \<Rightarrow> (- 1, CK_INVALID_HANDLE, CK_INVALID_HANDLE, cs)
      | Some blob \<Rightarrow>
          if length blob < 4 + ID_LENGTH then (- 1, CK_INVALID_HANDLE, CK_INVALID_HANDLE, cs)
          else if blob_version blob \<noteq> 1 then (- 1, CK_INVALID_HANDLE, CK_INVALID_HANDLE, cs)
          else
            let p = take ID_LENGTH (drop 4 blob);
                (r, pub, cs) = find_single_object E p CKO_PUBLIC_KEY s cs
            in if r \<noteq> 0 then (1, pub, CK_INVALID_HANDLE, cs)
               else
                 let (r, priv, cs) = find_single_object E p CKO_PRIVATE_KEY s cs
                 in (if r \<noteq> 0 then 1 else 0, pub, priv, cs))"

section \<open>Generating a key pair\<close>

record rsa_keygen_params =
  modulus_size :: int
  public_exponent :: int

definition gen_public_template :: "u8 list \<Rightarrow> rsa_keygen_params \<Rightarrow> ck_attribute list" where
  "gen_public_template objId p =
     [(CKA_ID, BytesV objId), (CKA_TOKEN, BoolV True), (CKA_ENCRYPT, BoolV True), (CKA_VERIFY, BoolV True),
      (CKA_MODULUS_BITS, ULongV (u32 (modulus_size p))),
      (CKA_PUBLIC_EXPONENT, BytesV (exponent_bytes (public_exponent p)))]"

definition gen_private_template :: "u8 list \<Rightarrow> ck_attribute list" where
  "gen_private_template objId =
     [(CKA_ID, BytesV objId), (CKA_TOKEN, BoolV True), (CKA_DECRYPT, BoolV True), (CKA_SIGN, BoolV True)]"

definition tee_generate_keypair ::
  "tee_env \<Rightarrow> session \<Rightarrow> int \<Rightarrow> rsa_keygen_params option \<Rightarrow> tcall list \<Rightarrow> int \<times> u8 list option \<times> tcall list" where
  "tee_generate_keypair E context type key_params cs =
     (if type \<noteq> TYPE_RSA E then (- 1, None, cs)
      else case key_params of
        None \<Rightarrow> (- 1, None, cs)
      | Some rsa_params \<Rightarrow>
          (case generate_random_id E cs of
             None \<Rightarrow> (- 1, None, cs)
           | Some objId \<Rightarrow>
               let pubT = gen_public_template objId rsa_params;
                   privT = gen_private_template objId;
                   (s, cs) = crypto_session E context cs;
                   (rv, hPub, hPriv) = C_GenerateKeyPair E cs s pubT privT;
                   cs = CGenerateKeyPair s CKM_RSA_PKCS_KEY_PAIR_GEN pubT privT # cs
               in if rv \<noteq> CKR_OK then (- 1, None, crypto_session_end E s cs)
                  else
                    let cs = object_handle hPriv (object_handle hPub cs);
                        (r, blob) = keyblob_save objId
                    in (r, Some blob, scope_end E context s hPub hPriv cs)))"

section \<open>Importing a key pair\<close>

definition import_public_template :: "u8 list \<Rightarrow> u8 list \<Rightarrow> u8 list \<Rightarrow> ck_attribute list" where
  "import_public_template objId modulus exponent =
     [(CKA_ID, BytesV objId), (CKA_TOKEN, BoolV True), (CKA_CLASS, ULongV CKO_PUBLIC_KEY),
      (CKA_KEY_TYPE, ULongV CKK_RSA), (CKA_ENCRYPT, BoolV True), (CKA_VERIFY, BoolV True),
      (CKA_MODULUS, BytesV modulus), (CKA_PUBLIC_EXPONENT, BytesV exponent)]"

definition import_private_template :: "u8 list \<Rightarrow> u8 list \<Rightarrow> u8 list \<Rightarrow> u8 list \<Rightarrow> ck_attribute list" where
  "import_private_template objId modulus exponent privateExponent =
     [set_attribute CKA_ID (BytesV objId), set_attribute CKA_TOKEN (BoolV True),
      set_attribute CKA_CLASS (ULongV CKO_PRIVATE_KEY), set_attribute CKA_KEY_TYPE (ULongV CKK_RSA),
      set_attribute CKA_DECRYPT (BoolV True), set_attribute CKA_SIGN (BoolV True),
      set_attribute CKA_MODULUS (BytesV modulus), set_attribute CKA_PUBLIC_EXPONENT (BytesV exponent),
      set_attribute CKA_PRIVATE_EXPONENT (BytesV privateExponent)]"

text \<open>
  The primes, prime exponents and the coefficient, when the key has all of them. The code tests
  \<^verbatim>\<open>prime1->get()\<close>, which follows the pointer it means to test.
\<close>

definition extra_numbers :: "rsa_key \<Rightarrow> (int \<times> nat) list" where
  "extra_numbers rsa =
     (case (rsa_p rsa, rsa_q rsa, rsa_dmp1 rsa, rsa_dmq1 rsa, rsa_iqmp rsa) of
        (Some p, Some q, Some dmp1, Some dmq1, Some iqmp) \<Rightarrow>
          [(CKA_PRIME_1, p), (CKA_PRIME_2, q), (CKA_EXPONENT_1, dmp1), (CKA_EXPONENT_2, dmq1),
           (CKA_COEFFICIENT, iqmp)]
      | _ \<Rightarrow> [])"

fun extra_attributes :: "tee_env \<Rightarrow> (int \<times> nat) list \<Rightarrow> ck_attribute list res" where
  "extra_attributes E [] = Inr []"
| "extra_attributes E ((t, bn) # ns) =
     (case bignum_to_array E bn of
        None \<Rightarrow> Inl NullDeref
      | Some bytes \<Rightarrow> bind_res (extra_attributes E ns) (\<lambda>as. Inr (set_attribute t (BytesV bytes) # as)))"

text \<open>
  The second half of an import: the private key object, under the identifier of the public one.
  What is returned is the blob; the scopes of the session and of both handles end here.
\<close>

definition import_private ::
  "tee_env \<Rightarrow> session \<Rightarrow> session \<Rightarrow> object \<Rightarrow> rsa_key \<Rightarrow> u8 list \<Rightarrow> u8 list \<Rightarrow> u8 list \<Rightarrow> tcall list
   \<Rightarrow> (int \<times> u8 list option \<times> tcall list) res" where
  "import_private E context s hPub rsa objId modulus publicExponent cs =
     (case bignum_to_array E (rsa_d rsa) of
        None \<Rightarrow> Inr (- 1, None, scope_end E context s hPub CK_INVALID_HANDLE cs)
      | Some privateExponent \<Rightarrow>
          bind_res (extra_attributes E (extra_numbers rsa)) (\<lambda>extra.
            let privT = import_private_template objId modulus publicExponent privateExponent @ extra;
                (rv, hPriv) = C_CreateObject E cs s privT;
                cs = CCreateObject s privT rv # cs
            in if rv \<noteq> CKR_OK
               then Inr (- 1, None, scope_end E context s hPub CK_INVALID_HANDLE cs)
               else
                 let cs = object_handle hPriv cs;
                     (r, blob) = keyblob_save objId
                 in Inr (r, Some blob, scope_end E context s hPub hPriv cs)))"

text \<open>From the decoded key on: both objects are created under one identifier.\<close>

definition import_rsa ::
  "tee_env \<Rightarrow> session \<Rightarrow> rsa_key \<Rightarrow> tcall list \<Rightarrow> (int \<times> u8 list option \<times> tcall list) res" where
  "import_rsa E context rsa cs =
     (case (bignum_to_array E (rsa_n rsa), bignum_to_array E (rsa_e rsa), generate_random_id E cs) of
        (Some modulus, Some publicExponent, Some objId) \<Rightarrow>
          let pubT = import_public_template objId modulus publicExponent;
              (s, cs) = crypto_session E context cs;
              (rv, hPub) = C_CreateObject E cs s pubT;
              cs = CCreateObject s pubT rv # cs
          in if rv \<noteq> CKR_OK then Inr (- 1, None, crypto_session_end E s cs)
             else import_private E context s hPub rsa objId modulus publicExponent (object_handle hPub cs)
      | _ \<Rightarrow> Inr (- 1, None, cs))"

definition tee_import_keypair ::
  "tee_env \<Rightarrow> session \<Rightarrow> u8 list option \<Rightarrow> tcall list \<Rightarrow> (int \<times> u8 list option \<times> tcall list) res" where
  "tee_import_keypair E context key cs =
     (case key of
        None \<Rightarrow> Inr (- 1, None, cs)
      | Some k \<Rightarrow>
          (case d2i_PKCS8_PRIV_KEY_INFO E k of
             None \<Rightarrow> Inr (- 1, None, cs)
           | Some pkcs8 \<Rightarrow>
               (case EVP_PKCS82PKEY E pkcs8 of
                  None \<Rightarrow> Inr (- 1, None, cs)
                | Some pkey \<Rightarrow>
                    if \<not> EVP_PKEY_is_RSA E pkey then Inr (- 1, None, cs)
                    else case EVP_PKEY_get1_RSA E pkey of
                           None \<Rightarrow> Inr (- 1, None, cs)
                         | Some rsa \<Rightarrow> import_rsa E context rsa cs)))"

section \<open>The public key of a pair\<close>

text \<open>From the two byte strings of the public key to the encoding the caller gets.\<close>

definition encode_public :: "tee_env \<Rightarrow> u8 list \<Rightarrow> u8 list \<Rightarrow> tcall list \<Rightarrow> int \<times> u8 list option" where
  "encode_public E modulus exponent cs =
     (if \<not> RSA_new E cs then (- 1, None)
      else case (BN_bin2bn E modulus, BN_bin2bn E exponent) of
        (Some n, Some e) \<Rightarrow>
          if \<not> EVP_PKEY_new E cs then (- 1, None)
          else if \<not> EVP_PKEY_assign_RSA E cs then (- 1, None)
          else
            let (len, der) = i2d_PUBKEY E n e in
            if len \<le> 0 then (- 1, None)
            else if \<not> x509_malloc E cs len then (- 1, None)
            else if int (length der) \<noteq> len then (- 1, None)
            else (0, Some der)
      | _ \<Rightarrow> (- 1, None))"

definition public_attributes ::
  "tee_env \<Rightarrow> session \<Rightarrow> object \<Rightarrow> tcall list \<Rightarrow> int \<times> u8 list option \<times> tcall list" where
  "public_attributes E s pub cs =
     (let attrs = public_query;
          (rv, n0, n1) = C_AttributeSizes E cs s pub;
          cs = CGetAttributeValue s pub attrs # cs
      in if rv \<noteq> CKR_OK then (- 1, None, cs)
         else
           let (rv, modulus, exponent) = C_AttributeValues E cs s pub n0 n1;
               cs = CGetAttributeValue s pub attrs # cs
           in if rv \<noteq> CKR_OK then (- 1, None, cs)
              else let (r, der) = encode_public E modulus exponent cs in (r, der, cs))"

definition tee_get_keypair_public ::
  "tee_env \<Rightarrow> session \<Rightarrow> u8 list option \<Rightarrow> bool \<Rightarrow> tcall list \<Rightarrow> int \<times> u8 list option \<times> tcall list" where
  "tee_get_keypair_public E context key_blob dst_ok cs =
     (let (s, cs) = crypto_session E context cs;
          (r, pub, priv, cs) = keyblob_restore E s key_blob cs;
          (r, der, cs) = (if r \<noteq> 0 then (- 1, None, cs)
                          else if \<not> dst_ok then (- 1, None, cs)
                          else public_attributes E s pub cs)
      in (r, der, scope_end E context s pub priv cs))"

section \<open>Deleting a pair\<close>

definition destroy_pair :: "tee_env \<Rightarrow> session \<Rightarrow> object \<Rightarrow> object \<Rightarrow> tcall list \<Rightarrow> int \<times> tcall list" where
  "destroy_pair E s pub priv cs =
     (let rv = C_DestroyObject E cs s priv;
          cs = CDestroyObject s priv rv # cs
      in if rv \<noteq> CKR_OK then (- 1, cs)
         else
           let rv = C_DestroyObject E cs s pub;
               cs = CDestroyObject s pub rv # cs
           in if rv \<noteq> CKR_OK then (- 1, cs) else (0, cs))"

definition tee_delete_keypair ::
  "tee_env \<Rightarrow> session \<Rightarrow> u8 list option \<Rightarrow> tcall list \<Rightarrow> int \<times> tcall list" where
  "tee_delete_keypair E context key_blob cs =
     (let (s, cs) = crypto_session E context cs;
          (r, pub, priv, cs) = keyblob_restore E s key_blob cs;
          (r, cs) = (if r \<noteq> 0 then (- 1, cs) else destroy_pair E s pub priv cs)
      in (r, scope_end E context s pub priv cs))"

section \<open>Signing and verifying\<close>

record rsa_sign_params =
  digest_type :: int
  padding_type :: int

text \<open>\<open>C_Sign\<close> is given a buffer of 1024 bytes; what it returns is copied.\<close>

definition sign_with ::
  "tee_env \<Rightarrow> session \<Rightarrow> object \<Rightarrow> u8 list \<Rightarrow> tcall list \<Rightarrow> int \<times> u8 list option \<times> tcall list" where
  "sign_with E s priv data cs =
     (let rv = C_SignInit E cs s priv;
          cs = CSignInit s CKM_RSA_X_509 priv # cs
      in if rv \<noteq> CKR_OK then (- 1, None, cs)
         else
           let (rv, sig) = C_Sign E cs s data;
               cs = CSign s data # cs
           in if rv \<noteq> CKR_OK then (- 1, None, cs) else (0, Some sig, cs))"

definition tee_sign_data ::
  "tee_env \<Rightarrow> session \<Rightarrow> rsa_sign_params option \<Rightarrow> u8 list option \<Rightarrow> u8 list \<Rightarrow> tcall list
   \<Rightarrow> int \<times> u8 list option \<times> tcall list" where
  "tee_sign_data E context params key_blob data cs =
     (case params of
        None \<Rightarrow> (- 1, None, cs)
      | Some p \<Rightarrow>
          let (s, cs) = crypto_session E context cs;
              (r, pub, priv, cs) = keyblob_restore E s key_blob cs;
              (r, sig, cs) = (if r \<noteq> 0 then (- 1, None, cs)
                              else if digest_type p \<noteq> DIGEST_NONE E then (- 1, None, cs)
                              else if padding_type p \<noteq> PADDING_NONE E then (- 1, None, cs)
                              else sign_with E s priv data cs)
          in (r, sig, scope_end E context s pub priv cs))"

definition verify_with ::
  "tee_env \<Rightarrow> session \<Rightarrow> object \<Rightarrow> u8 list \<Rightarrow> u8 list \<Rightarrow> tcall list \<Rightarrow> int \<times> tcall list" where
  "verify_with E s pub signedData signature cs =
     (let rv = C_VerifyInit E cs s pub;
          cs = CVerifyInit s CKM_RSA_X_509 pub # cs
      in if rv \<noteq> CKR_OK then (- 1, cs)
         else
           let rv = C_Verify E cs s signedData signature;
               cs = CVerify s signedData signature # cs
           in if rv \<noteq> CKR_OK then (- 1, cs) else (0, cs))"

definition tee_verify_data ::
  "tee_env \<Rightarrow> session \<Rightarrow> rsa_sign_params option \<Rightarrow> u8 list option \<Rightarrow> u8 list \<Rightarrow> u8 list \<Rightarrow> tcall list
   \<Rightarrow> int \<times> tcall list" where
  "tee_verify_data E context params keyBlob signedData signature cs =
     (case params of
        None \<Rightarrow> (- 1, cs)
      | Some p \<Rightarrow>
          let (s, cs) = crypto_session E context cs;
              (r, pub, priv, cs) = keyblob_restore E s keyBlob cs;
              (r, cs) = (if r \<noteq> 0 then (- 1, cs)
                         else if digest_type p \<noteq> DIGEST_NONE E then (- 1, cs)
                         else if padding_type p \<noteq> PADDING_NONE E then (- 1, cs)
                         else verify_with E s pub signedData signature cs)
          in (r, scope_end E context s pub priv cs))"

section \<open>The device\<close>

text \<open>A device is its context, the handle of the primary session; \<open>None\<close> is the null pointer.\<close>

definition tee_close :: "tee_env \<Rightarrow> session option \<Rightarrow> tcall list \<Rightarrow> int \<times> tcall list" where
  "tee_close E dev cs =
     (let cs = (case dev of
                  None \<Rightarrow> cs
                | Some h \<Rightarrow> if h \<noteq> CK_INVALID_HANDLE then CCloseSession h (C_CloseSession E cs h) # cs else cs)
      in (0, finalize E cs))"

definition tee_open :: "tee_env \<Rightarrow> string \<Rightarrow> bool \<Rightarrow> tcall list \<Rightarrow> int \<times> session option \<times> tcall list" where
  "tee_open E name new_ok cs =
     (if name \<noteq> KEYSTORE_KEYMASTER E then (- EINVAL, None, cs)
      else if \<not> new_ok then (- ENOMEM, None, cs)
      else
        let rv = C_Initialize E cs; cs = CInitialize # cs in
        if rv \<noteq> CKR_OK then (- ENODEV, None, cs)
        else
          let rv = C_GetInfo E cs; cs = CGetInfo # cs in
          if rv \<noteq> CKR_OK then (- ENODEV, None, finalize E cs)
          else
            let flags = CKF_SERIAL_SESSION OR CKF_RW_SESSION;
                (rv, h) = C_OpenSession E cs flags CK_INVALID_HANDLE
            in if rv \<noteq> CKR_OK \<or> h = CK_INVALID_HANDLE
               then (- 1, None, finalize E (COpenSession flags None # cs))
               else (0, Some h, COpenSession flags (Some h) # cs))"

end
