(* ===== verification/Keymaster_Thms.thy ===== *)
theory Keymaster_Thms
  imports Keymaster
begin

unbundle bit_operations_syntax

text \<open>
  Facts about the keymaster: blobs and exponents read back as they were written, malformed blobs
  are refused before the secure element is asked, every operation gives back the session and the
  object handles it took, and what has to hold before a signature is made.
\<close>

section \<open>Bytes\<close>

lemma push_or_byte: "push_bit 8 (v :: 32 word) OR ucast (b :: u8) = v * 256 + ucast b"
proof -
  have "push_bit 8 v + ucast b = push_bit 8 v OR (ucast b :: 32 word)"
    by (rule disjunctive_add) (auto simp: bit_simps dest: bit_imp_le_length)
  then show ?thesis by (simp add: push_bit_eq_mult)
qed

lemma version_of_bytes:
  "foldl (\<lambda>v b. v * 256 + ucast b) (0 :: 32 word) (bs :: u8 list) = word_of_int (be_value bs)"
  by (induction bs rule: rev_induct) simp_all

lemma blob_version_eq: "blob_version bs = word_of_int (be_value (take 4 bs))"
  by (simp add: blob_version_def push_or_byte version_of_bytes)

text \<open>What \<open>keyblob_save\<close> writes is what \<open>keyblob_restore\<close> expects.\<close>

lemma blob_version_saved: "blob_version (snd (keyblob_save objId)) = 1"
  by (simp add: blob_version_eq keyblob_save_def be_value_bytes KEY_VERSION_def)

lemma keyblob_parts:
  "length (snd (keyblob_save objId)) = 4 + length objId" "drop 4 (snd (keyblob_save objId)) = objId"
  by (simp_all add: keyblob_save_def)

definition restore_id :: "tee_env \<Rightarrow> session \<Rightarrow> u8 list \<Rightarrow> tcall list \<Rightarrow> int \<times> object \<times> object \<times> tcall list" where
  "restore_id E s p cs =
     (let (r, pub, cs) = find_single_object E p CKO_PUBLIC_KEY s cs
      in if r \<noteq> 0 then (1, pub, CK_INVALID_HANDLE, cs)
         else let (r, priv, cs) = find_single_object E p CKO_PRIVATE_KEY s cs
              in (if r \<noteq> 0 then 1 else 0, pub, priv, cs))"

definition blob_ok :: "u8 list option \<Rightarrow> bool" where
  "blob_ok b \<longleftrightarrow> (\<exists>blob. b = Some blob \<and> 4 + ID_LENGTH \<le> length blob \<and> blob_version blob = 1)"

definition blob_id :: "u8 list option \<Rightarrow> u8 list" where
  "blob_id b = take ID_LENGTH (drop 4 (the b))"

lemma keyblob_restore_eq:
  "keyblob_restore E s b cs =
     (if blob_ok b then restore_id E s (blob_id b) cs else (- 1, CK_INVALID_HANDLE, CK_INVALID_HANDLE, cs))"
  by (cases b) (simp_all add: keyblob_restore_def restore_id_def blob_ok_def blob_id_def Let_def)

lemma saved_blob_ok:
  assumes "length objId = ID_LENGTH"
  shows "blob_ok (Some (snd (keyblob_save objId)))" "blob_id (Some (snd (keyblob_save objId))) = objId"
  using assms by (simp_all add: blob_ok_def blob_id_def keyblob_parts blob_version_saved)

text \<open>The only blobs that pass are the version followed by at least the bytes of an identifier.\<close>

lemma blob_ok_iff:
  "blob_ok (Some blob) \<longleftrightarrow> (\<exists>objId rest. length objId = ID_LENGTH \<and> blob = snd (keyblob_save objId) @ rest)"
proof
  assume ok: "blob_ok (Some blob)"
  then have len: "4 + ID_LENGTH \<le> length blob" and v: "blob_version blob = 1" by (simp_all add: blob_ok_def)
  let ?h = "take 4 blob"
  have l4: "length ?h = 4" using len by simp
  have "be_value ?h < 256 ^ 4" using be_value_bound [of ?h] l4 by simp
  moreover have "be_value ?h mod 4294967296 = 1"
  proof -
    have "uint (word_of_int (be_value ?h) :: 32 word) = uint (1 :: 32 word)"
      using v by (simp add: blob_version_eq)
    then show ?thesis by (simp add: uint_word_of_int)
  qed
  ultimately have "be_value ?h = 1" using be_value_nonneg [of ?h] by simp
  then have "?h = be_bytes 4 KEY_VERSION" using be_bytes_value [of ?h] l4 by (simp add: KEY_VERSION_def)
  then have "blob = snd (keyblob_save (take ID_LENGTH (drop 4 blob))) @ drop (4 + ID_LENGTH) blob"
    by (simp add: keyblob_save_def) (metis append_assoc append_take_drop_id drop_drop add.commute)
  moreover have "length (take ID_LENGTH (drop 4 blob)) = ID_LENGTH" using len by simp
  ultimately show "\<exists>objId rest. length objId = ID_LENGTH \<and> blob = snd (keyblob_save objId) @ rest" by blast
next
  assume "\<exists>objId rest. length objId = ID_LENGTH \<and> blob = snd (keyblob_save objId) @ rest"
  then obtain objId rest where b: "length objId = ID_LENGTH" "blob = snd (keyblob_save objId) @ rest" by blast
  have "take 4 blob = be_bytes 4 KEY_VERSION" by (simp add: b(2) keyblob_save_def)
  then have "blob_version blob = 1" by (simp add: blob_version_eq be_value_bytes KEY_VERSION_def)
  with b show "blob_ok (Some blob)" by (simp add: blob_ok_def keyblob_save_def)
qed

text \<open>The exponent of a generated key.\<close>

lemma exponent_bytes_eq: "exponent_bytes e = be_bytes 8 (u64 e)"
proof -
  have "[0..<8] = [0, 1, 2, 3, 4, 5, 6, 7 :: nat]" by (simp add: upt_rec)
  then show ?thesis
    by (simp add: exponent_bytes_def be_bytes_def numeral_eq_Suc)
qed

lemma exponent_bytes_value: "be_value (exponent_bytes e) = u64 e"
  by (simp add: exponent_bytes_eq be_value_bytes u64_def)

section \<open>Sessions and handles\<close>

text \<open>A call that neither opens nor closes anything, nor finalizes.\<close>

definition plain_call :: "tcall \<Rightarrow> bool" where
  "plain_call c \<longleftrightarrow> sess_opens c = None \<and> obj_opens c = None \<and> (\<forall>rv. c \<noteq> CFinalize rv) \<and>
     (\<forall>f. c \<noteq> COpenSession f None) \<and> (\<forall>h rv. c \<noteq> CCloseSession h rv) \<and> (\<forall>p h rv. c \<noteq> CCloseObjectHandle p h rv)"

lemma live_plain [simp]:
  assumes "plain_call c"
  shows "live_sessions (c # cs) = live_sessions cs" "live_objects (c # cs) = live_objects cs"
proof -
  have "sess_closes c = None" "obj_closes c = None" using assms by (cases c; simp add: plain_call_def)+
  with assms show "live_sessions (c # cs) = live_sessions cs" "live_objects (c # cs) = live_objects cs"
    by (simp_all add: plain_call_def live_sessions_def live_objects_def since_finalize_def)
qed

lemma plain_calls [simp]:
  "plain_call (CGetAttributeValue s h a)" "plain_call (CDestroyObject s h v)" "plain_call (CSignInit s i h)"
  "plain_call (CSign s d)" "plain_call (CVerifyInit s i h)" "plain_call (CVerify s d e)"
  "plain_call (CGenerateKeyPair s i t u)" "plain_call (CCreateObject s t v)"
  "plain_call CInitialize" "plain_call CGetInfo" "plain_call (CFindObjectsInit s t)"
  "plain_call (CFindObjects s)" "plain_call (CFindObjectsFinal s)"
  by (simp_all add: plain_call_def)

text \<open>The handles whose close the element refused among some calls.\<close>

definition refused_sessions :: "tcall list \<Rightarrow> session set" where
  "refused_sessions new = {h. \<exists>rv. CCloseSession h rv \<in> set new \<and> rv \<noteq> CKR_OK}"

definition refused_objects :: "tcall list \<Rightarrow> object set" where
  "refused_objects new = {h. \<exists>p rv. CCloseObjectHandle p h rv \<in> set new \<and> rv \<noteq> CKR_OK}"

lemma refused_Nil [simp]: "refused_sessions [] = {}" "refused_objects [] = {}"
  by (simp_all add: refused_sessions_def refused_objects_def)

lemma refused_append [simp]:
  "refused_sessions (a @ b) = refused_sessions a \<union> refused_sessions b"
  "refused_objects (a @ b) = refused_objects a \<union> refused_objects b"
  by (auto simp: refused_sessions_def refused_objects_def)

text \<open>
  Within an operation that started at \<open>cs\<close>: at \<open>cs'\<close> what is open beyond what was
  open before is a session of \<open>S\<close>, a handle of \<open>H\<close>, or one whose close was refused. As
  long as the library is not finalized what was open before still is, and \<open>S\<close> and \<open>H\<close> are
  new. The library is finalized only after a session that could not be opened.
\<close>

definition holding :: "session set \<Rightarrow> object set \<Rightarrow> tcall list \<Rightarrow> tcall list \<Rightarrow> bool" where
  "holding S H cs cs' \<longleftrightarrow> (\<exists>new. cs' = new @ cs \<and>
     live_sessions cs' \<subseteq> live_sessions cs \<union> S \<union> refused_sessions new \<and>
     live_objects cs' \<subseteq> live_objects cs \<union> H \<union> refused_objects new \<and>
     (CFinalize CKR_OK \<notin> set new \<longrightarrow> live_sessions cs \<subseteq> live_sessions cs' - S \<and> live_objects cs \<subseteq> live_objects cs' - H) \<and>
     (\<forall>rv. CFinalize rv \<in> set new \<longrightarrow> (\<exists>f. COpenSession f None \<in> set new)))"

abbreviation settled :: "tcall list \<Rightarrow> tcall list \<Rightarrow> bool" where
  "settled \<equiv> holding {} {}"

lemma holding_refl [simp]: "settled cs cs"
  by (auto simp: holding_def)

lemma holding_plain:
  assumes "holding S H cs cs'" "plain_call c"
  shows "holding S H cs (c # cs')"
proof -
  obtain new where n: "cs' = new @ cs" "live_sessions cs' \<subseteq> live_sessions cs \<union> S \<union> refused_sessions new"
      "live_objects cs' \<subseteq> live_objects cs \<union> H \<union> refused_objects new"
      "CFinalize CKR_OK \<notin> set new \<longrightarrow> live_sessions cs \<subseteq> live_sessions cs' - S \<and> live_objects cs \<subseteq> live_objects cs' - H"
      "\<forall>rv. CFinalize rv \<in> set new \<longrightarrow> (\<exists>f. COpenSession f None \<in> set new)"
    using assms(1) by (auto simp: holding_def)
  have "refused_sessions new \<subseteq> refused_sessions (c # new)" "refused_objects new \<subseteq> refused_objects (c # new)"
    by (auto simp: refused_sessions_def refused_objects_def)
  moreover have "\<forall>rv. CFinalize rv \<noteq> c" using assms(2) by (auto simp: plain_call_def)
  ultimately show ?thesis
    unfolding holding_def using n by (intro exI [of _ "c # new"]) (use assms(2) in auto)
qed

lemma crypto_session_holding:
  assumes "fresh_tee E" "crypto_session E m cs = (s, cs')"
  shows "holding ({s} - {CK_INVALID_HANDLE}) {} cs cs'"
proof -
  let ?f = "CKF_SERIAL_SESSION OR CKF_RW_SESSION OR CKVF_OPEN_SUB_SESSION"
  obtain rv h where o: "C_OpenSession E cs ?f m = (rv, h)" by fastforce
  show ?thesis
  proof (cases "rv = CKR_OK \<and> h \<noteq> CK_INVALID_HANDLE")
    case True
    then have "h \<notin> live_sessions cs" using assms(1) o by (auto simp: fresh_tee_def)
    moreover have "s = h" "cs' = COpenSession ?f (Some h) # cs"
      using True assms(2) o by (auto simp: crypto_session_def Let_def)
    ultimately show ?thesis unfolding holding_def
      using True by (intro exI [of _ "[COpenSession ?f (Some h)]"]) auto
  next
    case False
    then have "s = CK_INVALID_HANDLE" "cs' = [CFinalize (C_Finalize E (COpenSession ?f None # cs)), COpenSession ?f None] @ cs"
      using assms(2) o by (auto simp: crypto_session_def finalize_def Let_def)
    then show ?thesis unfolding holding_def
      by (intro exI [of _ "[CFinalize (C_Finalize E (COpenSession ?f None # cs)), COpenSession ?f None]"])
        (auto simp: refused_sessions_def refused_objects_def)
  qed
qed

text \<open>An operation takes charge of a handle the element has just given out.\<close>

lemma holding_object:
  assumes "holding S H cs cs'" "h \<notin> live_objects cs' \<or> h \<in> H"
  shows "holding S (H \<union> ({h} - {CK_INVALID_HANDLE})) cs (object_handle h cs')"
proof (cases "h = CK_INVALID_HANDLE")
  case True
  with assms(1) show ?thesis by (simp add: object_handle_def)
next
  case False
  obtain new where n: "cs' = new @ cs" "live_sessions cs' \<subseteq> live_sessions cs \<union> S \<union> refused_sessions new"
      "live_objects cs' \<subseteq> live_objects cs \<union> H \<union> refused_objects new"
      "CFinalize CKR_OK \<notin> set new \<longrightarrow> live_sessions cs \<subseteq> live_sessions cs' - S \<and> live_objects cs \<subseteq> live_objects cs' - H"
      "\<forall>rv. CFinalize rv \<in> set new \<longrightarrow> (\<exists>f. COpenSession f None \<in> set new)"
    using assms(1) by (auto simp: holding_def)
  have "refused_sessions (GotObject h # new) = refused_sessions new" "refused_objects (GotObject h # new) = refused_objects new"
    by (simp_all add: refused_sessions_def refused_objects_def)
  with False n assms(2) show ?thesis
    unfolding holding_def object_handle_def by (intro exI [of _ "GotObject h # new"]) auto
qed

lemma two_handles:
  "(({g} :: object set) - {CK_INVALID_HANDLE}) \<union> ({h} - {CK_INVALID_HANDLE}) = {g, h} - {CK_INVALID_HANDLE}"
  "({g, CK_INVALID_HANDLE} :: object set) - {CK_INVALID_HANDLE} = {g} - {CK_INVALID_HANDLE}"
  by auto

text \<open>The end of a scope: what it held is closed, or its close was refused.\<close>

lemma scope_end_effect:
  "\<exists>es. scope_end E m s pub priv cs = es @ cs \<and> (\<forall>rv. CFinalize rv \<notin> set es) \<and>
     live_objects (scope_end E m s pub priv cs) \<subseteq> live_objects cs - ({pub, priv} - {CK_INVALID_HANDLE}) \<union> refused_objects es \<and>
     live_objects cs - ({pub, priv} - {CK_INVALID_HANDLE}) \<subseteq> live_objects (scope_end E m s pub priv cs) \<and>
     live_sessions (scope_end E m s pub priv cs) \<subseteq> live_sessions cs - ({s} - {CK_INVALID_HANDLE}) \<union> refused_sessions es \<and>
     live_sessions cs - ({s} - {CK_INVALID_HANDLE}) \<subseteq> live_sessions (scope_end E m s pub priv cs)"
proof -
  have o: "\<exists>es. object_handle_end E m h cs = es @ cs \<and> (\<forall>rv. CFinalize rv \<notin> set es) \<and> refused_sessions es = {} \<and>
      live_sessions (object_handle_end E m h cs) = live_sessions cs \<and>
      live_objects (object_handle_end E m h cs) \<subseteq> live_objects cs - ({h} - {CK_INVALID_HANDLE}) \<union> refused_objects es \<and>
      live_objects cs - ({h} - {CK_INVALID_HANDLE}) \<subseteq> live_objects (object_handle_end E m h cs) \<and>
      live_objects (object_handle_end E m h cs) \<subseteq> live_objects cs" for h cs
  proof (cases "h = CK_INVALID_HANDLE")
    case True
    then show ?thesis by (intro exI [of _ "[]"]) (simp add: object_handle_end_def)
  next
    case False
    then show ?thesis
      by (intro exI [of _ "[CCloseObjectHandle m h (C_CloseObjectHandle E cs m h)]"])
        (auto simp: object_handle_end_def refused_objects_def refused_sessions_def)
  qed
  obtain e1 where 1: "object_handle_end E m priv cs = e1 @ cs" "\<forall>rv. CFinalize rv \<notin> set e1" "refused_sessions e1 = {}"
      "live_sessions (object_handle_end E m priv cs) = live_sessions cs"
      "live_objects (object_handle_end E m priv cs) \<subseteq> live_objects cs - ({priv} - {CK_INVALID_HANDLE}) \<union> refused_objects e1"
      "live_objects cs - ({priv} - {CK_INVALID_HANDLE}) \<subseteq> live_objects (object_handle_end E m priv cs)"
    using o [of priv cs] by auto
  define c1 where "c1 = object_handle_end E m priv cs"
  obtain e2 where 2: "object_handle_end E m pub c1 = e2 @ c1" "\<forall>rv. CFinalize rv \<notin> set e2" "refused_sessions e2 = {}"
      "live_sessions (object_handle_end E m pub c1) = live_sessions c1"
      "live_objects (object_handle_end E m pub c1) \<subseteq> live_objects c1 - ({pub} - {CK_INVALID_HANDLE}) \<union> refused_objects e2"
      "live_objects c1 - ({pub} - {CK_INVALID_HANDLE}) \<subseteq> live_objects (object_handle_end E m pub c1)"
    using o [of pub c1] by auto
  define c2 where "c2 = object_handle_end E m pub c1"
  have "\<exists>e3. crypto_session_end E s c2 = e3 @ c2 \<and> (\<forall>rv. CFinalize rv \<notin> set e3) \<and> refused_objects e3 = {} \<and>
      live_objects (crypto_session_end E s c2) = live_objects c2 \<and>
      live_sessions (crypto_session_end E s c2) \<subseteq> live_sessions c2 - ({s} - {CK_INVALID_HANDLE}) \<union> refused_sessions e3 \<and>
      live_sessions c2 - ({s} - {CK_INVALID_HANDLE}) \<subseteq> live_sessions (crypto_session_end E s c2)"
  proof (cases "s = CK_INVALID_HANDLE")
    case True
    then show ?thesis by (intro exI [of _ "[]"]) (simp add: crypto_session_end_def)
  next
    case False
    then show ?thesis
      by (intro exI [of _ "[CCloseSession s (C_CloseSession E c2 s)]"])
        (auto simp: crypto_session_end_def refused_objects_def refused_sessions_def)
  qed
  then obtain e3 where 3: "crypto_session_end E s c2 = e3 @ c2" "\<forall>rv. CFinalize rv \<notin> set e3" "refused_objects e3 = {}"
      "live_objects (crypto_session_end E s c2) = live_objects c2"
      "live_sessions (crypto_session_end E s c2) \<subseteq> live_sessions c2 - ({s} - {CK_INVALID_HANDLE}) \<union> refused_sessions e3"
      "live_sessions c2 - ({s} - {CK_INVALID_HANDLE}) \<subseteq> live_sessions (crypto_session_end E s c2)" by auto
  have e: "scope_end E m s pub priv cs = crypto_session_end E s c2" by (simp add: scope_end_def c1_def c2_def)
  note 1 = 1 [folded c1_def] and 2 = 2 [folded c2_def]
  have "crypto_session_end E s c2 = (e3 @ e2 @ e1) @ cs" using 1(1) 2(1) 3(1) by simp
  moreover have "\<forall>rv. CFinalize rv \<notin> set (e3 @ e2 @ e1)" using 1(2) 2(2) 3(2) by simp
  moreover have "live_objects (crypto_session_end E s c2) \<subseteq> live_objects cs - ({pub, priv} - {CK_INVALID_HANDLE}) \<union> refused_objects (e3 @ e2 @ e1)"
    unfolding 3(4) refused_append using 1(5) 2(5) by blast
  moreover have "live_objects cs - ({pub, priv} - {CK_INVALID_HANDLE}) \<subseteq> live_objects (crypto_session_end E s c2)"
    unfolding 3(4) using 1(6) 2(6) by blast
  moreover have "live_sessions (crypto_session_end E s c2) \<subseteq> live_sessions cs - ({s} - {CK_INVALID_HANDLE}) \<union> refused_sessions (e3 @ e2 @ e1)"
    unfolding refused_append using 1(4) 2(4) 3(5) by blast
  moreover have "live_sessions cs - ({s} - {CK_INVALID_HANDLE}) \<subseteq> live_sessions (crypto_session_end E s c2)"
    using 1(4) 2(4) 3(6) by blast
  ultimately show ?thesis unfolding e by blast
qed

lemma scope_end_settled:
  assumes "holding ({s} - {CK_INVALID_HANDLE}) ({pub, priv} - {CK_INVALID_HANDLE}) cs cs'"
  shows "settled cs (scope_end E m s pub priv cs')"
proof -
  let ?S = "{s} - {CK_INVALID_HANDLE}" and ?H = "{pub, priv} - {CK_INVALID_HANDLE}"
  obtain new where n: "cs' = new @ cs" "live_sessions cs' \<subseteq> live_sessions cs \<union> ?S \<union> refused_sessions new"
      "live_objects cs' \<subseteq> live_objects cs \<union> ?H \<union> refused_objects new"
      "CFinalize CKR_OK \<notin> set new \<longrightarrow> live_sessions cs \<subseteq> live_sessions cs' - ?S \<and> live_objects cs \<subseteq> live_objects cs' - ?H"
      "\<forall>rv. CFinalize rv \<in> set new \<longrightarrow> (\<exists>f. COpenSession f None \<in> set new)"
    using assms unfolding holding_def by blast
  obtain es where e: "scope_end E m s pub priv cs' = es @ cs'" "\<forall>rv. CFinalize rv \<notin> set es"
      "live_objects (scope_end E m s pub priv cs') \<subseteq> live_objects cs' - ?H \<union> refused_objects es"
      "live_objects cs' - ?H \<subseteq> live_objects (scope_end E m s pub priv cs')"
      "live_sessions (scope_end E m s pub priv cs') \<subseteq> live_sessions cs' - ?S \<union> refused_sessions es"
      "live_sessions cs' - ?S \<subseteq> live_sessions (scope_end E m s pub priv cs')"
    using scope_end_effect [of E m s pub priv cs'] by blast
  show ?thesis unfolding holding_def
  proof (intro exI [of _ "es @ new"] conjI allI impI)
    show "scope_end E m s pub priv cs' = (es @ new) @ cs" using e(1) n(1) by simp
    show "live_sessions (scope_end E m s pub priv cs') \<subseteq> live_sessions cs \<union> {} \<union> refused_sessions (es @ new)"
      "live_objects (scope_end E m s pub priv cs') \<subseteq> live_objects cs \<union> {} \<union> refused_objects (es @ new)"
      using e(3,5) n(2,3) unfolding refused_append by blast+
    show "live_sessions cs \<subseteq> live_sessions (scope_end E m s pub priv cs') - {}"
      "live_objects cs \<subseteq> live_objects (scope_end E m s pub priv cs') - {}" if "CFinalize CKR_OK \<notin> set (es @ new)"
      using that e(4,6) n(4) by auto
    show "\<exists>f. COpenSession f None \<in> set (es @ new)" if "CFinalize rv \<in> set (es @ new)" for rv
      using that e(2) n(5) by auto
  qed
qed

lemma crypto_session_end_settled:
  "holding ({s} - {CK_INVALID_HANDLE}) {} cs cs' \<Longrightarrow> settled cs (crypto_session_end E s cs')"
  using scope_end_settled [of s CK_INVALID_HANDLE CK_INVALID_HANDLE cs cs' E undefined]
  by (simp add: scope_end_def object_handle_end_def)

text \<open>Looking up an object takes charge of at most the one handle it returns.\<close>

lemma find_single_object_holding:
  assumes "fresh_tee E" "find_single_object E p c s cs' = (r, h, cs'')" "holding S H cs cs'"
  shows "holding S (H \<union> ({h} - {CK_INVALID_HANDLE})) cs cs''" "r \<noteq> 0 \<longrightarrow> h = CK_INVALID_HANDLE"
proof -
  let ?a = "[(CKA_ID, BytesV p), (CKA_CLASS, ULongV c)]"
  let ?cs = "CFindObjectsInit s ?a # cs'"
  obtain rv g n where f: "C_FindObjects E ?cs s = (rv, g, n)" using prod_cases3 by blast
  have fr: "rv = CKR_OK \<longrightarrow> g \<notin> live_objects (CFindObjectsFinal s # CFindObjects s # ?cs)"
    using assms(1) f by (fastforce simp: fresh_tee_def)
  have 1: "holding S H cs ?cs" by (rule holding_plain [OF assms(3)]) simp
  have 2: "holding S H cs (CFindObjectsFinal s # CFindObjects s # ?cs)" by (intro holding_plain 1) simp_all
  consider (none) "h = CK_INVALID_HANDLE" "r \<noteq> 0" "cs'' = ?cs \<or> cs'' = CFindObjectsFinal s # CFindObjects s # ?cs"
    | (found) "r = 0" "h = g" "rv = CKR_OK" "cs'' = object_handle g (CFindObjectsFinal s # CFindObjects s # ?cs)"
    using assms(2) f by (fastforce simp: find_single_object_def Let_def split: if_splits)
  then have "holding S (H \<union> ({h} - {CK_INVALID_HANDLE})) cs cs'' \<and> (r \<noteq> 0 \<longrightarrow> h = CK_INVALID_HANDLE)"
  proof cases
    case none
    then show ?thesis using 1 2 by auto
  next
    case found
    then show ?thesis using holding_object [OF 2] fr by simp
  qed
  then show "holding S (H \<union> ({h} - {CK_INVALID_HANDLE})) cs cs''" "r \<noteq> 0 \<longrightarrow> h = CK_INVALID_HANDLE" by simp_all
qed

lemma keyblob_restore_holding:
  assumes "fresh_tee E" "keyblob_restore E s b cs' = (r, pub, priv, cs'')" "holding S {} cs cs'"
  shows "holding S ({pub, priv} - {CK_INVALID_HANDLE}) cs cs''"
proof -
  consider (bad) "pub = CK_INVALID_HANDLE" "priv = CK_INVALID_HANDLE" "cs'' = cs'"
    | (one) r1 where "find_single_object E (blob_id b) CKO_PUBLIC_KEY s cs' = (r1, pub, cs'')"
        "priv = CK_INVALID_HANDLE"
    | (two) r1 r2 cs1 where "find_single_object E (blob_id b) CKO_PUBLIC_KEY s cs' = (r1, pub, cs1)"
        "find_single_object E (blob_id b) CKO_PRIVATE_KEY s cs1 = (r2, priv, cs'')"
    using assms(2) by (auto simp: keyblob_restore_eq restore_id_def split: if_splits prod.splits)
  then show ?thesis
  proof cases
    case bad
    with assms(3) show ?thesis by simp
  next
    case one
    have "{} \<union> ({pub} - {CK_INVALID_HANDLE}) = {pub, priv} - {CK_INVALID_HANDLE}" using one(2) by auto
    with find_single_object_holding(1) [OF assms(1) one(1) assms(3)] show ?thesis by simp
  next
    case two
    note h = find_single_object_holding(1) [OF assms(1) two(2) find_single_object_holding(1) [OF assms(1) two(1) assms(3)]]
    then show ?thesis unfolding Un_empty_left two_handles .
  qed
qed

text \<open>
  The shape the operations on an existing key share: open a session, restore the blob, do something
  that opens and closes nothing, leave the scope.
\<close>

definition only_plain :: "tcall list \<Rightarrow> tcall list \<Rightarrow> bool" where
  "only_plain cs cs' \<longleftrightarrow> (\<exists>new. cs' = new @ cs \<and> (\<forall>c \<in> set new. plain_call c))"

lemma only_plain_refl [simp]: "only_plain cs cs"
  by (simp add: only_plain_def)

lemma only_plain_Cons [simp]: "plain_call c \<Longrightarrow> only_plain cs cs' \<Longrightarrow> only_plain cs (c # cs')"
  unfolding only_plain_def by (metis append_Cons set_ConsD)

lemma holding_only_plain:
  assumes "holding S H cs cs'" "only_plain cs' cs''"
  shows "holding S H cs cs''"
proof -
  obtain new where n: "cs'' = new @ cs'" "\<forall>c \<in> set new. plain_call c" using assms(2) by (auto simp: only_plain_def)
  have "(\<forall>c \<in> set new. plain_call c) \<Longrightarrow> holding S H cs (new @ cs')" using assms(1)
    by (induction new) (auto intro: holding_plain)
  with n show ?thesis by simp
qed

lemma settled_operation:
  assumes "fresh_tee E" "crypto_session E m cs = (s, cs1)" "keyblob_restore E s b cs1 = (r, pub, priv, cs2)"
    and "only_plain cs2 cs3"
  shows "settled cs (scope_end E m s pub priv cs3)"
  by (rule scope_end_settled [OF holding_only_plain [OF keyblob_restore_holding [OF assms(1,3)
        crypto_session_holding [OF assms(1,2)]] assms(4)]])

lemma public_attributes_plain: "public_attributes E s pub cs = (r, d, cs') \<Longrightarrow> only_plain cs cs'"
  by (auto simp: public_attributes_def Let_def split: prod.splits if_splits)

lemma destroy_pair_plain: "destroy_pair E s pub priv cs = (r, cs') \<Longrightarrow> only_plain cs cs'"
  by (auto simp: destroy_pair_def Let_def split: if_splits)

lemma sign_with_plain: "sign_with E s priv d cs = (r, g, cs') \<Longrightarrow> only_plain cs cs'"
  by (auto simp: sign_with_def Let_def split: prod.splits if_splits)

lemma verify_with_plain: "verify_with E s pub d g cs = (r, cs') \<Longrightarrow> only_plain cs cs'"
  by (auto simp: verify_with_def Let_def split: if_splits)

lemma tee_get_keypair_public_settled:
  assumes "fresh_tee E" "tee_get_keypair_public E m b ok cs = (r, d, cs')"
  shows "settled cs cs'"
proof -
  obtain s cs1 where 1: "crypto_session E m cs = (s, cs1)" by fastforce
  obtain q pub priv cs2 where 2: "keyblob_restore E s b cs1 = (q, pub, priv, cs2)" using prod_cases4 by blast
  obtain r3 d3 cs3 where 3: "(if q \<noteq> 0 then (- 1, None, cs2) else if \<not> ok then (- 1, None, cs2)
      else public_attributes E s pub cs2) = (r3, d3, cs3)" using prod_cases3 by blast
  then have "only_plain cs2 cs3" by (auto split: if_splits dest: public_attributes_plain)
  from settled_operation [OF assms(1) 1 2 this] show ?thesis
    using assms(2) 1 2 3 by (simp add: tee_get_keypair_public_def split: if_splits)
qed

lemma tee_delete_keypair_settled:
  assumes "fresh_tee E" "tee_delete_keypair E m b cs = (r, cs')"
  shows "settled cs cs'"
proof -
  obtain s cs1 where 1: "crypto_session E m cs = (s, cs1)" by fastforce
  obtain q pub priv cs2 where 2: "keyblob_restore E s b cs1 = (q, pub, priv, cs2)" using prod_cases4 by blast
  obtain r3 cs3 where 3: "(if q \<noteq> 0 then (- 1, cs2) else destroy_pair E s pub priv cs2) = (r3, cs3)" by fastforce
  then have "only_plain cs2 cs3" by (auto split: if_splits dest: destroy_pair_plain)
  from settled_operation [OF assms(1) 1 2 this] show ?thesis
    using assms(2) 1 2 3 by (simp add: tee_delete_keypair_def split: if_splits)
qed

lemma tee_sign_data_settled:
  assumes "fresh_tee E" "tee_sign_data E m p b data cs = (r, g, cs')"
  shows "settled cs cs'"
proof (cases p)
  case None
  with assms show ?thesis by (simp add: tee_sign_data_def)
next
  case (Some q)
  obtain s cs1 where 1: "crypto_session E m cs = (s, cs1)" by fastforce
  obtain v pub priv cs2 where 2: "keyblob_restore E s b cs1 = (v, pub, priv, cs2)" using prod_cases4 by blast
  obtain r3 d3 cs3 where 3: "(if v \<noteq> 0 then (- 1, None, cs2)
      else if digest_type q \<noteq> DIGEST_NONE E then (- 1, None, cs2)
      else if padding_type q \<noteq> PADDING_NONE E then (- 1, None, cs2)
      else sign_with E s priv data cs2) = (r3, d3, cs3)" using prod_cases3 by blast
  then have "only_plain cs2 cs3" by (auto split: if_splits dest: sign_with_plain)
  from settled_operation [OF assms(1) 1 2 this] show ?thesis
    using assms(2) Some 1 2 3 by (simp add: tee_sign_data_def split: if_splits)
qed

lemma tee_verify_data_settled:
  assumes "fresh_tee E" "tee_verify_data E m p b data sig cs = (r, cs')"
  shows "settled cs cs'"
proof (cases p)
  case None
  with assms show ?thesis by (simp add: tee_verify_data_def)
next
  case (Some q)
  obtain s cs1 where 1: "crypto_session E m cs = (s, cs1)" by fastforce
  obtain v pub priv cs2 where 2: "keyblob_restore E s b cs1 = (v, pub, priv, cs2)" using prod_cases4 by blast
  obtain r3 cs3 where 3: "(if v \<noteq> 0 then (- 1, cs2)
      else if digest_type q \<noteq> DIGEST_NONE E then (- 1, cs2)
      else if padding_type q \<noteq> PADDING_NONE E then (- 1, cs2)
      else verify_with E s pub data sig cs2) = (r3, cs3)" by fastforce
  then have "only_plain cs2 cs3" by (auto split: if_splits dest: verify_with_plain)
  from settled_operation [OF assms(1) 1 2 this] show ?thesis
    using assms(2) Some 1 2 3 by (simp add: tee_verify_data_def split: if_splits)
qed

lemma tee_generate_keypair_settled:
  assumes "fresh_tee E" "tee_generate_keypair E m t p cs = (r, b, cs')"
  shows "settled cs cs'"
proof (cases "t = TYPE_RSA E \<and> p \<noteq> None \<and> generate_random_id E cs \<noteq> None")
  case False
  with assms(2) show ?thesis
    by (auto simp: tee_generate_keypair_def split: if_splits option.splits)
next
  case True
  then obtain q i where q: "p = Some q" "generate_random_id E cs = Some i" by auto
  obtain s cs1 where 1: "crypto_session E m cs = (s, cs1)" by fastforce
  let ?a = "gen_public_template i q" and ?b = "gen_private_template i"
  obtain rv g h where 2: "C_GenerateKeyPair E cs1 s ?a ?b = (rv, g, h)" using prod_cases3 by blast
  let ?cs = "CGenerateKeyPair s CKM_RSA_PKCS_KEY_PAIR_GEN ?a ?b # cs1"
  note ops = assms(2) [unfolded tee_generate_keypair_def q option.case Let_def 1 prod.case 2]
  have 3: "holding ({s} - {CK_INVALID_HANDLE}) {} cs ?cs"
    by (rule holding_plain [OF crypto_session_holding [OF assms(1) 1]]) simp
  show ?thesis
  proof (cases "rv = CKR_OK")
    case False
    with ops True have "cs' = crypto_session_end E s ?cs" by simp
    with crypto_session_end_settled [OF 3] show ?thesis by simp
  next
    case ok: True
    then have fr: "g \<notin> live_objects ?cs" "h \<notin> live_objects ?cs" using assms(1) 2 by (fastforce simp: fresh_tee_def)+
    have 4: "holding ({s} - {CK_INVALID_HANDLE}) ({g} - {CK_INVALID_HANDLE}) cs (object_handle g ?cs)"
      using holding_object [OF 3] fr(1) by simp
    have "h \<notin> live_objects (object_handle g ?cs) \<or> h \<in> {g} - {CK_INVALID_HANDLE}"
      using fr(2) by (auto simp: object_handle_def)
    from scope_end_settled [OF holding_object [OF 4 this, unfolded two_handles]] ops ok True
    show ?thesis by (auto simp: keyblob_save_def)
  qed
qed

text \<open>The creation of the two objects of an imported key.\<close>

lemma import_rsa_settled:
  assumes "fresh_tee E" "import_rsa E m rsa cs = Inr (r, b, cs')"
  shows "settled cs cs'"
proof -
  consider (early) "cs' = cs"
    | (run) n e i where "bignum_to_array E (rsa_n rsa) = Some n" "bignum_to_array E (rsa_e rsa) = Some e"
        "generate_random_id E cs = Some i"
    using assms(2) by (auto simp: import_rsa_def split: option.splits)
  then show ?thesis
  proof cases
    case early
    then show ?thesis by simp
  next
    case run
    obtain s cs1 where 1: "crypto_session E m cs = (s, cs1)" by fastforce
    let ?a = "import_public_template i n e" and ?S = "{s} - {CK_INVALID_HANDLE}"
    obtain rv g where 2: "C_CreateObject E cs1 s ?a = (rv, g)" by fastforce
    let ?cs1 = "CCreateObject s ?a rv # cs1"
    have h1: "holding ?S {} cs ?cs1" by (rule holding_plain [OF crypto_session_holding [OF assms(1) 1]]) simp
    define cs2 where "cs2 = object_handle g ?cs1"
    have h2: "holding ?S ({g} - {CK_INVALID_HANDLE}) cs cs2" if "rv = CKR_OK"
    proof -
      have "g \<notin> live_objects ?cs1" using assms(1) 2 that by (fastforce simp: fresh_tee_def)
      from holding_object [OF h1] this show ?thesis by (simp add: cs2_def)
    qed
    note pub = assms(2) [unfolded import_rsa_def import_private_def run option.case prod.case Let_def 1 2, folded cs2_def]
    have pub_only: "settled cs (scope_end E m s g CK_INVALID_HANDLE cs3)" if "rv = CKR_OK" "only_plain cs2 cs3" for cs3
      by (rule scope_end_settled) (unfold two_handles(2), rule holding_only_plain [OF h2 [OF that(1)] that(2)])
    consider (refused) "rv \<noteq> CKR_OK" | (no_d) "rv = CKR_OK" "bignum_to_array E (rsa_d rsa) = None"
      | (both) d where "rv = CKR_OK" "bignum_to_array E (rsa_d rsa) = Some d" by blast
    then show ?thesis
    proof cases
      case refused
      with pub have "cs' = crypto_session_end E s ?cs1" by simp
      with crypto_session_end_settled [OF h1] show ?thesis by simp
    next
      case no_d
      with pub have "cs' = scope_end E m s g CK_INVALID_HANDLE cs2" by simp
      with pub_only no_d show ?thesis by simp
    next
      case both
      with pub obtain x where x: "extra_attributes E (extra_numbers rsa) = Inr x" by (auto simp: bind_res_Inr)
      let ?b = "import_private_template i n e d @ x"
      obtain rv2 h where 3: "C_CreateObject E cs2 s ?b = (rv2, h)" by fastforce
      let ?cs3 = "CCreateObject s ?b rv2 # cs2"
      show ?thesis
      proof (cases "rv2 = CKR_OK")
        case False
        with pub both x 3 have "cs' = scope_end E m s g CK_INVALID_HANDLE ?cs3" by simp
        with pub_only [OF both(1)] show ?thesis by simp
      next
        case True
        with pub both x 3 have c: "cs' = scope_end E m s g h (object_handle h ?cs3)" by (simp add: keyblob_save_def)
        have "h \<notin> live_objects ?cs3" using assms(1) 3 True by (fastforce simp: fresh_tee_def)
        moreover have "holding ?S ({g} - {CK_INVALID_HANDLE}) cs ?cs3" by (rule holding_plain [OF h2 [OF both(1)]]) simp
        ultimately have "holding ?S ({g, h} - {CK_INVALID_HANDLE}) cs (object_handle h ?cs3)"
          using holding_object [of ?S "{g} - {CK_INVALID_HANDLE}" cs ?cs3 h] unfolding two_handles by blast
        from scope_end_settled [OF this] c show ?thesis by simp
      qed
    qed
  qed
qed

lemma tee_import_keypair_settled:
  assumes "fresh_tee E" "tee_import_keypair E m k cs = Inr (r, b, cs')"
  shows "settled cs cs'"
  using assms import_rsa_settled [OF assms(1)]
  by (auto simp: tee_import_keypair_def split: option.splits if_splits)

section \<open>What a signature needs\<close>

definition key_lookup :: "session \<Rightarrow> u8 list \<Rightarrow> int \<Rightarrow> tcall" where
  "key_lookup s p c = CFindObjectsInit s [(CKA_ID, BytesV p), (CKA_CLASS, ULongV c)]"

lemma find_single_object_adds:
  assumes "find_single_object E p c s cs = (r, h, cs')"
  shows "\<exists>new. cs' = new @ cs \<and> key_lookup s p c \<in> set new \<and>
    (\<forall>x \<in> set new. (\<forall>t d. x \<noteq> CSign t d) \<and> (\<forall>t d g. x \<noteq> CVerify t d g))"
proof -
  let ?a = "[(CKA_ID, BytesV p), (CKA_CLASS, ULongV c)]"
  let ?cs = "CFindObjectsInit s ?a # cs"
  obtain rv g n where f: "C_FindObjects E ?cs s = (rv, g, n)" using prod_cases3 by blast
  have "cs' \<in> {?cs, CFindObjectsFinal s # CFindObjects s # ?cs,
      GotObject g # CFindObjectsFinal s # CFindObjects s # ?cs}"
    using assms f by (auto simp: find_single_object_def Let_def object_handle_def split: if_splits)
  then show ?thesis by (auto simp: key_lookup_def)
qed

lemma keyblob_restore_adds:
  assumes "keyblob_restore E s b cs = (r, pub, priv, cs')"
  shows "\<exists>new. cs' = new @ cs \<and>
    (\<forall>x \<in> set new. (\<forall>t d. x \<noteq> CSign t d) \<and> (\<forall>t d g. x \<noteq> CVerify t d g)) \<and>
    (r = 0 \<longrightarrow> blob_ok b \<and> key_lookup s (blob_id b) CKO_PUBLIC_KEY \<in> set new \<and>
       key_lookup s (blob_id b) CKO_PRIVATE_KEY \<in> set new)"
proof (cases "blob_ok b")
  case False
  with assms show ?thesis by (simp add: keyblob_restore_eq)
next
  case True
  obtain r1 h1 cs1 where 1: "find_single_object E (blob_id b) CKO_PUBLIC_KEY s cs = (r1, h1, cs1)"
    using prod_cases3 by blast
  obtain r2 h2 cs2 where 2: "find_single_object E (blob_id b) CKO_PRIVATE_KEY s cs1 = (r2, h2, cs2)"
    using prod_cases3 by blast
  from find_single_object_adds [OF 1] obtain n1 where n1: "cs1 = n1 @ cs"
      "key_lookup s (blob_id b) CKO_PUBLIC_KEY \<in> set n1"
      "\<forall>x \<in> set n1. (\<forall>t d. x \<noteq> CSign t d) \<and> (\<forall>t d g. x \<noteq> CVerify t d g)" by blast
  from find_single_object_adds [OF 2] obtain n2 where n2: "cs2 = n2 @ cs1"
      "key_lookup s (blob_id b) CKO_PRIVATE_KEY \<in> set n2"
      "\<forall>x \<in> set n2. (\<forall>t d. x \<noteq> CSign t d) \<and> (\<forall>t d g. x \<noteq> CVerify t d g)" by blast
  show ?thesis
  proof (cases "r1 = 0")
    case False
    with assms True 1 n1 show ?thesis
      by (intro exI [of _ n1]) (simp add: keyblob_restore_eq restore_id_def)
  next
    case r1: True
    with assms True 1 2 n1 n2 show ?thesis
      by (intro exI [of _ "n2 @ n1"]) (auto simp: keyblob_restore_eq restore_id_def split: if_splits)
  qed
qed

lemma crypto_session_adds:
  assumes "crypto_session E m cs = (s, cs')"
  shows "\<exists>new. cs' = new @ cs \<and> (\<forall>x \<in> set new. (\<forall>t d. x \<noteq> CSign t d) \<and> (\<forall>t d g. x \<noteq> CVerify t d g))"
  using assms by (auto simp: crypto_session_def finalize_def Let_def split: prod.splits if_splits
      intro: exI [of _ "[COpenSession x (Some y)]" for x y] exI [of _ "[CFinalize v, COpenSession x None]" for v x])

lemma scope_end_adds:
  "\<exists>new. scope_end E m s pub priv cs = new @ cs \<and>
     (\<forall>x \<in> set new. (\<forall>t d. x \<noteq> CSign t d) \<and> (\<forall>t d g. x \<noteq> CVerify t d g))"
  by (auto simp: scope_end_def crypto_session_end_def object_handle_end_def
      intro: exI [of _ "[]"] exI [of _ "[x]" for x] exI [of _ "[x, y]" for x y] exI [of _ "[x, y, z]" for x y z])

lemma sign_with_adds:
  assumes "sign_with E s priv data cs = (r, g, cs')"
  shows "\<exists>new. cs' = new @ cs \<and> (\<forall>t d. CSign t d \<in> set new \<longrightarrow> d = data \<and> CSignInit s CKM_RSA_X_509 priv \<in> set new)"
  using assms by (auto simp: sign_with_def Let_def split: prod.splits if_splits
      intro: exI [of _ "[CSignInit s CKM_RSA_X_509 priv]"] exI [of _ "[CSign s data, CSignInit s CKM_RSA_X_509 priv]"])


text \<open>
  A signature is asked of the secure element only for a request without digest and padding, with a
  blob of the right form, after both keys of its identifier were looked up.
\<close>

lemma tee_sign_data_needs:
  assumes "tee_sign_data E m p b data cs = (r, g, cs')"
  shows "\<exists>new. cs' = new @ cs \<and> (\<forall>t d. CSign t d \<in> set new \<longrightarrow>
    (\<exists>q s. p = Some q \<and> digest_type q = DIGEST_NONE E \<and> padding_type q = PADDING_NONE E \<and>
       blob_ok b \<and> d = data \<and> key_lookup s (blob_id b) CKO_PUBLIC_KEY \<in> set new \<and>
       key_lookup s (blob_id b) CKO_PRIVATE_KEY \<in> set new))"
proof (cases p)
  case None
  with assms show ?thesis by (simp add: tee_sign_data_def)
next
  case (Some q)
  obtain s cs1 where 1: "crypto_session E m cs = (s, cs1)" by fastforce
  obtain v pub priv cs2 where 2: "keyblob_restore E s b cs1 = (v, pub, priv, cs2)" using prod_cases4 by blast
  obtain r3 d3 cs3 where 3: "(if v \<noteq> 0 then (- 1, None, cs2)
      else if digest_type q \<noteq> DIGEST_NONE E then (- 1, None, cs2)
      else if padding_type q \<noteq> PADDING_NONE E then (- 1, None, cs2)
      else sign_with E s priv data cs2) = (r3, d3, cs3)" using prod_cases3 by blast
  have cs': "cs' = scope_end E m s pub priv cs3"
    using assms Some 1 2 3 by (simp add: tee_sign_data_def split: if_splits)
  obtain n1 where n1: "cs1 = n1 @ cs" "\<forall>x \<in> set n1. \<forall>t d. x \<noteq> CSign t d"
    using crypto_session_adds [OF 1] by blast
  obtain n2 where n2: "cs2 = n2 @ cs1" "\<forall>x \<in> set n2. \<forall>t d. x \<noteq> CSign t d"
      "v = 0 \<longrightarrow> blob_ok b \<and> key_lookup s (blob_id b) CKO_PUBLIC_KEY \<in> set n2 \<and>
         key_lookup s (blob_id b) CKO_PRIVATE_KEY \<in> set n2"
    using keyblob_restore_adds [OF 2] by blast
  obtain n4 where n4: "cs' = n4 @ cs3" "\<forall>x \<in> set n4. \<forall>t d. x \<noteq> CSign t d"
    using scope_end_adds [of E m s pub priv cs3] unfolding cs' by meson
  obtain n3 where n3: "cs3 = n3 @ cs2" "\<forall>t d. CSign t d \<in> set n3 \<longrightarrow> d = data \<and> v = 0 \<and>
      digest_type q = DIGEST_NONE E \<and> padding_type q = PADDING_NONE E"
  proof (cases "v = 0 \<and> digest_type q = DIGEST_NONE E \<and> padding_type q = PADDING_NONE E")
    case True
    with 3 have "sign_with E s priv data cs2 = (r3, d3, cs3)" by simp
    from sign_with_adds [OF this] obtain n where "cs3 = n @ cs2" "\<forall>t d. CSign t d \<in> set n \<longrightarrow> d = data" by blast
    with True show ?thesis by (intro that) simp_all
  next
    case False
    with 3 that [of "[]"] show ?thesis by (auto split: if_splits)
  qed
  show ?thesis
    using Some n1 n2 n3 n4 by (intro exI [of _ "n4 @ n3 @ n2 @ n1"]) auto
qed

text \<open>A signature is accepted only if the secure element accepted it.\<close>

lemma tee_verify_data_accepts:
  assumes "tee_verify_data E m p b data sig cs = (0, cs')"
  shows "\<exists>s hist. C_Verify E hist s data sig = CKR_OK \<and> CVerify s data sig \<in> set cs' \<and> blob_ok b"
proof (cases p)
  case None
  with assms show ?thesis by (simp add: tee_verify_data_def)
next
  case (Some q)
  obtain s cs1 where 1: "crypto_session E m cs = (s, cs1)" by fastforce
  obtain v pub priv cs2 where 2: "keyblob_restore E s b cs1 = (v, pub, priv, cs2)" using prod_cases4 by blast
  obtain r3 cs3 where 3: "(if v \<noteq> 0 then (- 1, cs2)
      else if digest_type q \<noteq> DIGEST_NONE E then (- 1, cs2)
      else if padding_type q \<noteq> PADDING_NONE E then (- 1, cs2)
      else verify_with E s pub data sig cs2) = (r3, cs3)" by fastforce
  have r: "r3 = 0" "cs' = scope_end E m s pub priv cs3"
    using assms Some 1 2 3 by (simp_all add: tee_verify_data_def split: if_splits)
  with 3 have "v = 0" "verify_with E s pub data sig cs2 = (0, cs3)" by (auto split: if_splits)
  then have w: "C_Verify E (CVerifyInit s CKM_RSA_X_509 pub # cs2) s data sig = CKR_OK"
      "CVerify s data sig \<in> set cs3"
    by (auto simp: verify_with_def Let_def split: if_splits)
  have "blob_ok b" using keyblob_restore_adds [OF 2] \<open>v = 0\<close> by blast
  moreover have "CVerify s data sig \<in> set cs'" using w(2) r(2) scope_end_adds [of E m s pub priv cs3] by auto
  ultimately show ?thesis using w(1) by blast
qed

section \<open>Generated and imported keys can be found again\<close>

lemma generated_blob:
  assumes "tee_generate_keypair E m t p cs = (0, Some blob, cs')"
  shows "\<exists>i s q. p = Some q \<and> blob = snd (keyblob_save i) \<and> RAND_pseudo_bytes E cs ID_LENGTH = Some i \<and>
    CGenerateKeyPair s CKM_RSA_PKCS_KEY_PAIR_GEN (gen_public_template i q) (gen_private_template i) \<in> set cs'"
proof -
  obtain q i where q: "t = TYPE_RSA E" "p = Some q" "RAND_pseudo_bytes E cs ID_LENGTH = Some i"
    using assms by (auto simp: tee_generate_keypair_def generate_random_id_def split: if_splits option.splits)
  obtain s cs1 where 1: "crypto_session E m cs = (s, cs1)" by fastforce
  let ?a = "gen_public_template i q" and ?b = "gen_private_template i"
  obtain rv g h where 2: "C_GenerateKeyPair E cs1 s ?a ?b = (rv, g, h)" using prod_cases3 by blast
  have "blob = snd (keyblob_save i)"
    "CGenerateKeyPair s CKM_RSA_PKCS_KEY_PAIR_GEN ?a ?b \<in> set cs'"
    using assms q 1 2
    by (auto simp: tee_generate_keypair_def generate_random_id_def keyblob_save_def Let_def scope_end_def
        crypto_session_end_def object_handle_end_def object_handle_def split: if_splits)
  with q show ?thesis by blast
qed

text \<open>An import that fails for the private key leaves the public object behind.\<close>

lemma import_orphan:
  assumes "bignum_to_array E (rsa_n rsa) = Some n" "bignum_to_array E (rsa_e rsa) = Some e"
    "bignum_to_array E (rsa_d rsa) = Some d" "generate_random_id E cs = Some i"
    and "crypto_session E m cs = (s, cs1)" "C_CreateObject E cs1 s (import_public_template i n e) = (CKR_OK, g)"
    and "extra_attributes E (extra_numbers rsa) = Inr x"
    and "fst (C_CreateObject E (object_handle g (CCreateObject s (import_public_template i n e) CKR_OK # cs1)) s
           (import_private_template i n e d @ x)) \<noteq> CKR_OK"
  shows "\<exists>cs'. import_rsa E m rsa cs = Inr (- 1, None, cs') \<and>
    CCreateObject s (import_public_template i n e) CKR_OK \<in> set cs' \<and>
    (\<forall>t h v. CDestroyObject t h v \<in> set cs' \<longrightarrow> CDestroyObject t h v \<in> set cs)"
proof -
  let ?pub = "import_public_template i n e" and ?priv = "import_private_template i n e d @ x"
  define cs2 where "cs2 = object_handle g (CCreateObject s ?pub CKR_OK # cs1)"
  obtain rv h where c: "C_CreateObject E cs2 s ?priv = (rv, h)" "rv \<noteq> CKR_OK"
    using assms(8) unfolding cs2_def by (metis fst_conv surj_pair)
  have "import_rsa E m rsa cs =
      Inr (- 1, None, scope_end E m s g CK_INVALID_HANDLE (CCreateObject s ?priv rv # cs2))"
    unfolding import_rsa_def import_private_def assms(1-7) option.case prod.case Let_def cs2_def [symmetric] by (simp add: assms(7) c)
  moreover have "\<forall>t h v. CDestroyObject t h v \<in> set cs1 \<longrightarrow> CDestroyObject t h v \<in> set cs"
    using assms(5) by (auto simp: crypto_session_def finalize_def Let_def split: prod.splits if_splits)
  then have "\<forall>t h v. CDestroyObject t h v \<in> set cs2 \<longrightarrow> CDestroyObject t h v \<in> set cs"
    by (simp add: cs2_def object_handle_def)
  moreover have "CCreateObject s ?pub CKR_OK \<in> set cs2" by (simp add: cs2_def object_handle_def)
  moreover have "set (scope_end E m s g CK_INVALID_HANDLE (CCreateObject s ?priv rv # cs2)) \<supseteq> set cs2"
    "CDestroyObject t h v \<in> set (scope_end E m s g CK_INVALID_HANDLE (CCreateObject s ?priv rv # cs2)) \<Longrightarrow>
       CDestroyObject t h v \<in> set cs2" for t h v
    by (auto simp: scope_end_def crypto_session_end_def object_handle_end_def Let_def split: if_splits)
  ultimately show ?thesis by blast
qed

section \<open>A sub-session that cannot be opened\<close>

text \<open>Calls after which no more sessions are open than before, and that do not initialize.\<close>

definition quietly :: "tcall list \<Rightarrow> tcall list \<Rightarrow> bool" where
  "quietly cs cs' \<longleftrightarrow> (\<exists>new. cs' = new @ cs \<and> (\<forall>c \<in> set new. sess_opens c = None \<and> c \<noteq> CInitialize))"

lemma quietly_refl [simp]: "quietly cs cs"
  by (simp add: quietly_def)

lemma quietly_Cons [simp]: "sess_opens c = None \<Longrightarrow> c \<noteq> CInitialize \<Longrightarrow> quietly cs cs' \<Longrightarrow> quietly cs (c # cs')"
  unfolding quietly_def by (metis append_Cons set_ConsD)

lemma quietly_trans: "quietly a b \<Longrightarrow> quietly b c \<Longrightarrow> quietly a c"
  unfolding quietly_def by (metis append_assoc set_append Un_iff)

lemma quietly_sessions:
  assumes "quietly (CFinalize CKR_OK # cs) cs'"
  shows "live_sessions cs' = {}"
proof -
  have "(\<forall>c \<in> set new. sess_opens c = None) \<Longrightarrow> live_sessions (new @ CFinalize CKR_OK # cs) = {}" for new
  proof (induction new)
    case (Cons c new)
    then show ?case by (cases c) auto
  qed simp
  with assms show ?thesis by (auto simp: quietly_def)
qed

lemma find_single_object_quietly: "find_single_object E p c s cs = (r, h, cs') \<Longrightarrow> quietly cs cs'"
  by (auto simp: find_single_object_def object_handle_def Let_def split: prod.splits if_splits)

lemma sign_with_quietly: "sign_with E s priv d cs = (r, g, cs') \<Longrightarrow> quietly cs cs'"
  by (auto simp: sign_with_def Let_def split: prod.splits if_splits)

lemma scope_end_quietly: "quietly cs (scope_end E m s pub priv cs)"
  by (simp add: scope_end_def crypto_session_end_def object_handle_end_def)

lemma keyblob_restore_quietly: "keyblob_restore E s b cs = (r, pub, priv, cs') \<Longrightarrow> quietly cs cs'"
  by (auto simp: keyblob_restore_eq restore_id_def split: if_splits prod.splits
      dest!: find_single_object_quietly intro: quietly_trans)

lemma failed_session:
  assumes "fst (C_OpenSession E cs (CKF_SERIAL_SESSION OR CKF_RW_SESSION OR CKVF_OPEN_SUB_SESSION) m) \<noteq> CKR_OK"
  shows "\<exists>f. crypto_session E m cs = (CK_INVALID_HANDLE, finalize E (COpenSession f None # cs))"
  using assms by (auto simp: crypto_session_def Let_def split: prod.splits)

lemma sign_after_failed_session:
  assumes "crypto_session E m cs = (s, cs1)" "tee_sign_data E m (Some q) b data cs = (r, g, cs')" "blob_ok b"
  shows "quietly cs1 cs' \<and> (\<exists>new. cs' = new @ cs1 \<and> key_lookup s (blob_id b) CKO_PUBLIC_KEY \<in> set new)"
proof -
  obtain v pub priv cs2 where 2: "keyblob_restore E s b cs1 = (v, pub, priv, cs2)" using prod_cases4 by blast
  obtain r3 d3 cs3 where 3: "(if v \<noteq> 0 then (- 1, None, cs2)
      else if digest_type q \<noteq> DIGEST_NONE E then (- 1, None, cs2)
      else if padding_type q \<noteq> PADDING_NONE E then (- 1, None, cs2)
      else sign_with E s priv data cs2) = (r3, d3, cs3)" using prod_cases3 by blast
  have c: "cs' = scope_end E m s pub priv cs3"
    using assms(1,2) 2 3 by (simp add: tee_sign_data_def split: if_splits)
  have q3: "quietly cs2 cs3" using 3 by (auto split: if_splits dest: sign_with_quietly)
  obtain r1 h1 c1 where f: "find_single_object E (blob_id b) CKO_PUBLIC_KEY s cs1 = (r1, h1, c1)" using prod_cases3 by blast
  obtain n1 where n1: "c1 = n1 @ cs1" "key_lookup s (blob_id b) CKO_PUBLIC_KEY \<in> set n1"
    using find_single_object_adds [OF f] by blast
  have "quietly c1 cs2"
    using 2 f assms(3) by (auto simp: keyblob_restore_eq restore_id_def split: if_splits prod.splits
        dest!: find_single_object_quietly)
  then have "quietly c1 cs'" using q3 scope_end_quietly unfolding c by (blast intro: quietly_trans)
  then have "\<exists>new. cs' = new @ cs1 \<and> key_lookup s (blob_id b) CKO_PUBLIC_KEY \<in> set new"
    using n1 by (auto simp: quietly_def)
  moreover have "quietly cs1 cs'"
    using keyblob_restore_quietly [OF 2] q3 scope_end_quietly unfolding c by (blast intro: quietly_trans)
  ultimately show ?thesis by blast
qed

section \<open>Opening and closing the device\<close>

lemma tee_open_failed:
  assumes "tee_open E name ok cs = (r, None, cs')"
  shows "r < 0 \<and> live_sessions cs' \<subseteq> live_sessions cs \<and>
    (cs' = cs \<or> cs' = CInitialize # cs \<and> C_Initialize E cs \<noteq> CKR_OK \<or> (\<exists>rv. hd cs' = CFinalize rv))"
  using assms by (auto simp: tee_open_def finalize_def Let_def split: if_splits prod.splits)

lemma tee_open_close:
  assumes "tee_open E name ok cs = (0, Some h, cs')"
  shows "h \<in> live_sessions cs' \<and> (\<exists>rv fv. snd (tee_close E (Some h) cs') = CFinalize fv # CCloseSession h rv # cs' \<and>
    (fv = CKR_OK \<longrightarrow> live_sessions (snd (tee_close E (Some h) cs')) = {}) \<and>
    (rv = CKR_OK \<longrightarrow> h \<notin> live_sessions (snd (tee_close E (Some h) cs'))))"
proof -
  let ?cs = "CGetInfo # CInitialize # cs"
  let ?f = "CKF_SERIAL_SESSION OR CKF_RW_SESSION"
  obtain rv g where o: "C_OpenSession E ?cs ?f CK_INVALID_HANDLE = (rv, g)" by fastforce
  have r: "h \<noteq> CK_INVALID_HANDLE" "cs' = COpenSession ?f (Some h) # ?cs"
    using assms o by (auto simp: tee_open_def Let_def split: if_splits)
  have "snd (tee_close E (Some h) cs') = CFinalize (C_Finalize E (CCloseSession h (C_CloseSession E cs' h) # cs')) #
      CCloseSession h (C_CloseSession E cs' h) # cs'"
    using r(1) by (simp add: tee_close_def finalize_def Let_def)
  with r show ?thesis by auto
qed

end
