(* ===== verification/Keymaster_Props.thy ===== *)
theory Keymaster_Props
  imports Keymaster_Thms
begin

unbundle bit_operations_syntax

text \<open>The properties of the keymaster, with a concrete secure element for their instances.\<close>

section \<open>A concrete secure element\<close>

definition next_session :: "tcall list \<Rightarrow> session" where
  "next_session cs = Suc (sum_list (map (\<lambda>c. case sess_opens c of None \<Rightarrow> 0 | Some h \<Rightarrow> h) cs))"

definition next_object :: "tcall list \<Rightarrow> object" where
  "next_object cs = Suc (sum_list (map (\<lambda>c. case obj_opens c of None \<Rightarrow> 0 | Some h \<Rightarrow> h) cs))"

text \<open>The bytes of a number, most significant first.\<close>

fun nat_bytes :: "nat \<Rightarrow> u8 list" where
  "nat_bytes n = (if n = 0 then [] else nat_bytes (n div 256) @ [word_of_nat (n mod 256)])"

declare nat_bytes.simps [simp del]

definition demo_tee :: tee_env where
  "demo_tee = \<lparr>
     RAND_pseudo_bytes = (\<lambda>cs n. Some (replicate n 7)),
     d2i_PKCS8_PRIV_KEY_INFO = (\<lambda>k. Some 0), EVP_PKCS82PKEY = (\<lambda>k. Some 0), EVP_PKEY_is_RSA = (\<lambda>k. True),
     EVP_PKEY_get1_RSA = (\<lambda>k. Some \<lparr>rsa_n = 3233, rsa_e = 17, rsa_d = 413, rsa_p = None, rsa_q = None,
        rsa_dmp1 = None, rsa_dmq1 = None, rsa_iqmp = None\<rparr>),
     BN_num_bytes = (\<lambda>n. length (nat_bytes n)), BN_bn2bin = nat_bytes,
     BN_bin2bn = (\<lambda>bs. Some (nat (be_value bs))),
     RSA_new = (\<lambda>cs. True), EVP_PKEY_new = (\<lambda>cs. True), EVP_PKEY_assign_RSA = (\<lambda>cs. True),
     i2d_PUBKEY = (\<lambda>n e. (2, [word_of_nat n, word_of_nat e])),
     x509_malloc = (\<lambda>cs n. True),
     TYPE_RSA = 1, DIGEST_NONE = 0, PADDING_NONE = 0, KEYSTORE_KEYMASTER = ''keymaster'',
     C_Initialize = (\<lambda>cs. 0), C_GetInfo = (\<lambda>cs. 0), C_Finalize = (\<lambda>cs. 0),
     C_OpenSession = (\<lambda>cs fl m. (0, next_session cs)), C_CloseSession = (\<lambda>cs s. 0),
     C_CloseObjectHandle = (\<lambda>cs m h. 0),
     C_FindObjectsInit = (\<lambda>cs s a. 0),
     C_FindObjects = (\<lambda>cs s. (0, next_object cs, 1)),
     C_GenerateKeyPair = (\<lambda>cs s a b. (0, next_object cs, Suc (next_object cs))),
     C_CreateObject = (\<lambda>cs s a. (if CKO_PRIVATE_KEY = 3 \<and> length a = 9 then 5 else 0, next_object cs)),
     C_AttributeSizes = (\<lambda>cs s h. (0, 2, 1)),
     C_AttributeValues = (\<lambda>cs s h n m. (0, [12, 161], [17])),
     C_DestroyObject = (\<lambda>cs s h. 0),
     C_SignInit = (\<lambda>cs s h. 0), C_Sign = (\<lambda>cs s d. (0, rev d)),
     C_VerifyInit = (\<lambda>cs s h. 0), C_Verify = (\<lambda>cs s d g. if g = rev d then 0 else 0xC0)\<rparr>"

lemma since_finalize_simps:
  "since_finalize [] = []"
  "since_finalize (c # cs) = (if c = CFinalize CKR_OK then [] else c # since_finalize cs)"
  by (simp_all add: since_finalize_def)

lemma next_session_fresh: "next_session cs \<notin> live_sessions cs"
proof
  have "h \<in> live_sessions cs \<Longrightarrow> h \<le> sum_list (map (\<lambda>c. case sess_opens c of None \<Rightarrow> 0 | Some h \<Rightarrow> h) cs)" for h
    unfolding live_sessions_def by (induction cs) (auto simp: since_finalize_simps split: option.splits if_splits)
  moreover assume "next_session cs \<in> live_sessions cs"
  ultimately show False by (fastforce simp: next_session_def)
qed

lemma next_object_fresh: "next_object cs \<le> h \<Longrightarrow> h \<notin> live_objects cs"
proof
  have "h \<in> live_objects cs \<Longrightarrow> h \<le> sum_list (map (\<lambda>c. case obj_opens c of None \<Rightarrow> 0 | Some h \<Rightarrow> h) cs)" for h
    unfolding live_objects_def by (induction cs) (auto simp: since_finalize_simps split: option.splits if_splits)
  moreover assume "next_object cs \<le> h" "h \<in> live_objects cs"
  ultimately show False by (fastforce simp: next_object_def)
qed

lemma demo_tee_fresh: "fresh_tee demo_tee"
  by (auto simp: fresh_tee_def demo_tee_def next_session_fresh next_object_fresh)

section \<open>Blobs\<close>

text \<open>
  C3. Key blobs round trip: a blob made by \<open>keyblob_save\<close> from a 32-byte identifier, also
  with bytes behind it, makes \<open>keyblob_restore\<close> look up exactly that identifier, first as a
  public, then as a private key.
\<close>

theorem keyblob_roundtrip:
  assumes "length objId = ID_LENGTH"
  shows "keyblob_restore E s (Some (snd (keyblob_save objId) @ rest)) cs =
    (let (r, pub, cs) = find_single_object E objId CKO_PUBLIC_KEY s cs
     in if r \<noteq> 0 then (1, pub, CK_INVALID_HANDLE, cs)
        else let (r, priv, cs) = find_single_object E objId CKO_PRIVATE_KEY s cs
             in (if r \<noteq> 0 then 1 else 0, pub, priv, cs))"
proof -
  have "blob_ok (Some (snd (keyblob_save objId) @ rest))" using assms by (auto simp: blob_ok_iff)
  moreover have "blob_id (Some (snd (keyblob_save objId) @ rest)) = objId"
    using assms by (simp add: blob_id_def keyblob_save_def)
  ultimately show ?thesis by (simp add: keyblob_restore_eq restore_id_def)
qed

theorem keyblob_roundtrip_witness:
  "fst (keyblob_restore demo_tee 1 (Some (snd (keyblob_save (replicate 32 7)) @ [1, 2])) []) = 0"
  using keyblob_roundtrip [of "replicate 32 7" demo_tee 1 "[1, 2]" "[]"]
  by (simp add: ID_LENGTH_def find_single_object_def demo_tee_def CKR_OK_def Let_def)

text \<open>
  C24. Nothing else passes: a blob that is accepted for a lookup is the saved form of some 32-byte
  identifier, possibly with bytes behind it that are ignored; every other blob, and the null
  pointer, is refused without a single call to the secure element.
\<close>

theorem keyblob_refused:
  assumes "\<forall>objId rest. length objId = ID_LENGTH \<longrightarrow> b \<noteq> Some (snd (keyblob_save objId) @ rest)"
  shows "keyblob_restore E s b cs = (- 1, CK_INVALID_HANDLE, CK_INVALID_HANDLE, cs)"
proof -
  have "\<not> blob_ok b" using assms blob_ok_iff by (cases b) (auto simp: blob_ok_def)
  then show ?thesis by (simp add: keyblob_restore_eq)
qed

theorem keyblob_refused_witness:
  "keyblob_restore demo_tee 1 (Some (replicate 36 0)) [] = (- 1, CK_INVALID_HANDLE, CK_INVALID_HANDLE, [])"
proof (rule keyblob_refused, intro allI impI)
  fix objId rest :: "u8 list"
  have "(replicate 36 0 :: u8 list) ! 3 = 0" by simp
  moreover have "(snd (keyblob_save objId) @ rest) ! 3 = 1"
    by (simp add: keyblob_save_def be_bytes_def KEY_VERSION_def numeral_eq_Suc)
  ultimately show "Some (replicate 36 0) \<noteq> Some (snd (keyblob_save objId) @ rest)"
    by (metis option.inject zero_neq_one)
qed

text \<open>
  The loop that lays the 64-bit public exponent out as bytes, from the end, gives its
  big-endian form: eight bytes whose value is the exponent.
\<close>

theorem exponent_roundtrip:
  "exponent_bytes e = be_bytes 8 (u64 e) \<and> be_value (exponent_bytes e) = u64 e \<and> length (exponent_bytes e) = 8"
  by (simp add: exponent_bytes_eq be_value_bytes u64_def)

section \<open>Handles\<close>

text \<open>
  What an operation that started at \<open>cs\<close> owes at \<open>cs'\<close>. Of the sessions and handles that
  are open now each was open before or its close was refused by the element. What was open before
  still is, unless the library was finalized, and it is finalized only after the sub-session of the operation
  could not be opened.
\<close>

definition accounted :: "tcall list \<Rightarrow> tcall list \<Rightarrow> bool" where
  "accounted cs cs' \<longleftrightarrow> (\<exists>new. cs' = new @ cs \<and>
     live_sessions cs' \<subseteq> live_sessions cs \<union> refused_sessions new \<and>
     live_objects cs' \<subseteq> live_objects cs \<union> refused_objects new \<and>
     (CFinalize CKR_OK \<notin> set new \<longrightarrow> live_sessions cs \<subseteq> live_sessions cs' \<and> live_objects cs \<subseteq> live_objects cs') \<and>
     (\<forall>rv. CFinalize rv \<in> set new \<longrightarrow> (\<exists>f. COpenSession f None \<in> set new)))"

lemma settled_accounted: "settled cs cs' \<Longrightarrow> accounted cs cs'"
  by (simp add: holding_def accounted_def)

text \<open>
  C7. No operation on keys loses a handle, whatever the secure element answers, also to the
  closing calls whose results the code at most logs. When generating, reading, deleting, signing or verifying returns,
  every session and every object handle that is open beyond those from before is one whose close the
  element refused. What was open before is open still, unless the operation could not open its
  sub-session and finalized the library.
\<close>

theorem keymaster_no_leak:
  assumes "fresh_tee E"
  shows "accounted cs (snd (snd (tee_generate_keypair E m t kp cs))) \<and>
    accounted cs (snd (snd (tee_get_keypair_public E m b ok cs))) \<and>
    accounted cs (snd (tee_delete_keypair E m b cs)) \<and>
    accounted cs (snd (snd (tee_sign_data E m sp b data cs))) \<and>
    accounted cs (snd (tee_verify_data E m sp b data sig cs))"
  using tee_generate_keypair_settled [OF assms] tee_get_keypair_public_settled [OF assms]
    tee_delete_keypair_settled [OF assms] tee_sign_data_settled [OF assms]
    tee_verify_data_settled [OF assms] settled_accounted
  by (metis prod.collapse)

text \<open>Signing with an element that accepts the closes, and with one that refuses to close sessions.\<close>

definition stubborn_tee :: tee_env where
  "stubborn_tee = demo_tee\<lparr>C_CloseSession := (\<lambda>cs s. 5)\<rparr>"

lemma stubborn_tee_fresh: "fresh_tee stubborn_tee"
  using demo_tee_fresh by (simp add: fresh_tee_def stubborn_tee_def)

definition demo_sign :: "tee_env \<Rightarrow> tcall list" where
  "demo_sign E = snd (snd (tee_sign_data E 9 (Some \<lparr>digest_type = 0, padding_type = 0\<rparr>)
     (Some (snd (keyblob_save (replicate 32 7)))) [1, 2] [COpenSession 0 (Some 9)]))"

lemma demo_sign_eq:
  assumes "E = demo_tee \<or> E = stubborn_tee"
  shows "\<exists>x. demo_sign E = CCloseSession 10 (C_CloseSession E [] 10) # x \<and> 9 \<in> live_sessions x"
proof -
  note ok = saved_blob_ok [of "replicate 32 7", unfolded ID_LENGTH_def, simplified]
  from assms show ?thesis
    by (elim disjE) (simp_all add: demo_sign_def tee_sign_data_def crypto_session_def keyblob_restore_eq ok restore_id_def
        find_single_object_def sign_with_def stubborn_tee_def demo_tee_def scope_end_def crypto_session_end_def
        object_handle_end_def object_handle_def next_session_def next_object_def ck_consts Let_def)
qed

theorem keymaster_no_leak_witness:
  "accounted [COpenSession 0 (Some 9)] (demo_sign demo_tee) \<and> accounted [COpenSession 0 (Some 9)] (demo_sign stubborn_tee) \<and>
   CCloseSession 10 5 \<in> set (demo_sign stubborn_tee) \<and> 9 \<in> live_sessions (demo_sign demo_tee)"
proof -
  have "accounted [COpenSession 0 (Some 9)] (demo_sign demo_tee)" "accounted [COpenSession 0 (Some 9)] (demo_sign stubborn_tee)"
    using keymaster_no_leak [OF demo_tee_fresh] keymaster_no_leak [OF stubborn_tee_fresh] by (simp_all add: demo_sign_def)
  moreover have "CCloseSession 10 5 \<in> set (demo_sign stubborn_tee)" "9 \<in> live_sessions (demo_sign demo_tee)"
    using demo_sign_eq [of demo_tee] demo_sign_eq [of stubborn_tee] by (auto simp: stubborn_tee_def demo_tee_def)
  ultimately show ?thesis by simp
qed

text \<open>
  C31. An import that returns loses no handle either, also when it fails half way: the same account
  holds. When the sub-session opened and the element refused no close, exactly the sessions and handles
  from before are open.
\<close>

theorem import_no_leak:
  assumes "fresh_tee E" "tee_import_keypair E m k cs = Inr (r, b, cs')"
  shows "accounted cs cs' \<and> (\<forall>new. cs' = new @ cs \<longrightarrow> refused_sessions new = {} \<longrightarrow> refused_objects new = {} \<longrightarrow>
    (\<forall>f. COpenSession f None \<notin> set new) \<longrightarrow> live_sessions cs' = live_sessions cs \<and> live_objects cs' = live_objects cs)"
proof -
  have "accounted cs cs'" by (rule settled_accounted [OF tee_import_keypair_settled [OF assms]])
  then obtain new where n: "cs' = new @ cs" "live_sessions cs' \<subseteq> live_sessions cs \<union> refused_sessions new"
      "live_objects cs' \<subseteq> live_objects cs \<union> refused_objects new"
      "CFinalize CKR_OK \<notin> set new \<longrightarrow> live_sessions cs \<subseteq> live_sessions cs' \<and> live_objects cs \<subseteq> live_objects cs'"
      "\<forall>rv. CFinalize rv \<in> set new \<longrightarrow> (\<exists>f. COpenSession f None \<in> set new)"
    by (auto simp: accounted_def)
  have "live_sessions cs' = live_sessions cs \<and> live_objects cs' = live_objects cs"
    if "refused_sessions new = {}" "refused_objects new = {}" "\<forall>f. COpenSession f None \<notin> set new"
    using n that by blast
  with \<open>accounted cs cs'\<close> n(1) show ?thesis by auto
qed

theorem import_no_leak_witness:
  "\<exists>r b cs'. tee_import_keypair demo_tee 1 (Some []) [] = Inr (r, b, cs') \<and> live_sessions cs' = {} \<and> live_objects cs' = {}"
proof -
  have "\<exists>r b cs'. tee_import_keypair demo_tee 1 (Some []) [] = Inr (r, b, cs') \<and> refused_sessions cs' = {} \<and>
      refused_objects cs' = {} \<and> (\<forall>f. COpenSession f None \<notin> set cs')"
    by (simp add: tee_import_keypair_def import_rsa_def import_private_def demo_tee_def bignum_to_array_def generate_random_id_def
        extra_numbers_def crypto_session_def import_public_template_def import_private_template_def
        set_attribute_def keyblob_save_def next_session_def next_object_def refused_sessions_def refused_objects_def
        scope_end_def crypto_session_end_def object_handle_end_def object_handle_def ck_consts Let_def)
  then obtain r b cs' where c: "tee_import_keypair demo_tee 1 (Some []) [] = Inr (r, b, cs')"
      "refused_sessions cs' = {}" "refused_objects cs' = {}" "\<forall>f. COpenSession f None \<notin> set cs'" by blast
  from import_no_leak [OF demo_tee_fresh c(1)] c(2-4) have "live_sessions cs' = live_sessions [] \<and> live_objects cs' = live_objects []"
    unfolding append_Nil2 by blast
  with c(1) show ?thesis by simp
qed

text \<open>
  C27. A sub-session that cannot be opened takes the device down: signing then finalizes the whole
  library, which ends the device's primary session and all others, then goes on and looks keys up in
  the finalized library with an invalid session, and nothing initializes the library again.
\<close>

theorem failed_session_ends_device:
  assumes "fst (C_OpenSession E cs (CKF_SERIAL_SESSION OR CKF_RW_SESSION OR CKVF_OPEN_SUB_SESSION) m) \<noteq> CKR_OK"
    and "\<forall>hist. C_Finalize E hist = CKR_OK" "length objId = ID_LENGTH"
  shows "\<exists>r g new f. tee_sign_data E m (Some p) (Some (snd (keyblob_save objId))) data cs = (r, g, new @ CFinalize CKR_OK # COpenSession f None # cs) \<and>
    key_lookup CK_INVALID_HANDLE objId CKO_PUBLIC_KEY \<in> set new \<and> CInitialize \<notin> set new \<and>
    live_sessions (new @ CFinalize CKR_OK # COpenSession f None # cs) = {}"
proof -
  let ?b = "Some (snd (keyblob_save objId))"
  obtain f where c: "crypto_session E m cs = (CK_INVALID_HANDLE, CFinalize CKR_OK # COpenSession f None # cs)"
    using failed_session [OF assms(1)] assms(2) by (auto simp: finalize_def)
  obtain r g cs' where r: "tee_sign_data E m (Some p) ?b data cs = (r, g, cs')" using prod_cases3 by blast
  note ok = saved_blob_ok [OF assms(3)]
  from sign_after_failed_session [OF c r ok(1)] obtain new where
    n: "cs' = new @ CFinalize CKR_OK # COpenSession f None # cs" "key_lookup CK_INVALID_HANDLE objId CKO_PUBLIC_KEY \<in> set new"
      and q: "quietly (CFinalize CKR_OK # COpenSession f None # cs) cs'"
    unfolding ok(2) by blast
  have "CInitialize \<notin> set new" using q n(1) by (auto simp: quietly_def)
  with r n q quietly_sessions [OF q] show ?thesis by blast
qed

definition busy_tee :: tee_env where
  "busy_tee = demo_tee\<lparr>C_OpenSession := (\<lambda>cs fl m. (7, 0))\<rparr>"

theorem failed_session_ends_device_witness:
  "\<exists>r g cs'. tee_sign_data busy_tee 9 (Some \<lparr>digest_type = 0, padding_type = 0\<rparr>) (Some (snd (keyblob_save (replicate 32 7)))) [1]
       [COpenSession 0 (Some 9)] = (r, g, cs') \<and> 9 \<notin> live_sessions cs' \<and> 9 \<in> live_sessions [COpenSession 0 (Some 9)] \<and>
     key_lookup 0 (replicate 32 7) CKO_PUBLIC_KEY \<in> set cs'"
  using failed_session_ends_device [of busy_tee "[COpenSession 0 (Some 9)]" 9 "replicate 32 7" "\<lparr>digest_type = 0, padding_type = 0\<rparr>" "[1]"]
  by (auto simp: busy_tee_def demo_tee_def ck_consts)

section \<open>Signatures\<close>

text \<open>
  C15. The secure element is asked for a signature only when the request has neither digest nor
  padding, the blob has the saved form, the keys of its identifier were looked up in the session,
  and then for exactly the caller's data.
\<close>

theorem sign_only_when_allowed:
  assumes "tee_sign_data E m p b data cs = (r, g, cs')"
  shows "\<exists>new. cs' = new @ cs \<and> (\<forall>t d. CSign t d \<in> set new \<longrightarrow>
    (\<exists>q s. p = Some q \<and> digest_type q = DIGEST_NONE E \<and> padding_type q = PADDING_NONE E \<and>
       blob_ok b \<and> d = data \<and> key_lookup s (blob_id b) CKO_PUBLIC_KEY \<in> set new \<and>
       key_lookup s (blob_id b) CKO_PRIVATE_KEY \<in> set new))"
  using assms by (rule tee_sign_data_needs)

theorem sign_only_when_allowed_witness:
  "\<exists>g cs'. tee_sign_data demo_tee 1 (Some \<lparr>digest_type = 0, padding_type = 0\<rparr>)
       (Some (snd (keyblob_save (replicate 32 7)))) [1, 2] [] = (0, g, cs') \<and> CSign 1 [1, 2] \<in> set cs' \<and>
     (\<exists>s. key_lookup s (replicate 32 7) CKO_PRIVATE_KEY \<in> set cs')"
proof -
  let ?b = "Some (snd (keyblob_save (replicate 32 7)))"
  let ?p = "Some \<lparr>digest_type = 0, padding_type = 0\<rparr>"
  note ok = saved_blob_ok [of "replicate 32 7", unfolded ID_LENGTH_def, simplified]
  define t where "t = tee_sign_data demo_tee 1 ?p ?b [1, 2] []"
  have t: "fst t = 0 \<and> CSign 1 [1, 2] \<in> set (snd (snd t))"
    unfolding t_def
    by (simp add: tee_sign_data_def crypto_session_def keyblob_restore_eq ok restore_id_def
        find_single_object_def sign_with_def demo_tee_def scope_end_def crypto_session_end_def
        object_handle_end_def object_handle_def next_session_def next_object_def ck_consts Let_def)
  obtain g cs' where e: "t = (0, g, cs')" using t by (cases t) auto
  have m: "CSign 1 [1, 2] \<in> set cs'" using t e by simp
  obtain new where n: "cs' = new" "\<forall>t d. CSign t d \<in> set new \<longrightarrow>
      (\<exists>s. key_lookup s (blob_id ?b) CKO_PRIVATE_KEY \<in> set new)"
    using sign_only_when_allowed [OF e [unfolded t_def]] unfolding append_Nil2 by meson
  have "\<exists>s. key_lookup s (replicate 32 7) CKO_PRIVATE_KEY \<in> set cs'"
    using n m ok by metis
  with e m show ?thesis unfolding t_def by blast
qed

text \<open>
  C16. No false acceptance: verification returns 0 only if the blob has the saved form and the
  secure element accepted the signature for the caller's data.
\<close>

theorem verify_no_false_accept:
  assumes "tee_verify_data E m p b data sig cs = (0, cs')"
  shows "\<exists>s hist. C_Verify E hist s data sig = CKR_OK \<and> CVerify s data sig \<in> set cs' \<and> blob_ok b"
  using assms by (rule tee_verify_data_accepts)

theorem verify_no_false_accept_witness:
  "\<exists>cs' s. tee_verify_data demo_tee 1 (Some \<lparr>digest_type = 0, padding_type = 0\<rparr>)
       (Some (snd (keyblob_save (replicate 32 7)))) [1, 2] [2, 1] [] = (0, cs') \<and> CVerify s [1, 2] [2, 1] \<in> set cs'"
proof -
  let ?b = "Some (snd (keyblob_save (replicate 32 7)))"
  note ok = saved_blob_ok [of "replicate 32 7", unfolded ID_LENGTH_def, simplified]
  define t where "t = tee_verify_data demo_tee 1 (Some \<lparr>digest_type = 0, padding_type = 0\<rparr>) ?b [1, 2] [2, 1] []"
  have "fst t = 0"
    unfolding t_def
    by (simp add: tee_verify_data_def crypto_session_def keyblob_restore_eq ok restore_id_def
        find_single_object_def verify_with_def demo_tee_def ck_consts Let_def next_session_def)
  then obtain cs' where "t = (0, cs')" by (cases t) auto
  with verify_no_false_accept [of demo_tee 1 _ ?b "[1, 2]" "[2, 1]" "[]" cs'] show ?thesis
    unfolding t_def by blast
qed

section \<open>Creating keys\<close>

text \<open>
  The blob of a generated key pair is the saved form of the identifier that both key objects
  were generated under, so that restoring it looks up exactly these objects.
\<close>

theorem generated_key_found:
  assumes "tee_generate_keypair E m t p cs = (0, Some blob, cs')"
    and "\<forall>hist n bs. RAND_pseudo_bytes E hist n = Some bs \<longrightarrow> length bs = n"
  shows "\<exists>i s q. p = Some q \<and>
    CGenerateKeyPair s CKM_RSA_PKCS_KEY_PAIR_GEN (gen_public_template i q) (gen_private_template i) \<in> set cs' \<and>
    (\<forall>u hist. keyblob_restore E u (Some blob) hist = restore_id E u i hist)"
proof -
  from generated_blob [OF assms(1)] obtain i s q where i: "p = Some q" "blob = snd (keyblob_save i)"
      "RAND_pseudo_bytes E cs ID_LENGTH = Some i"
      "CGenerateKeyPair s CKM_RSA_PKCS_KEY_PAIR_GEN (gen_public_template i q) (gen_private_template i) \<in> set cs'"
    by blast
  with assms(2) have "length i = ID_LENGTH" by blast
  with i saved_blob_ok [of i] have "\<forall>u hist. keyblob_restore E u (Some blob) hist = restore_id E u i hist"
    by (simp add: keyblob_restore_eq)
  with i show ?thesis by blast
qed

definition demo_gen :: "int \<times> u8 list option \<times> tcall list" where
  "demo_gen = tee_generate_keypair demo_tee 1 1 (Some \<lparr>modulus_size = 2048, public_exponent = 65537\<rparr>) []"

theorem generated_key_found_witness:
  "\<exists>i u. keyblob_restore demo_tee 1 (fst (snd demo_gen)) [] = restore_id demo_tee 1 i [] \<and>
     CGenerateKeyPair u CKM_RSA_PKCS_KEY_PAIR_GEN
       (gen_public_template i \<lparr>modulus_size = 2048, public_exponent = 65537\<rparr>) (gen_private_template i)
       \<in> set (snd (snd demo_gen))"
proof -
  have "fst demo_gen = 0 \<and> fst (snd demo_gen) = Some (snd (keyblob_save (replicate 32 7)))"
    by (simp add: demo_gen_def tee_generate_keypair_def generate_random_id_def demo_tee_def ID_LENGTH_def
        crypto_session_def keyblob_save_def CKR_OK_def Let_def)
  then have e: "demo_gen = (0, Some (snd (keyblob_save (replicate 32 7))), snd (snd demo_gen))"
    by (metis prod.collapse)
  have l: "\<forall>hist n bs. RAND_pseudo_bytes demo_tee hist n = Some bs \<longrightarrow> length bs = n"
    by (simp add: demo_tee_def)
  from generated_key_found [OF e [unfolded demo_gen_def] l]
  show ?thesis by (metis demo_gen_def e fst_conv snd_conv option.inject)
qed

text \<open>
  C38. An import whose private key is refused reports failure and returns no blob, but leaves
  the public key object it has created in the token: nothing destroys it.
\<close>

theorem import_leaves_public_object:
  assumes "bignum_to_array E (rsa_n rsa) = Some n" "bignum_to_array E (rsa_e rsa) = Some e"
    "bignum_to_array E (rsa_d rsa) = Some d" "generate_random_id E cs = Some i"
    and "crypto_session E m cs = (s, cs1)" "C_CreateObject E cs1 s (import_public_template i n e) = (CKR_OK, g)"
    and "extra_attributes E (extra_numbers rsa) = Inr x"
    and "fst (C_CreateObject E (object_handle g (CCreateObject s (import_public_template i n e) CKR_OK # cs1)) s
           (import_private_template i n e d @ x)) \<noteq> CKR_OK"
  shows "\<exists>cs'. import_rsa E m rsa cs = Inr (- 1, None, cs') \<and>
    CCreateObject s (import_public_template i n e) CKR_OK \<in> set cs' \<and>
    (\<forall>t h v. CDestroyObject t h v \<in> set cs' \<longrightarrow> CDestroyObject t h v \<in> set cs)"
  using assms by (rule import_orphan)

definition demo_rsa :: rsa_key where
  "demo_rsa = \<lparr>rsa_n = 3233, rsa_e = 17, rsa_d = 413, rsa_p = None, rsa_q = None, rsa_dmp1 = None,
     rsa_dmq1 = None, rsa_iqmp = None\<rparr>"

theorem import_leaves_public_object_witness:
  "\<exists>s t cs'. import_rsa demo_tee 1 demo_rsa [] = Inr (- 1, None, cs') \<and> CCreateObject s t CKR_OK \<in> set cs' \<and>
     (\<forall>u h v. CDestroyObject u h v \<notin> set cs')"
proof -
  obtain s cs1 where c: "crypto_session demo_tee 1 [] = (s, cs1)" by fastforce
  have "\<exists>cs'. import_rsa demo_tee 1 demo_rsa [] = Inr (- 1, None, cs') \<and>
      CCreateObject s (import_public_template (replicate 32 7) (nat_bytes 3233) (nat_bytes 17)) CKR_OK \<in> set cs' \<and>
      (\<forall>t h v. CDestroyObject t h v \<in> set cs' \<longrightarrow> CDestroyObject t h v \<in> set [])"
    by (rule import_leaves_public_object [OF _ _ _ _ c, where g = "next_object cs1" and d = "nat_bytes 413" and x = "[]"])
      (simp_all add: demo_rsa_def demo_tee_def bignum_to_array_def generate_random_id_def extra_numbers_def
        ID_LENGTH_def import_public_template_def import_private_template_def set_attribute_def ck_consts)
  then show ?thesis by (metis empty_iff list.set(1))
qed

section \<open>The device\<close>

text \<open>
  A device that cannot be opened leaves no new session behind, and the library is
  asked to finalize unless its initialization itself failed; a device that was opened is closed and the
  library finalized, whose success ends every session.
\<close>

theorem tee_open_close_ok:
  assumes "tee_open E name ok cs = (r, d, cs')"
  shows "(case d of
      None \<Rightarrow> r < 0 \<and> live_sessions cs' \<subseteq> live_sessions cs \<and>
        (cs' = cs \<or> cs' = CInitialize # cs \<and> C_Initialize E cs \<noteq> CKR_OK \<or> (\<exists>rv. hd cs' = CFinalize rv))
    | Some h \<Rightarrow> r = 0 \<and> h \<in> live_sessions cs' \<and>
        (\<exists>rv fv. snd (tee_close E d cs') = CFinalize fv # CCloseSession h rv # cs' \<and>
          (fv = CKR_OK \<longrightarrow> live_sessions (snd (tee_close E d cs')) = {}) \<and>
          (rv = CKR_OK \<longrightarrow> h \<notin> live_sessions (snd (tee_close E d cs')))))"
proof (cases d)
  case None
  with tee_open_failed assms show ?thesis by auto
next
  case (Some h)
  with assms have "r = 0" by (auto simp: tee_open_def Let_def split: if_splits prod.splits)
  with Some tee_open_close assms show ?thesis by auto
qed

theorem tee_open_close_ok_witness:
  "\<exists>h cs'. tee_open demo_tee ''keymaster'' True [] = (0, Some h, cs') \<and> live_sessions (snd (tee_close demo_tee (Some h) cs')) = {}"
proof -
  have "\<exists>h cs'. tee_open demo_tee ''keymaster'' True [] = (0, Some h, cs') \<and> h \<noteq> CK_INVALID_HANDLE"
    by (simp add: tee_open_def demo_tee_def next_session_def ck_consts Let_def)
  then obtain h cs' where o: "tee_open demo_tee ''keymaster'' True [] = (0, Some h, cs')" "h \<noteq> CK_INVALID_HANDLE" by blast
  then have "\<exists>x. snd (tee_close demo_tee (Some h) cs') = CFinalize CKR_OK # x"
    by (simp add: tee_close_def finalize_def demo_tee_def CKR_OK_def)
  with tee_open_close_ok [OF o(1)] o(1) show ?thesis by auto
qed

end
