(* ===== verification/Keymaster_Token.thy ===== *)
theory Keymaster_Token
  imports Keymaster_Props
begin

unbundle bit_operations_syntax

text \<open>
  The keymaster together with a secure element that does what the PKCS#11 standard documents:
  a key pair that has been generated can be found under its identifier until it is destroyed, the
  private key signs, and the public key accepts what the private key has signed. The operations of
  the keymaster then compose: a key signs, its signatures verify, and a deleted key is gone.
\<close>

section \<open>What the secure element promises\<close>

text \<open>
  A view of the element, from the history of calls: the key objects it stores, by identifier and
  class; the object an open handle stands for; the data it can sign (raw RSA takes blocks of a fixed
  size); and which signatures are good for the key of an identifier.
\<close>

record token_view =
  stored :: "tcall list \<Rightarrow> (u8 list \<times> int) set"
  names :: "tcall list \<Rightarrow> object \<Rightarrow> (u8 list \<times> int) option"
  signable :: "u8 list \<Rightarrow> bool"
  good :: "u8 list \<Rightarrow> u8 list \<Rightarrow> u8 list \<Rightarrow> bool"

definition lookup_call :: "session \<Rightarrow> u8 list \<times> int \<Rightarrow> tcall" where
  "lookup_call s x = CFindObjectsInit s [(CKA_ID, BytesV (fst x)), (CKA_CLASS, ULongV (snd x))]"

fun changes_store :: "tcall \<Rightarrow> bool" where
  "changes_store (CGenerateKeyPair s m a b) = True"
| "changes_store (CCreateObject s a rv) = True"
| "changes_store (CDestroyObject s h rv) = True"
| "changes_store _ = False"

definition finds :: "tee_env \<Rightarrow> token_view \<Rightarrow> bool" where
  "finds E V \<longleftrightarrow>
     (\<forall>cs s a. C_FindObjectsInit E cs s a = CKR_OK) \<and>
     (\<forall>cs s x. x \<in> stored V cs \<longrightarrow>
        (\<exists>h. C_FindObjects E (lookup_call s x # cs) s = (CKR_OK, h, 1) \<and> h \<noteq> CK_INVALID_HANDLE \<and>
           names V (GotObject h # CFindObjectsFinal s # CFindObjects s # lookup_call s x # cs) h = Some x)) \<and>
     (\<forall>cs s x. x \<notin> stored V cs \<longrightarrow> (\<exists>h. C_FindObjects E (lookup_call s x # cs) s = (CKR_OK, h, 0)))"

definition remembers :: "tee_env \<Rightarrow> token_view \<Rightarrow> bool" where
  "remembers E V \<longleftrightarrow>
     (\<forall>c cs. \<not> changes_store c \<longrightarrow> stored V (c # cs) = stored V cs) \<and>
     (\<forall>c cs h. c \<noteq> GotObject h \<and> (\<forall>p rv. c \<noteq> CCloseObjectHandle p h rv) \<and> (\<forall>rv. c \<noteq> CFinalize rv) \<longrightarrow>
        names V (c # cs) h = names V cs h) \<and>
     (\<forall>cs s m a b g h i. C_GenerateKeyPair E cs s a b = (CKR_OK, g, h) \<and>
        (CKA_ID, BytesV i) \<in> set a \<and> (CKA_ID, BytesV i) \<in> set b \<longrightarrow>
        {(i, CKO_PUBLIC_KEY), (i, CKO_PRIVATE_KEY)} \<subseteq> stored V (CGenerateKeyPair s m a b # cs)) \<and>
     (\<forall>cs s h x. names V cs h = Some x \<longrightarrow> C_DestroyObject E cs s h = CKR_OK \<and>
        stored V (CDestroyObject s h CKR_OK # cs) = stored V cs - {x})"

definition signs :: "tee_env \<Rightarrow> token_view \<Rightarrow> bool" where
  "signs E V \<longleftrightarrow>
     (\<forall>cs s h i. names V cs h = Some (i, CKO_PRIVATE_KEY) \<longrightarrow> C_SignInit E cs s h = CKR_OK) \<and>
     (\<forall>cs s h i d. names V cs h = Some (i, CKO_PRIVATE_KEY) \<and> signable V d \<longrightarrow>
        (\<exists>g. C_Sign E (CSignInit s CKM_RSA_X_509 h # cs) s d = (CKR_OK, g) \<and> good V i d g)) \<and>
     (\<forall>cs s h i. names V cs h = Some (i, CKO_PUBLIC_KEY) \<longrightarrow> C_VerifyInit E cs s h = CKR_OK) \<and>
     (\<forall>cs s h i d g. names V cs h = Some (i, CKO_PUBLIC_KEY) \<and> good V i d g \<longrightarrow>
        C_Verify E (CVerifyInit s CKM_RSA_X_509 h # cs) s d g = CKR_OK)"

definition honest :: "tee_env \<Rightarrow> token_view \<Rightarrow> bool" where
  "honest E V \<longleftrightarrow> fresh_tee E \<and> finds E V \<and> remembers E V \<and> signs E V \<and>
     (\<forall>cs fl m. \<exists>s. C_OpenSession E cs fl m = (CKR_OK, s) \<and> s \<noteq> CK_INVALID_HANDLE) \<and>
     (\<forall>cs n bs. RAND_pseudo_bytes E cs n = Some bs \<longrightarrow> length bs = n)"

section \<open>Sessions and lookups\<close>

lemma stored_plain [simp]:
  assumes "remembers E V" "\<not> changes_store c"
  shows "stored V (c # cs) = stored V cs"
proof -
  have "\<forall>c cs. \<not> changes_store c \<longrightarrow> stored V (c # cs) = stored V cs"
    using assms(1) unfolding remembers_def by (elim conjE)
  with assms(2) show ?thesis by iprover
qed

lemma names_other:
  assumes "remembers E V" "c \<noteq> GotObject h" "\<And>p rv. c \<noteq> CCloseObjectHandle p h rv" "\<And>rv. c \<noteq> CFinalize rv"
  shows "names V (c # cs) h = names V cs h"
proof -
  have "\<forall>c cs h. c \<noteq> GotObject h \<and> (\<forall>p rv. c \<noteq> CCloseObjectHandle p h rv) \<and> (\<forall>rv. c \<noteq> CFinalize rv) \<longrightarrow>
      names V (c # cs) h = names V cs h"
    using assms(1) unfolding remembers_def by (elim conjE)
  with assms(2-4) show ?thesis by iprover
qed

lemma honest_session:
  assumes "honest E V"
  obtains s cs' where "crypto_session E m cs = (s, cs')" "stored V cs' = stored V cs"
proof -
  let ?f = "CKF_SERIAL_SESSION OR CKF_RW_SESSION OR CKVF_OPEN_SUB_SESSION"
  obtain s where "C_OpenSession E cs ?f m = (CKR_OK, s)" "s \<noteq> CK_INVALID_HANDLE"
    using assms unfolding honest_def by metis
  then have "crypto_session E m cs = (s, COpenSession ?f (Some s) # cs)"
    by (simp add: crypto_session_def Let_def)
  with that assms show thesis by (auto simp: honest_def)
qed

lemma stored_scope_end: "remembers E V \<Longrightarrow> stored V (scope_end E p s pub priv cs) = stored V cs"
  by (simp add: scope_end_def crypto_session_end_def object_handle_end_def)

lemma find_stored:
  assumes "honest E V" "(i, c) \<in> stored V cs"
  obtains h cs' where "find_single_object E i c s cs = (0, h, cs')" "names V cs' h = Some (i, c)"
    "stored V cs' = stored V cs" "h \<notin> live_objects cs" "h \<in> live_objects cs'"
    "\<And>k x. k \<noteq> h \<Longrightarrow> names V cs' k = names V cs k"
proof -
  let ?hist = "lookup_call s (i, c) # cs"
  have f: "finds E V" "remembers E V" "fresh_tee E" using assms(1) by (simp_all add: honest_def)
  from f(1) assms(2) obtain h where h: "C_FindObjects E ?hist s = (CKR_OK, h, 1)" "h \<noteq> CK_INVALID_HANDLE"
      "names V (GotObject h # CFindObjectsFinal s # CFindObjects s # ?hist) h = Some (i, c)"
    unfolding finds_def by metis
  let ?cs = "GotObject h # CFindObjectsFinal s # CFindObjects s # ?hist"
  have "find_single_object E i c s cs = (0, h, ?cs)"
    using f(1) h(1,2) by (simp add: find_single_object_def lookup_call_def object_handle_def finds_def)
  moreover have "h \<notin> live_objects ?hist" using f(3) h(1) by (fastforce simp: fresh_tee_def)
  then have "h \<notin> live_objects cs" by (simp add: lookup_call_def)
  moreover have "h \<in> live_objects ?cs" by simp
  moreover have "stored V ?cs = stored V cs" using f(2) by (simp add: lookup_call_def)
  moreover have "names V ?cs k = names V cs k" if "k \<noteq> h" for k
    using f(2) that by (simp add: names_other lookup_call_def)
  ultimately show thesis using h(3) by (intro that)
qed

lemma find_missing:
  assumes "honest E V" "(i, c) \<notin> stored V cs"
  shows "\<exists>cs'. find_single_object E i c s cs = (- 1, CK_INVALID_HANDLE, cs')"
proof -
  have f: "finds E V" using assms(1) by (simp add: honest_def)
  with assms(2) obtain h where "C_FindObjects E (lookup_call s (i, c) # cs) s = (CKR_OK, h, 0)"
    by (fastforce simp: finds_def)
  with f show ?thesis by (simp add: find_single_object_def lookup_call_def finds_def)
qed

definition pair_stored :: "token_view \<Rightarrow> tcall list \<Rightarrow> u8 list \<Rightarrow> bool" where
  "pair_stored V cs i \<longleftrightarrow> (i, CKO_PUBLIC_KEY) \<in> stored V cs \<and> (i, CKO_PRIVATE_KEY) \<in> stored V cs"

lemma restore_stored:
  assumes "honest E V" "pair_stored V cs i"
  obtains pub priv cs' where "restore_id E s i cs = (0, pub, priv, cs')"
    "names V cs' pub = Some (i, CKO_PUBLIC_KEY)" "names V cs' priv = Some (i, CKO_PRIVATE_KEY)"
    "stored V cs' = stored V cs"
proof -
  from assms(2) have st: "(i, CKO_PUBLIC_KEY) \<in> stored V cs" "(i, CKO_PRIVATE_KEY) \<in> stored V cs"
    by (simp_all add: pair_stored_def)
  from find_stored [OF assms(1) st(1), of s] obtain pub cs1 where
    1: "find_single_object E i CKO_PUBLIC_KEY s cs = (0, pub, cs1)" "names V cs1 pub = Some (i, CKO_PUBLIC_KEY)"
      "stored V cs1 = stored V cs" "pub \<in> live_objects cs1" by metis
  from st(2) 1(3) have "(i, CKO_PRIVATE_KEY) \<in> stored V cs1" by simp
  from find_stored [OF assms(1) this, of s] obtain priv cs2 where
    2: "find_single_object E i CKO_PRIVATE_KEY s cs1 = (0, priv, cs2)" "names V cs2 priv = Some (i, CKO_PRIVATE_KEY)"
      "stored V cs2 = stored V cs1" "priv \<notin> live_objects cs1" "\<And>k. k \<noteq> priv \<Longrightarrow> names V cs2 k = names V cs1 k"
    by metis
  have "pub \<noteq> priv" using 1(4) 2(4) by blast
  then have "names V cs2 pub = Some (i, CKO_PUBLIC_KEY)" using 1(2) 2(5) by simp
  with that 1 2 show thesis by (simp add: restore_id_def)
qed

lemma restore_missing:
  assumes "honest E V" "(i, CKO_PUBLIC_KEY) \<notin> stored V cs"
  shows "\<exists>cs'. restore_id E s i cs = (1, CK_INVALID_HANDLE, CK_INVALID_HANDLE, cs')"
  using find_missing [OF assms, of s] by (auto simp: restore_id_def)

section \<open>The operations\<close>

definition plain_params :: "tee_env \<Rightarrow> rsa_sign_params" where
  "plain_params E = \<lparr>digest_type = DIGEST_NONE E, padding_type = PADDING_NONE E\<rparr>"

lemma honest_parts:
  assumes "honest E V"
  shows "fresh_tee E" "finds E V" "remembers E V" "signs E V"
  using assms by (simp_all add: honest_def)

lemma honest_sign:
  assumes "honest E V" "pair_stored V cs i" "length i = ID_LENGTH" "signable V data"
  obtains g cs' where
    "tee_sign_data E m (Some (plain_params E)) (Some (snd (keyblob_save i))) data cs = (0, Some g, cs')"
    "good V i data g" "stored V cs' = stored V cs"
proof -
  note V = honest_parts [OF assms(1)]
  obtain s cs1 where 1: "crypto_session E m cs = (s, cs1)" "stored V cs1 = stored V cs"
    using honest_session [OF assms(1)] by metis
  have "pair_stored V cs1 i" using assms(2) 1(2) by (simp add: pair_stored_def)
  from restore_stored [OF assms(1) this, of s] obtain pub priv cs2 where
    2: "restore_id E s i cs1 = (0, pub, priv, cs2)" "names V cs2 priv = Some (i, CKO_PRIVATE_KEY)"
      "stored V cs2 = stored V cs1" by metis
  have init: "C_SignInit E cs2 s priv = CKR_OK" using V(4) 2(2) unfolding signs_def by metis
  obtain g where g: "C_Sign E (CSignInit s CKM_RSA_X_509 priv # cs2) s data = (CKR_OK, g)" "good V i data g"
    using V(4) 2(2) assms(4) unfolding signs_def by metis
  let ?cs = "CSign s data # CSignInit s CKM_RSA_X_509 priv # cs2"
  have "tee_sign_data E m (Some (plain_params E)) (Some (snd (keyblob_save i))) data cs =
      (0, Some g, scope_end E m s pub priv ?cs)"
    by (simp add: tee_sign_data_def plain_params_def 1 keyblob_restore_eq saved_blob_ok [OF assms(3)] 2(1)
        sign_with_def init g(1))
  moreover have "stored V (scope_end E m s pub priv ?cs) = stored V cs"
    using V(3) 1(2) 2(3) by (simp add: stored_scope_end)
  ultimately show thesis using g(2) that by blast
qed

lemma honest_verify:
  assumes "honest E V" "pair_stored V cs i" "length i = ID_LENGTH" "good V i data g"
  obtains cs' where
    "tee_verify_data E m (Some (plain_params E)) (Some (snd (keyblob_save i))) data g cs = (0, cs')"
    "stored V cs' = stored V cs"
proof -
  note V = honest_parts [OF assms(1)]
  obtain s cs1 where 1: "crypto_session E m cs = (s, cs1)" "stored V cs1 = stored V cs"
    using honest_session [OF assms(1)] by metis
  have "pair_stored V cs1 i" using assms(2) 1(2) by (simp add: pair_stored_def)
  from restore_stored [OF assms(1) this, of s] obtain pub priv cs2 where
    2: "restore_id E s i cs1 = (0, pub, priv, cs2)" "names V cs2 pub = Some (i, CKO_PUBLIC_KEY)"
      "stored V cs2 = stored V cs1" by metis
  have init: "C_VerifyInit E cs2 s pub = CKR_OK"
    and ok: "C_Verify E (CVerifyInit s CKM_RSA_X_509 pub # cs2) s data g = CKR_OK"
    using V(4) 2(2) assms(4) unfolding signs_def by metis+
  let ?cs = "CVerify s data g # CVerifyInit s CKM_RSA_X_509 pub # cs2"
  have "tee_verify_data E m (Some (plain_params E)) (Some (snd (keyblob_save i))) data g cs =
      (0, scope_end E m s pub priv ?cs)"
    by (simp add: tee_verify_data_def plain_params_def 1 keyblob_restore_eq saved_blob_ok [OF assms(3)] 2(1)
        verify_with_def init ok)
  moreover have "stored V (scope_end E m s pub priv ?cs) = stored V cs"
    using V(3) 1(2) 2(3) by (simp add: stored_scope_end)
  ultimately show thesis using that by blast
qed

lemma destroyed:
  assumes "remembers E V" "names V cs h = Some x"
  shows "C_DestroyObject E cs s h = CKR_OK" "stored V (CDestroyObject s h CKR_OK # cs) = stored V cs - {x}"
  using assms unfolding remembers_def by metis+

lemma honest_delete:
  assumes "honest E V" "pair_stored V cs i" "length i = ID_LENGTH"
  obtains cs' where "tee_delete_keypair E m (Some (snd (keyblob_save i))) cs = (0, cs')"
    "stored V cs' = stored V cs - {(i, CKO_PUBLIC_KEY), (i, CKO_PRIVATE_KEY)}"
proof -
  note V = honest_parts [OF assms(1)]
  obtain s cs1 where 1: "crypto_session E m cs = (s, cs1)" "stored V cs1 = stored V cs"
    using honest_session [OF assms(1)] by metis
  have "pair_stored V cs1 i" using assms(2) 1(2) by (simp add: pair_stored_def)
  from restore_stored [OF assms(1) this, of s] obtain pub priv cs2 where
    2: "restore_id E s i cs1 = (0, pub, priv, cs2)" "names V cs2 pub = Some (i, CKO_PUBLIC_KEY)"
      "names V cs2 priv = Some (i, CKO_PRIVATE_KEY)" "stored V cs2 = stored V cs1" by metis
  let ?cs3 = "CDestroyObject s priv CKR_OK # cs2"
  have 3: "names V ?cs3 pub = Some (i, CKO_PUBLIC_KEY)" using names_other [OF V(3)] 2(2) by simp
  note a = destroyed [OF V(3) 2(3), of s] and b = destroyed [OF V(3) 3, of s]
  let ?cs4 = "CDestroyObject s pub CKR_OK # ?cs3"
  have "tee_delete_keypair E m (Some (snd (keyblob_save i))) cs = (0, scope_end E m s pub priv ?cs4)"
    by (simp add: tee_delete_keypair_def 1 keyblob_restore_eq saved_blob_ok [OF assms(3)] 2(1) destroy_pair_def a b)
  moreover have "stored V (scope_end E m s pub priv ?cs4) = stored V cs - {(i, CKO_PUBLIC_KEY), (i, CKO_PRIVATE_KEY)}"
    using V(3) 1(2) 2(4) a b by (simp add: stored_scope_end) blast
  ultimately show thesis using that by blast
qed

lemma honest_sign_deleted:
  assumes "honest E V" "(i, CKO_PUBLIC_KEY) \<notin> stored V cs" "length i = ID_LENGTH"
  shows "\<exists>cs'. tee_sign_data E m (Some p) (Some (snd (keyblob_save i))) data cs = (- 1, None, cs')"
proof -
  obtain s cs1 where 1: "crypto_session E m cs = (s, cs1)" "stored V cs1 = stored V cs"
    using honest_session [OF assms(1)] by metis
  with restore_missing [OF assms(1), of i cs1 s] assms(2) obtain cs2 where
    "restore_id E s i cs1 = (1, CK_INVALID_HANDLE, CK_INVALID_HANDLE, cs2)" by auto
  then show ?thesis
    by (simp add: tee_sign_data_def 1 keyblob_restore_eq saved_blob_ok [OF assms(3)])
qed

lemma honest_generate:
  assumes "honest E V" "tee_generate_keypair E m t p cs = (0, Some blob, cs')"
  obtains i where "length i = ID_LENGTH" "blob = snd (keyblob_save i)" "pair_stored V cs' i"
proof -
  note V = honest_parts [OF assms(1)]
  obtain q i where q: "t = TYPE_RSA E" "p = Some q" "RAND_pseudo_bytes E cs ID_LENGTH = Some i"
    using assms(2) by (auto simp: tee_generate_keypair_def generate_random_id_def split: if_splits option.splits)
  have "length i = ID_LENGTH" using q(3) assms(1) unfolding honest_def by metis
  obtain s cs1 where 1: "crypto_session E m cs = (s, cs1)" by fastforce
  let ?a = "gen_public_template i q" and ?b = "gen_private_template i"
  obtain rv g h where 2: "C_GenerateKeyPair E cs1 s ?a ?b = (rv, g, h)" using prod_cases3 by blast
  let ?call = "CGenerateKeyPair s CKM_RSA_PKCS_KEY_PAIR_GEN ?a ?b"
  have r: "rv = CKR_OK" "blob = snd (keyblob_save i)"
    "cs' = scope_end E m s g h (object_handle h (object_handle g (?call # cs1)))"
    using assms(2) q 1 2
    by (auto simp: tee_generate_keypair_def generate_random_id_def keyblob_save_def Let_def split: if_splits)
  have "(CKA_ID, BytesV i) \<in> set ?a" "(CKA_ID, BytesV i) \<in> set ?b"
    by (simp_all add: gen_public_template_def gen_private_template_def)
  then have "{(i, CKO_PUBLIC_KEY), (i, CKO_PRIVATE_KEY)} \<subseteq> stored V (?call # cs1)"
    using V(3) 2 r(1) unfolding remembers_def by metis
  then have "pair_stored V cs' i"
    using V(3) by (simp add: r(3) pair_stored_def stored_scope_end object_handle_def)
  with that \<open>length i = ID_LENGTH\<close> r(2) show thesis by blast
qed

section \<open>The life of a key\<close>

text \<open>
  C6. On an honest secure element the operations compose: the blob of a generated key signs
  every block the element can sign, the signature is one of that key and verifies under the same blob, the
  key can be deleted, which takes exactly its two objects out of the element, and after that the blob
  no longer signs.
\<close>

theorem keymaster_lifecycle:
  assumes "honest E V" "signable V data"
    and "tee_generate_keypair E m t p cs = (0, Some blob, h1)"
  shows "\<exists>i g h2 h3 h4 h5. blob = snd (keyblob_save i) \<and> good V i data g \<and>
    tee_sign_data E m (Some (plain_params E)) (Some blob) data h1 = (0, Some g, h2) \<and>
    tee_verify_data E m (Some (plain_params E)) (Some blob) data g h2 = (0, h3) \<and>
    tee_delete_keypair E m (Some blob) h3 = (0, h4) \<and>
    stored V h4 = stored V h1 - {(i, CKO_PUBLIC_KEY), (i, CKO_PRIVATE_KEY)} \<and>
    tee_sign_data E m (Some (plain_params E)) (Some blob) data h4 = (- 1, None, h5)"
proof -
  obtain i where i: "length i = ID_LENGTH" "blob = snd (keyblob_save i)" "pair_stored V h1 i"
    using honest_generate [OF assms(1,3)] by metis
  obtain g h2 where 2: "tee_sign_data E m (Some (plain_params E)) (Some blob) data h1 = (0, Some g, h2)"
      "good V i data g" "stored V h2 = stored V h1"
    using honest_sign [OF assms(1) i(3,1) assms(2)] i(2) by metis
  have "pair_stored V h2 i" using i(3) 2(3) by (simp add: pair_stored_def)
  then obtain h3 where 3: "tee_verify_data E m (Some (plain_params E)) (Some blob) data g h2 = (0, h3)"
      "stored V h3 = stored V h2"
    using honest_verify [OF assms(1) _ i(1) 2(2)] i(2) by metis
  have "pair_stored V h3 i" using i(3) 2(3) 3(2) by (simp add: pair_stored_def)
  then obtain h4 where 4: "tee_delete_keypair E m (Some blob) h3 = (0, h4)"
      "stored V h4 = stored V h3 - {(i, CKO_PUBLIC_KEY), (i, CKO_PRIVATE_KEY)}"
    using honest_delete [OF assms(1) _ i(1)] i(2) by metis
  have "(i, CKO_PUBLIC_KEY) \<notin> stored V h4" by (simp add: 4(2))
  from honest_sign_deleted [OF assms(1) this i(1)] obtain h5 where
    "tee_sign_data E m (Some (plain_params E)) (Some blob) data h4 = (- 1, None, h5)"
    unfolding i(2) by metis
  moreover have "stored V h4 = stored V h1 - {(i, CKO_PUBLIC_KEY), (i, CKO_PRIVATE_KEY)}"
    using 2(3) 3(2) 4(2) by simp
  ultimately show ?thesis using i(2) 2(1,2) 3(1) 4(1) by blast
qed

section \<open>A concrete honest element\<close>

fun last_lookup :: "tcall list \<Rightarrow> (u8 list \<times> int) option" where
  "last_lookup (CFindObjectsInit s [(a, BytesV i), (b, ULongV c)] # cs) = Some (i, c)"
| "last_lookup (c # cs) = last_lookup cs"
| "last_lookup [] = None"

fun toy_names :: "tcall list \<Rightarrow> object \<Rightarrow> (u8 list \<times> int) option" where
  "toy_names [] h = None"
| "toy_names (GotObject k # cs) h = (if h = k then last_lookup cs else toy_names cs h)"
| "toy_names (CCloseObjectHandle p k rv # cs) h = (if h = k then None else toy_names cs h)"
| "toy_names (_ # cs) h = toy_names cs h"

definition template_ids :: "ck_attribute list \<Rightarrow> u8 list list" where
  "template_ids as = concat (map (\<lambda>(t, v). case v of BytesV i \<Rightarrow> if t = CKA_ID then [i] else [] | _ \<Rightarrow> []) as)"

fun toy_store :: "tcall list \<Rightarrow> (u8 list \<times> int) list" where
  "toy_store [] = []"
| "toy_store (CGenerateKeyPair s m a b # cs) =
     map (\<lambda>i. (i, CKO_PUBLIC_KEY)) (template_ids a) @ map (\<lambda>i. (i, CKO_PRIVATE_KEY)) (template_ids b) @ toy_store cs"
| "toy_store (CDestroyObject s h rv # cs) =
     (case toy_names cs h of None \<Rightarrow> toy_store cs | Some x \<Rightarrow> removeAll x (toy_store cs))"
| "toy_store (_ # cs) = toy_store cs"

definition toy_find :: "tcall list \<Rightarrow> session \<Rightarrow> int \<times> object \<times> int" where
  "toy_find cs s =
     (0, next_object cs,
      case cs of [] \<Rightarrow> 0
      | _ # cs' \<Rightarrow> (case last_lookup cs of None \<Rightarrow> 0 | Some x \<Rightarrow> if x \<in> set (toy_store cs') then 1 else 0))"

definition key_of :: "tcall list \<Rightarrow> u8 list" where
  "key_of cs = (case cs of CSignInit s m h # cs' \<Rightarrow> (case toy_names cs' h of None \<Rightarrow> [] | Some (i, c) \<Rightarrow> i)
                | CVerifyInit s m h # cs' \<Rightarrow> (case toy_names cs' h of None \<Rightarrow> [] | Some (i, c) \<Rightarrow> i)
                | _ \<Rightarrow> [])"

definition toy_tee :: tee_env where
  "toy_tee = demo_tee\<lparr>C_FindObjects := toy_find,
     C_Sign := (\<lambda>cs s d. (0, key_of cs @ d)),
     C_Verify := (\<lambda>cs s d g. if g = key_of cs @ d then 0 else 0xC0)\<rparr>"

definition toy_view :: token_view where
  "toy_view = \<lparr>stored = (\<lambda>cs. set (toy_store cs)), names = toy_names, signable = (\<lambda>d. True),
     good = (\<lambda>i d g. g = i @ d)\<rparr>"

lemma template_ids_mem: "i \<in> set (template_ids as) \<longleftrightarrow> (CKA_ID, BytesV i) \<in> set as"
  by (force simp: template_ids_def split: attr_value.splits if_splits)

lemma last_lookup_call: "last_lookup (lookup_call s x # cs) = Some x"
  by (simp add: lookup_call_def)

lemma toy_store_plain: "\<not> changes_store c \<Longrightarrow> toy_store (c # cs) = toy_store cs"
  by (cases c) auto

lemma toy_names_other:
  "c \<noteq> GotObject h \<Longrightarrow> \<forall>p rv. c \<noteq> CCloseObjectHandle p h rv \<Longrightarrow> toy_names (c # cs) h = toy_names cs h"
  by (cases c) auto

lemma toy_finds: "finds toy_tee toy_view"
  unfolding finds_def
  by (auto simp: toy_tee_def toy_view_def toy_find_def demo_tee_def last_lookup_call CKR_OK_def
      CK_INVALID_HANDLE_def next_object_def simp del: last_lookup.simps)
    (simp_all add: last_lookup_call lookup_call_def)

lemma toy_remembers: "remembers toy_tee toy_view"
  unfolding remembers_def
  by (auto simp: toy_tee_def toy_view_def demo_tee_def toy_store_plain toy_names_other template_ids_mem CKR_OK_def)

lemma toy_signs: "signs toy_tee toy_view"
  unfolding signs_def by (auto simp: toy_tee_def toy_view_def demo_tee_def key_of_def CKR_OK_def)

lemma toy_fresh: "fresh_tee toy_tee"
  by (auto simp: fresh_tee_def toy_tee_def demo_tee_def toy_find_def next_session_fresh next_object_fresh)

lemma next_session_pos: "next_session cs \<noteq> CK_INVALID_HANDLE"
  by (simp add: next_session_def CK_INVALID_HANDLE_def)

lemma toy_sessions: "C_OpenSession toy_tee cs fl m = (CKR_OK, next_session cs)"
  by (simp add: toy_tee_def demo_tee_def CKR_OK_def)

lemma toy_random: "RAND_pseudo_bytes toy_tee cs n = Some (replicate n 7)"
  by (simp add: toy_tee_def demo_tee_def)

lemma toy_honest: "honest toy_tee toy_view"
  unfolding honest_def using toy_fresh toy_finds toy_remembers toy_signs
  by (simp add: toy_sessions toy_random next_session_pos)

theorem keymaster_lifecycle_witness:
  "\<exists>blob g h1 h2 h3 h4 h5.
     tee_generate_keypair toy_tee 1 1 (Some \<lparr>modulus_size = 2048, public_exponent = 65537\<rparr>) [] = (0, Some blob, h1) \<and>
     tee_sign_data toy_tee 1 (Some (plain_params toy_tee)) (Some blob) [1, 2] h1 = (0, Some g, h2) \<and>
     tee_verify_data toy_tee 1 (Some (plain_params toy_tee)) (Some blob) [1, 2] g h2 = (0, h3) \<and>
     tee_delete_keypair toy_tee 1 (Some blob) h3 = (0, h4) \<and>
     tee_sign_data toy_tee 1 (Some (plain_params toy_tee)) (Some blob) [1, 2] h4 = (- 1, None, h5)"
proof -
  let ?p = "Some \<lparr>modulus_size = 2048, public_exponent = 65537\<rparr>"
  have "\<exists>blob h1. tee_generate_keypair toy_tee 1 1 ?p [] = (0, Some blob, h1)"
    by (simp add: tee_generate_keypair_def generate_random_id_def toy_tee_def demo_tee_def
        crypto_session_def keyblob_save_def CKR_OK_def Let_def)
  then obtain blob h1 where g: "tee_generate_keypair toy_tee 1 1 ?p [] = (0, Some blob, h1)" by blast
  have "signable toy_view [1, 2]" by (simp add: toy_view_def)
  from keymaster_lifecycle [OF toy_honest this g] obtain sig h2 h3 h4 h5 where
    "tee_sign_data toy_tee 1 (Some (plain_params toy_tee)) (Some blob) [1, 2] h1 = (0, Some sig, h2)"
    "tee_verify_data toy_tee 1 (Some (plain_params toy_tee)) (Some blob) [1, 2] sig h2 = (0, h3)"
    "tee_delete_keypair toy_tee 1 (Some blob) h3 = (0, h4)"
    "tee_sign_data toy_tee 1 (Some (plain_params toy_tee)) (Some blob) [1, 2] h4 = (- 1, None, h5)"
    by (elim exE conjE)
  with g show ?thesis by (intro exI conjI)
qed

end
