(* ===== verification/Byte_Array.thy ===== *)
theory Byte_Array
  imports Keymaster_Props
begin

unbundle bit_operations_syntax

text \<open>
  The memory behind \<open>keymaster_grouper.cpp\<close>: the class \<open>ByteArray\<close>, the smart
  pointer \<open>Unique_ByteArray\<close>, and the three functions that build byte arrays, on an explicit
  heap. \<open>Keymaster\<close> has the same functions on plain byte strings; the lemmas here show that the
  heap versions compute these strings, stay inside their blocks, and what they leave allocated.
\<close>

section \<open>The heap\<close>

text \<open>
  Two kinds of blocks: byte arrays from \<open>new CK_BYTE[n]\<close> and objects of class \<open>ByteArray\<close>.
  Addresses from \<open>limit\<close> on have never been used; \<open>stale\<close> is what fresh memory holds. The
  operator \<open>new\<close> does not return null: it stops the process when memory runs out, so the tests
  of its result in the code never fail.
\<close>

record byte_array =
  mArray :: "nat option"
  mLength :: nat

record cheap =
  blocks :: "nat \<rightharpoonup> u8 list"
  objects :: "nat \<rightharpoonup> byte_array"
  limit :: nat
  stale :: "nat \<Rightarrow> u8"

definition heap_ok :: "cheap \<Rightarrow> bool" where
  "heap_ok h \<longleftrightarrow> (\<forall>a. limit h \<le> a \<longrightarrow> blocks h a = None \<and> objects h a = None)"

definition new_bytes :: "nat \<Rightarrow> cheap \<Rightarrow> nat \<times> cheap" where
  "new_bytes n h =
     (limit h, h\<lparr>blocks := (blocks h)(limit h \<mapsto> map (stale h) [0..<n]), limit := Suc (limit h)\<rparr>)"

definition delete_bytes :: "nat \<Rightarrow> cheap \<Rightarrow> cheap res" where
  "delete_bytes a h =
     (if blocks h a = None then Inl Aborted else Inr (h\<lparr>blocks := (blocks h)(a := None)\<rparr>))"

definition store_byte :: "nat option \<Rightarrow> nat \<Rightarrow> u8 \<Rightarrow> cheap \<Rightarrow> cheap res" where
  "store_byte p i b h =
     (case p of
        None \<Rightarrow> Inl NullDeref
      | Some a \<Rightarrow>
          (case blocks h a of
             None \<Rightarrow> Inl OutOfBounds
           | Some bs \<Rightarrow> if i < length bs then Inr (h\<lparr>blocks := (blocks h)(a \<mapsto> bs[i := b])\<rparr>) else Inl OutOfBounds))"

text \<open>Storing a byte string from index \<open>i\<close> on, a byte at a time: \<open>memcpy\<close> and the writes of the libraries.\<close>

fun store_bytes :: "nat option \<Rightarrow> nat \<Rightarrow> u8 list \<Rightarrow> cheap \<Rightarrow> cheap res" where
  "store_bytes p i [] h = Inr h"
| "store_bytes p i (b # bs) h = bind_res (store_byte p i b h) (store_bytes p (Suc i) bs)"

text \<open>Reading \<open>n\<close> bytes.\<close>

definition load_bytes :: "nat option \<Rightarrow> nat \<Rightarrow> cheap \<Rightarrow> u8 list res" where
  "load_bytes p n h =
     (case p of
        None \<Rightarrow> Inl NullDeref
      | Some a \<Rightarrow>
          (case blocks h a of
             None \<Rightarrow> Inl OutOfBounds
           | Some bs \<Rightarrow> if n \<le> length bs then Inr (take n bs) else Inl OutOfBounds))"

section \<open>The class ByteArray\<close>

definition ByteArray_of :: "nat \<Rightarrow> nat \<Rightarrow> cheap \<Rightarrow> nat \<times> cheap" where
  "ByteArray_of array len h =
     (limit h, h\<lparr>objects := (objects h)(limit h \<mapsto> \<lparr>mArray = Some array, mLength = len\<rparr>), limit := Suc (limit h)\<rparr>)"

definition ByteArray_new :: "nat \<Rightarrow> cheap \<Rightarrow> nat \<times> cheap" where
  "ByteArray_new len h = (let (a, h) = new_bytes len h in ByteArray_of a len h)"

definition ByteArray_get :: "nat \<Rightarrow> cheap \<Rightarrow> nat option res" where
  "ByteArray_get x h = (case objects h x of None \<Rightarrow> Inl OutOfBounds | Some b \<Rightarrow> Inr (mArray b))"

definition ByteArray_setLength :: "nat \<Rightarrow> nat \<Rightarrow> cheap \<Rightarrow> cheap res" where
  "ByteArray_setLength x n h =
     (case objects h x of
        None \<Rightarrow> Inl OutOfBounds
      | Some b \<Rightarrow> Inr (h\<lparr>objects := (objects h)(x \<mapsto> b\<lparr>mLength := n\<rparr>)\<rparr>))"

definition ByteArray_length :: "nat \<Rightarrow> cheap \<Rightarrow> nat res" where
  "ByteArray_length x h = (case objects h x of None \<Rightarrow> Inl OutOfBounds | Some b \<Rightarrow> Inr (mLength b))"

definition ByteArray_release :: "nat \<Rightarrow> cheap \<Rightarrow> (nat option \<times> cheap) res" where
  "ByteArray_release x h =
     (case objects h x of
        None \<Rightarrow> Inl OutOfBounds
      | Some b \<Rightarrow> Inr (mArray b, h\<lparr>objects := (objects h)(x \<mapsto> b\<lparr>mArray := None\<rparr>)\<rparr>))"

text \<open>
  What \<open>delete\<close> does for the object a \<open>Unique_ByteArray\<close> holds: the destructor, which
  deletes the array when there is one, then the object itself. A smart pointer that has been
  released holds nothing.
\<close>

definition delete_ByteArray :: "nat option \<Rightarrow> cheap \<Rightarrow> cheap res" where
  "delete_ByteArray p h =
     (case p of
        None \<Rightarrow> Inr h
      | Some x \<Rightarrow>
          (case objects h x of
             None \<Rightarrow> Inl Aborted
           | Some b \<Rightarrow>
               bind_res (case mArray b of None \<Rightarrow> Inr h | Some a \<Rightarrow> delete_bytes a h)
                 (\<lambda>h. Inr (h\<lparr>objects := (objects h)(x := None)\<rparr>))))"

section \<open>The functions\<close>

text \<open>OpenSSL writes the number into the block; the size it returns is compared afterwards.\<close>

definition bignum_to_array_heap :: "tee_env \<Rightarrow> nat \<Rightarrow> cheap \<Rightarrow> (nat option \<times> cheap) res" where
  "bignum_to_array_heap E bn h =
     (let bignumSize = BN_num_bytes E bn;
          (bytes, h) = new_bytes bignumSize h
      in bind_res (store_bytes (Some bytes) 0 (BN_bn2bin E bn) h) (\<lambda>h.
           if length (BN_bn2bin E bn) \<noteq> bignumSize
           then bind_res (delete_bytes bytes h) (\<lambda>h. Inr (None, h))
           else let (x, h) = ByteArray_of bytes bignumSize h in Inr (Some x, h)))"

definition generate_random_id_heap :: "tee_env \<Rightarrow> tcall list \<Rightarrow> cheap \<Rightarrow> (nat option \<times> cheap) res" where
  "generate_random_id_heap E cs h =
     (let (id, h) = ByteArray_new ID_LENGTH h
      in bind_res (ByteArray_get id h) (\<lambda>p.
         bind_res (ByteArray_length id h) (\<lambda>n.
           case RAND_pseudo_bytes E cs n of
             None \<Rightarrow> bind_res (delete_ByteArray (Some id) h) (\<lambda>h. Inr (None, h))
           | Some bs \<Rightarrow> bind_res (store_bytes p 0 bs h) (\<lambda>h. Inr (Some id, h)))))"

text \<open>The loop of \<open>keyblob_save\<close> that lays out the version, from byte \<open>i\<close> on.\<close>

definition version_bytes :: "nat \<Rightarrow> u8 list" where
  "version_bytes n = map (\<lambda>i. word_of_int (KEY_VERSION div 2 ^ ((n - i - 1) * 8))) [0..<n]"

text \<open>
  The return value, the pointer and the length stored for the caller, and the heap. The smart pointer
  is released into a variable that nothing reads.
\<close>

definition keyblob_save_heap :: "nat \<Rightarrow> cheap \<Rightarrow> (int \<times> nat option \<times> nat \<times> cheap) res" where
  "keyblob_save_heap objId h =
     bind_res (ByteArray_length objId h) (\<lambda>n.
       let (handleBlob, h) = ByteArray_new (4 + n) h in
       bind_res (ByteArray_get handleBlob h) (\<lambda>tmp.
       bind_res (store_bytes tmp 0 (version_bytes 4) h) (\<lambda>h.
       bind_res (ByteArray_get objId h) (\<lambda>p.
       bind_res (load_bytes p n h) (\<lambda>bs.
       bind_res (store_bytes tmp 4 bs h) (\<lambda>h.
       bind_res (ByteArray_length handleBlob h) (\<lambda>len.
       bind_res (ByteArray_get handleBlob h) (\<lambda>blob.
         Inr (0, blob, len, h)))))))))"

section \<open>Storing and loading\<close>

lemma store_bytes_block:
  assumes "blocks h a = Some bs" "i + length cs \<le> length bs"
  shows "store_bytes (Some a) i cs h =
    Inr (h\<lparr>blocks := (blocks h)(a \<mapsto> take i bs @ cs @ drop (i + length cs) bs)\<rparr>)"
  using assms
proof (induction cs arbitrary: i h bs)
  case Nil
  then have "(blocks h)(a \<mapsto> bs) = blocks h" by auto
  then show ?case by simp
next
  case (Cons c cs)
  define h' where "h' = h\<lparr>blocks := (blocks h)(a \<mapsto> bs[i := c])\<rparr>"
  have i: "i < length bs" using Cons.prems by simp
  then have "store_byte (Some a) i c h = Inr h'" using Cons.prems by (simp add: store_byte_def h'_def)
  moreover have "store_bytes (Some a) (Suc i) cs h' =
      Inr (h'\<lparr>blocks := (blocks h')(a \<mapsto> take (Suc i) (bs[i := c]) @ cs @ drop (Suc i + length cs) (bs[i := c]))\<rparr>)"
    by (rule Cons.IH) (use Cons.prems in \<open>simp_all add: h'_def\<close>)
  moreover have "take (Suc i) (bs[i := c]) = take i bs @ [c]"
    using i by (simp add: take_Suc_conv_app_nth)
  ultimately show ?case by (simp add: h'_def) (simp add: fun_upd_def)
qed

lemma store_bytes_overrun:
  assumes "blocks h a = Some bs" "length bs < i + length cs" "i \<le> length bs"
  shows "store_bytes (Some a) i cs h = Inl OutOfBounds"
  using assms
proof (induction cs arbitrary: i h bs)
  case Nil
  then show ?case by simp
next
  case (Cons c cs)
  show ?case
  proof (cases "i < length bs")
    case True
    then have "store_bytes (Some a) (Suc i) cs (h\<lparr>blocks := (blocks h)(a \<mapsto> bs[i := c])\<rparr>) = Inl OutOfBounds"
      by (intro Cons.IH [where bs = "bs[i := c]"]) (use Cons.prems in simp_all)
    with True Cons.prems show ?thesis by (simp add: store_byte_def)
  qed (use Cons.prems in \<open>simp add: store_byte_def\<close>)
qed

lemma version_bytes_eq: "version_bytes n = be_bytes n KEY_VERSION"
proof -
  have "(2 :: int) ^ (k * 8) = 256 ^ k" for k by (simp add: mult.commute [of k] power_mult)
  then show ?thesis by (simp add: version_bytes_def be_bytes_def)
qed

lemma length_version_bytes [simp]: "length (version_bytes n) = n"
  by (simp add: version_bytes_def)

section \<open>The functions compute the byte strings\<close>

text \<open>The object at \<open>x\<close> holds the byte string \<open>bs\<close>.\<close>

definition holds :: "cheap \<Rightarrow> nat \<Rightarrow> u8 list \<Rightarrow> bool" where
  "holds h x bs \<longleftrightarrow> (\<exists>a. objects h x = Some \<lparr>mArray = Some a, mLength = length bs\<rparr> \<and> blocks h a = Some bs)"

lemma fresh_limit: "heap_ok h \<Longrightarrow> limit h \<le> a \<Longrightarrow> blocks h a = None \<and> objects h a = None"
  by (simp add: heap_ok_def)

lemma allocated_below: "heap_ok h \<Longrightarrow> blocks h a = Some bs \<Longrightarrow> a < limit h"
  "heap_ok h \<Longrightarrow> objects h x = Some b \<Longrightarrow> x < limit h"
  by (metis fresh_limit not_le option.distinct(1))+

lemma upd_None_fresh: "m a = None \<Longrightarrow> m(a := None) = m" by auto

text \<open>The heap after a byte array that holds \<open>bs\<close> has been made: its block, then its object.\<close>

definition with_array :: "cheap \<Rightarrow> u8 list \<Rightarrow> cheap" where
  "with_array h bs = h\<lparr>blocks := (blocks h)(limit h \<mapsto> bs),
     objects := (objects h)(Suc (limit h) \<mapsto> \<lparr>mArray = Some (limit h), mLength = length bs\<rparr>),
     limit := Suc (Suc (limit h))\<rparr>"

lemma with_array_holds: "holds (with_array h bs) (Suc (limit h)) bs"
  by (simp add: holds_def with_array_def)

lemma with_array_ok: "heap_ok h \<Longrightarrow> heap_ok (with_array h bs)"
  by (simp add: heap_ok_def with_array_def)

lemma with_array_keeps: "heap_ok h \<Longrightarrow> holds h x cs \<Longrightarrow> holds (with_array h bs) x cs"
  by (fastforce simp: holds_def with_array_def dest: allocated_below)

lemma bignum_to_array_heap_eq:
  assumes "heap_ok h" "length (BN_bn2bin E bn) \<le> BN_num_bytes E bn"
  shows "bignum_to_array_heap E bn h =
    Inr (case bignum_to_array E bn of
           None \<Rightarrow> (None, h\<lparr>limit := Suc (limit h)\<rparr>)
         | Some bs \<Rightarrow> (Some (Suc (limit h)), with_array h bs))"
proof -
  define h1 where "h1 = snd (new_bytes (BN_num_bytes E bn) h)"
  have n: "new_bytes (BN_num_bytes E bn) h = (limit h, h1)" by (simp add: h1_def new_bytes_def)
  have "store_bytes (Some (limit h)) 0 (BN_bn2bin E bn) h1 = Inr (h1\<lparr>blocks := (blocks h1)(limit h \<mapsto>
      BN_bn2bin E bn @ drop (length (BN_bn2bin E bn)) (map (stale h) [0..<BN_num_bytes E bn]))\<rparr>)"
    using assms(2) store_bytes_block [of h1 "limit h" "map (stale h) [0..<BN_num_bytes E bn]" 0]
    by (simp add: h1_def new_bytes_def)
  moreover have "blocks h (limit h) = None" using assms(1) by (simp add: heap_ok_def)
  ultimately show ?thesis
    by (simp add: bignum_to_array_heap_def bignum_to_array_def n Let_def delete_bytes_def ByteArray_of_def
        with_array_def upd_None_fresh) (simp add: h1_def new_bytes_def upd_None_fresh)
qed

lemma bignum_to_array_heap_overrun:
  assumes "BN_num_bytes E bn < length (BN_bn2bin E bn)"
  shows "bignum_to_array_heap E bn h = Inl OutOfBounds"
  using assms store_bytes_overrun [of _ "limit h" "map (stale h) [0..<BN_num_bytes E bn]" 0 "BN_bn2bin E bn"]
  by (simp add: bignum_to_array_heap_def new_bytes_def Let_def)

lemma generate_random_id_heap_eq:
  assumes "heap_ok h" "\<forall>bs. RAND_pseudo_bytes E cs ID_LENGTH = Some bs \<longrightarrow> length bs = ID_LENGTH"
  shows "generate_random_id_heap E cs h =
    Inr (case generate_random_id E cs of
           None \<Rightarrow> (None, h\<lparr>limit := Suc (Suc (limit h))\<rparr>)
         | Some bs \<Rightarrow> (Some (Suc (limit h)), with_array h bs))"
proof -
  define h1 where "h1 = snd (ByteArray_new ID_LENGTH h)"
  have n: "ByteArray_new ID_LENGTH h = (Suc (limit h), h1)"
    by (simp add: h1_def ByteArray_new_def new_bytes_def ByteArray_of_def)
  have h1: "objects h1 (Suc (limit h)) = Some \<lparr>mArray = Some (limit h), mLength = ID_LENGTH\<rparr>"
    "blocks h1 (limit h) = Some (map (stale h) [0..<ID_LENGTH])"
    by (simp_all add: h1_def ByteArray_new_def new_bytes_def ByteArray_of_def)
  have fr: "blocks h (limit h) = None" "objects h (Suc (limit h)) = None"
    using assms(1) by (simp_all add: heap_ok_def)
  show ?thesis
  proof (cases "RAND_pseudo_bytes E cs ID_LENGTH")
    case None
    then show ?thesis
      by (simp add: generate_random_id_heap_def generate_random_id_def n ByteArray_get_def ByteArray_length_def
          delete_ByteArray_def delete_bytes_def h1)
        (simp add: h1_def ByteArray_new_def new_bytes_def ByteArray_of_def upd_None_fresh fr)
  next
    case (Some bs)
    with assms(2) store_bytes_block [OF h1(2), of 0 bs] show ?thesis
      by (simp add: generate_random_id_heap_def generate_random_id_def n ByteArray_get_def ByteArray_length_def h1)
        (simp add: h1_def ByteArray_new_def new_bytes_def ByteArray_of_def with_array_def)
  qed
qed

lemma keyblob_save_heap_eq:
  assumes "heap_ok h" "holds h x bs"
  shows "keyblob_save_heap x h =
    Inr (0, Some (limit h), length (snd (keyblob_save bs)), with_array h (snd (keyblob_save bs)))"
proof -
  obtain a where a: "objects h x = Some \<lparr>mArray = Some a, mLength = length bs\<rparr>" "blocks h a = Some bs"
    using assms(2) by (auto simp: holds_def)
  have l: "x < limit h" "a < limit h" using allocated_below [OF assms(1)] a by blast+
  define n where "n = 4 + length bs"
  define h1 where "h1 = snd (ByteArray_new n h)"
  have e: "ByteArray_new n h = (Suc (limit h), h1)"
    by (simp add: h1_def ByteArray_new_def new_bytes_def ByteArray_of_def)
  define fresh where "fresh = map (stale h) [0..<n]"
  have b1: "blocks h1 (limit h) = Some fresh" "blocks h1 a = Some bs"
    "objects h1 (Suc (limit h)) = Some \<lparr>mArray = Some (limit h), mLength = n\<rparr>"
    "objects h1 x = Some \<lparr>mArray = Some a, mLength = length bs\<rparr>"
    using a l by (simp_all add: h1_def fresh_def ByteArray_new_def new_bytes_def ByteArray_of_def)
  define h2 where "h2 = h1\<lparr>blocks := (blocks h1)(limit h \<mapsto> version_bytes 4 @ drop 4 fresh)\<rparr>"
  have 2: "store_bytes (Some (limit h)) 0 (version_bytes 4) h1 = Inr h2"
    using store_bytes_block [OF b1(1), of 0 "version_bytes 4"] by (simp add: h2_def fresh_def n_def)
  have b2: "blocks h2 (limit h) = Some (version_bytes 4 @ drop 4 fresh)" "blocks h2 a = Some bs"
    "objects h2 = objects h1"
    using l b1 by (simp_all add: h2_def)
  define h3 where "h3 = h2\<lparr>blocks := (blocks h2)(limit h \<mapsto> version_bytes 4 @ bs)\<rparr>"
  have 3: "store_bytes (Some (limit h)) 4 bs h2 = Inr h3"
    using store_bytes_block [OF b2(1), of 4 bs] by (simp add: h3_def fresh_def n_def)
  have "h3 = with_array h (snd (keyblob_save bs))"
    by (simp add: h3_def h2_def h1_def with_array_def ByteArray_new_def new_bytes_def ByteArray_of_def
        keyblob_save_def version_bytes_eq n_def)
  moreover have "objects h3 = objects h1" by (simp add: h3_def b2)
  ultimately show ?thesis
    by (simp add: keyblob_save_heap_def ByteArray_length_def ByteArray_get_def a e [unfolded n_def] b1 b2 2 3
        load_bytes_def keyblob_save_def n_def)
qed

section \<open>Properties\<close>

text \<open>
  C22. On the heap the functions that build byte arrays compute the byte strings of the model: a
  number, an identifier and a blob are stored whole in a block of exactly their size, with nothing
  else on the heap changed and no write outside a block, and a failure gives all memory back.
\<close>

theorem byte_arrays_refine:
  assumes "heap_ok h" "length (BN_bn2bin E bn) \<le> BN_num_bytes E bn"
    and "\<forall>bs. RAND_pseudo_bytes E cs ID_LENGTH = Some bs \<longrightarrow> length bs = ID_LENGTH"
    and "holds h x objId"
  shows "bignum_to_array_heap E bn h =
      Inr (case bignum_to_array E bn of
             None \<Rightarrow> (None, h\<lparr>limit := limit h + 1\<rparr>)
           | Some bs \<Rightarrow> (Some (limit h + 1), with_array h bs)) \<and>
    generate_random_id_heap E cs h =
      Inr (case generate_random_id E cs of
             None \<Rightarrow> (None, h\<lparr>limit := limit h + 2\<rparr>)
           | Some bs \<Rightarrow> (Some (limit h + 1), with_array h bs)) \<and>
    keyblob_save_heap x h =
      Inr (fst (keyblob_save objId), Some (limit h), length (snd (keyblob_save objId)),
           with_array h (snd (keyblob_save objId)))"
  using bignum_to_array_heap_eq [OF assms(1,2)] generate_random_id_heap_eq [OF assms(1,3)]
    keyblob_save_heap_eq [OF assms(1,4)]
  by (simp add: keyblob_save_def split: option.split)

definition demo_heap :: cheap where
  "demo_heap = \<lparr>blocks = [0 \<mapsto> replicate 32 7], objects = [1 \<mapsto> \<lparr>mArray = Some 0, mLength = 32\<rparr>],
     limit = 2, stale = (\<lambda>i. 0xA5)\<rparr>"

lemma demo_heap_ok: "heap_ok demo_heap" "holds demo_heap 1 (replicate 32 7)"
  by (simp_all add: heap_ok_def holds_def demo_heap_def)

definition demo_ssl :: tee_env where
  "demo_ssl = demo_tee\<lparr>BN_num_bytes := (\<lambda>n. 1), BN_bn2bin := (\<lambda>n. [word_of_nat n]),
     RAND_pseudo_bytes := (\<lambda>cs n. Some (replicate n 7))\<rparr>"

theorem byte_arrays_refine_witness:
  "bignum_to_array_heap demo_ssl 17 demo_heap = Inr (Some 3, with_array demo_heap [17]) \<and>
   keyblob_save_heap 1 demo_heap = Inr (0, Some 2, 36, with_array demo_heap ([0, 0, 0, 1] @ replicate 32 7))"
proof -
  have "(\<forall>bs. RAND_pseudo_bytes demo_ssl [] ID_LENGTH = Some bs \<longrightarrow> length bs = ID_LENGTH)"
    "length (BN_bn2bin demo_ssl 17) \<le> BN_num_bytes demo_ssl 17"
    by (simp_all add: demo_ssl_def)
  from byte_arrays_refine [OF demo_heap_ok(1) this(2,1) demo_heap_ok(2)] show ?thesis
    by (simp add: demo_ssl_def bignum_to_array_def keyblob_save_def be_bytes_def KEY_VERSION_def
        demo_heap_def numeral_eq_Suc)
qed

end
