(* ===== verification/Key_Memory.thy ===== *)
theory Key_Memory
  imports Byte_Array
begin

text \<open>
  \<open>tee_generate_keypair\<close> and \<open>tee_import_keypair\<close> once more, on the heap: every
  \<open>ByteArray\<close> they make, where it is read, and what the smart pointers delete at each return.
  The lemmas show that they compute what \<open>Keymaster\<close> says and what memory is left behind. The
  array of attributes of the private template, held by a smart pointer that is never released, and
  OpenSSL's own structures are not on this heap.
\<close>

section \<open>The operations\<close>

text \<open>The bytes of an array, as the secure element reads them from the pointer and the length in an attribute.\<close>

definition read_array :: "nat \<Rightarrow> cheap \<Rightarrow> u8 list res" where
  "read_array x h =
     bind_res (ByteArray_get x h) (\<lambda>p. bind_res (ByteArray_length x h) (\<lambda>n. load_bytes p n h))"

text \<open>The destructors of the smart pointers, in their order; a return of -1, which stores nothing.\<close>

fun delete_all :: "nat list \<Rightarrow> cheap \<Rightarrow> cheap res" where
  "delete_all [] h = Inr h"
| "delete_all (x # xs) h = bind_res (delete_ByteArray (Some x) h) (delete_all xs)"

type_synonym key_result = "int \<times> nat option \<times> nat \<times> tcall list \<times> cheap"

definition give_up :: "nat list \<Rightarrow> tcall list \<Rightarrow> cheap \<Rightarrow> key_result res" where
  "give_up xs cs h = bind_res (delete_all xs h) (\<lambda>h. Inr (- 1, None, 0, cs, h))"

text \<open>The end of both operations: the blob is saved, then the arrays are deleted.\<close>

definition save_and_end :: "nat \<Rightarrow> nat list \<Rightarrow> tcall list \<Rightarrow> cheap \<Rightarrow> key_result res" where
  "save_and_end objId xs cs h =
     bind_res (keyblob_save_heap objId h) (\<lambda>(r, blob, len, h).
     bind_res (delete_all xs h) (\<lambda>h. Inr (r, blob, len, cs, h)))"

definition tee_generate_keypair_heap ::
  "tee_env \<Rightarrow> session \<Rightarrow> int \<Rightarrow> rsa_keygen_params option \<Rightarrow> tcall list \<Rightarrow> cheap \<Rightarrow> key_result res" where
  "tee_generate_keypair_heap E context type key_params cs h =
     (if type \<noteq> TYPE_RSA E then give_up [] cs h
      else case key_params of
        None \<Rightarrow> give_up [] cs h
      | Some rsa_params \<Rightarrow>
          bind_res (generate_random_id_heap E cs h) (\<lambda>(id, h).
          case id of
            None \<Rightarrow> give_up [] cs h
          | Some objId \<Rightarrow>
              bind_res (read_array objId h) (\<lambda>i.
              let pubT = gen_public_template i rsa_params;
                  privT = gen_private_template i;
                  (s, cs) = crypto_session E context cs;
                  (rv, hPub, hPriv) = C_GenerateKeyPair E cs s pubT privT;
                  cs = CGenerateKeyPair s CKM_RSA_PKCS_KEY_PAIR_GEN pubT privT # cs
              in if rv \<noteq> CKR_OK then give_up [objId] (crypto_session_end E s cs) h
                 else
                   let cs = object_handle hPriv (object_handle hPub cs)
                   in save_and_end objId [objId] (scope_end E context s hPub hPriv cs) h)))"

text \<open>The arrays of the extra numbers, with the attribute each is for, and the attributes.\<close>

fun extra_arrays :: "tee_env \<Rightarrow> (int \<times> nat) list \<Rightarrow> cheap \<Rightarrow> ((int \<times> nat) list \<times> cheap) res" where
  "extra_arrays E [] h = Inr ([], h)"
| "extra_arrays E ((t, bn) # ns) h =
     bind_res (bignum_to_array_heap E bn h) (\<lambda>(p, h).
     case p of
       None \<Rightarrow> Inl NullDeref
     | Some x \<Rightarrow> bind_res (extra_arrays E ns h) (\<lambda>(xs, h). Inr ((t, x) # xs, h)))"

fun attributes_of :: "(int \<times> nat) list \<Rightarrow> cheap \<Rightarrow> ck_attribute list res" where
  "attributes_of [] h = Inr []"
| "attributes_of ((t, x) # xs) h =
     bind_res (read_array x h) (\<lambda>bs. bind_res (attributes_of xs h) (\<lambda>as. Inr (set_attribute t (BytesV bs) # as)))"

definition import_private_heap ::
  "tee_env \<Rightarrow> session \<Rightarrow> session \<Rightarrow> object \<Rightarrow> rsa_key \<Rightarrow> nat \<Rightarrow> nat \<Rightarrow> nat \<Rightarrow> tcall list \<Rightarrow> cheap \<Rightarrow> key_result res" where
  "import_private_heap E context s hPub rsa objId modulus publicExponent cs h =
     bind_res (bignum_to_array_heap E (rsa_d rsa) h) (\<lambda>(d, h).
     case d of
       None \<Rightarrow> give_up [objId, publicExponent, modulus] (scope_end E context s hPub CK_INVALID_HANDLE cs) h
     | Some privateExponent \<Rightarrow>
         bind_res (extra_arrays E (extra_numbers rsa) h) (\<lambda>(extra, h).
         bind_res (read_array objId h) (\<lambda>i.
         bind_res (read_array modulus h) (\<lambda>n.
         bind_res (read_array publicExponent h) (\<lambda>e.
         bind_res (read_array privateExponent h) (\<lambda>d.
         bind_res (attributes_of extra h) (\<lambda>as.
           let privT = import_private_template i n e d @ as;
               arrays = rev (map snd extra) @ [privateExponent, objId, publicExponent, modulus];
               (rv, hPriv) = C_CreateObject E cs s privT;
               cs = CCreateObject s privT rv # cs
           in if rv \<noteq> CKR_OK
              then give_up arrays (scope_end E context s hPub CK_INVALID_HANDLE cs) h
              else save_and_end objId arrays (scope_end E context s hPub hPriv (object_handle hPriv cs)) h)))))))"

definition import_rsa_heap :: "tee_env \<Rightarrow> session \<Rightarrow> rsa_key \<Rightarrow> tcall list \<Rightarrow> cheap \<Rightarrow> key_result res" where
  "import_rsa_heap E context rsa cs h =
     bind_res (bignum_to_array_heap E (rsa_n rsa) h) (\<lambda>(m, h).
     case m of
       None \<Rightarrow> give_up [] cs h
     | Some modulus \<Rightarrow>
     bind_res (bignum_to_array_heap E (rsa_e rsa) h) (\<lambda>(p, h).
     case p of
       None \<Rightarrow> give_up [modulus] cs h
     | Some publicExponent \<Rightarrow>
     bind_res (generate_random_id_heap E cs h) (\<lambda>(id, h).
     case id of
       None \<Rightarrow> give_up [publicExponent, modulus] cs h
     | Some objId \<Rightarrow>
     bind_res (read_array objId h) (\<lambda>i.
     bind_res (read_array modulus h) (\<lambda>n.
     bind_res (read_array publicExponent h) (\<lambda>e.
       let pubT = import_public_template i n e;
           (s, cs) = crypto_session E context cs;
           (rv, hPub) = C_CreateObject E cs s pubT;
           cs = CCreateObject s pubT rv # cs
       in if rv \<noteq> CKR_OK then give_up [objId, publicExponent, modulus] (crypto_session_end E s cs) h
          else import_private_heap E context s hPub rsa objId modulus publicExponent (object_handle hPub cs) h))))))"

definition tee_import_keypair_heap ::
  "tee_env \<Rightarrow> session \<Rightarrow> u8 list option \<Rightarrow> tcall list \<Rightarrow> cheap \<Rightarrow> key_result res" where
  "tee_import_keypair_heap E context key cs h =
     (case key of
        None \<Rightarrow> give_up [] cs h
      | Some k \<Rightarrow>
          (case d2i_PKCS8_PRIV_KEY_INFO E k of
             None \<Rightarrow> give_up [] cs h
           | Some pkcs8 \<Rightarrow>
               (case EVP_PKCS82PKEY E pkcs8 of
                  None \<Rightarrow> give_up [] cs h
                | Some pkey \<Rightarrow>
                    if \<not> EVP_PKEY_is_RSA E pkey then give_up [] cs h
                    else case EVP_PKEY_get1_RSA E pkey of
                           None \<Rightarrow> give_up [] cs h
                         | Some rsa \<Rightarrow> import_rsa_heap E context rsa cs h)))"

section \<open>The arrays that are there\<close>

text \<open>
  The heap \<open>h\<close> is \<open>h0\<close> and, in new places, the arrays \<open>X\<close>: block, object and bytes of each.
\<close>

definition arrays :: "cheap \<Rightarrow> (nat \<times> nat \<times> u8 list) list \<Rightarrow> cheap \<Rightarrow> bool" where
  "arrays h0 X h \<longleftrightarrow> heap_ok h0 \<and> heap_ok h \<and> limit h0 \<le> limit h \<and>
     (\<forall>(a, x, bs) \<in> set X. limit h0 \<le> a \<and> limit h0 \<le> x) \<and> distinct (map fst X) \<and> distinct (map (\<lambda>z. fst (snd z)) X) \<and>
     (\<forall>a bs. blocks h a = Some bs \<longleftrightarrow> blocks h0 a = Some bs \<or> (\<exists>x. (a, x, bs) \<in> set X)) \<and>
     (\<forall>x b. objects h x = Some b \<longleftrightarrow> objects h0 x = Some b \<or>
        (\<exists>a bs. (a, x, bs) \<in> set X \<and> b = \<lparr>mArray = Some a, mLength = length bs\<rparr>))"

abbreviation objs :: "(nat \<times> nat \<times> u8 list) list \<Rightarrow> nat list" where
  "objs X \<equiv> map (\<lambda>z. fst (snd z)) X"

lemma arrays_start: "heap_ok h \<Longrightarrow> arrays h [] h"
  by (simp add: arrays_def)

lemma arrays_ok: "arrays h0 X h \<Longrightarrow> heap_ok h"
  by (simp add: arrays_def)

text \<open>A failed allocation uses up addresses only.\<close>

lemma arrays_limit:
  "arrays h0 X h \<Longrightarrow> limit h \<le> n \<Longrightarrow> arrays h0 X (h\<lparr>limit := n\<rparr>)"
  by (auto simp: arrays_def heap_ok_def)

lemma arrays_make:
  assumes "arrays h0 X h"
  shows "arrays h0 ((limit h, Suc (limit h), bs) # X) (with_array h bs)"
proof -
  note a = assms [unfolded arrays_def]
  have fr: "blocks h (limit h) = None" "objects h (Suc (limit h)) = None" using a by (simp_all add: heap_ok_def)
  have B: "blocks h c = Some cs \<longleftrightarrow> blocks h0 c = Some cs \<or> (\<exists>x. (c, x, cs) \<in> set X)"
    and O: "objects h x = Some b \<longleftrightarrow> objects h0 x = Some b \<or>
        (\<exists>a bs. (a, x, bs) \<in> set X \<and> b = \<lparr>mArray = Some a, mLength = length bs\<rparr>)" for c cs x b
    using a by (elim conjE; iprover)+
  have nb: "(limit h, x, cs) \<notin> set X" for x cs using B [of "limit h" cs] fr(1) by auto
  have no: "(c, Suc (limit h), cs) \<notin> set X" for c cs
    using O [of "Suc (limit h)" "\<lparr>mArray = Some c, mLength = length cs\<rparr>"] fr(2) by auto
  have n: "limit h \<notin> fst ` set X" "Suc (limit h) \<notin> (\<lambda>z. fst (snd z)) ` set X" using nb no by auto
  have f0: "blocks h0 (limit h) = None" "objects h0 (Suc (limit h)) = None" using a fr by (simp_all add: heap_ok_def)
  show ?thesis unfolding arrays_def
  proof (intro conjI allI)
    show "blocks (with_array h bs) c = Some cs \<longleftrightarrow>
        blocks h0 c = Some cs \<or> (\<exists>x. (c, x, cs) \<in> set ((limit h, Suc (limit h), bs) # X))" for c cs
      using f0 nb B [of c cs] by (cases "c = limit h") (auto simp: with_array_def)
    show "objects (with_array h bs) x = Some b \<longleftrightarrow> objects h0 x = Some b \<or>
        (\<exists>c cs. (c, x, cs) \<in> set ((limit h, Suc (limit h), bs) # X) \<and> b = \<lparr>mArray = Some c, mLength = length cs\<rparr>)" for x b
      using f0 no O [of x b] by (cases "x = Suc (limit h)") (auto simp: with_array_def)
    show "heap_ok (with_array h bs)" using a by (simp add: with_array_ok)
  qed (use a n in \<open>auto simp: with_array_def\<close>)
qed

lemma arrays_holds: "arrays h0 X h \<Longrightarrow> (a, x, bs) \<in> set X \<Longrightarrow> holds h x bs"
  unfolding arrays_def holds_def by blast

lemma holds_read: "holds h x bs \<Longrightarrow> read_array x h = Inr bs"
  by (auto simp: holds_def read_array_def ByteArray_get_def ByteArray_length_def load_bytes_def)

lemmas arrays_read = holds_read [OF arrays_holds]

lemma arrays_delete:
  assumes "arrays h0 (Y @ (a, x, bs) # Z) h"
  shows "\<exists>h'. delete_ByteArray (Some x) h = Inr h' \<and> arrays h0 (Y @ Z) h'"
proof -
  let ?X = "Y @ (a, x, bs) # Z"
  note A = assms [unfolded arrays_def]
  have m: "(a, x, bs) \<in> set ?X" by simp
  have o: "objects h x = Some \<lparr>mArray = Some a, mLength = length bs\<rparr>" "blocks h a = Some bs" using A m by blast+
  define h' where "h' = h\<lparr>blocks := (blocks h)(a := None), objects := (objects h)(x := None)\<rparr>"
  have d: "delete_ByteArray (Some x) h = Inr h'"
    using o by (simp add: delete_ByteArray_def delete_bytes_def h'_def)
  have nx: "(a, y, cs) \<notin> set (Y @ Z)" "(b, x, cs) \<notin> set (Y @ Z)" for y b cs
    using A by (force simp: image_iff)+
  have n0: "blocks h0 a = None" "objects h0 x = None" using A by (auto simp: heap_ok_def)
  have "arrays h0 (Y @ Z) h'" unfolding arrays_def
  proof (intro conjI allI)
    show "blocks h' c = Some cs \<longleftrightarrow> blocks h0 c = Some cs \<or> (\<exists>x. (c, x, cs) \<in> set (Y @ Z))" for c cs
    proof (cases "c = a")
      case True
      with nx(1) n0 show ?thesis by (simp add: h'_def)
    next
      case False
      then have "blocks h' c = Some cs \<longleftrightarrow> blocks h0 c = Some cs \<or> (\<exists>x. (c, x, cs) \<in> set ?X)" using A by (simp add: h'_def)
      with False show ?thesis by auto
    qed
    show "objects h' y = Some b \<longleftrightarrow> objects h0 y = Some b \<or>
        (\<exists>c cs. (c, y, cs) \<in> set (Y @ Z) \<and> b = \<lparr>mArray = Some c, mLength = length cs\<rparr>)" for y b
    proof (cases "y = x")
      case True
      with nx(2) n0 show ?thesis by (simp add: h'_def)
    next
      case False
      then have "objects h' y = Some b \<longleftrightarrow> objects h0 y = Some b \<or>
        (\<exists>c cs. (c, y, cs) \<in> set ?X \<and> b = \<lparr>mArray = Some c, mLength = length cs\<rparr>)" using A by (simp add: h'_def)
      with False show ?thesis by auto
    qed
    show "heap_ok h'" using A by (auto simp: h'_def heap_ok_def)
    show "distinct (map fst (Y @ Z))" "distinct (objs (Y @ Z))" using A by auto
  qed (use A in \<open>auto simp: h'_def\<close>)
  with d show ?thesis by blast
qed

text \<open>What is left after the scope has ended: everything but the blob is gone.\<close>

lemma arrays_delete_all:
  "arrays h0 (Y @ X) h \<Longrightarrow> \<exists>h'. delete_all (objs X) h = Inr h' \<and> arrays h0 Y h'"
proof (induction X arbitrary: h)
  case Nil
  then show ?case by simp
next
  case (Cons z X)
  obtain a x bs where z: "z = (a, x, bs)" using prod_cases3 by blast
  from arrays_delete [of h0 Y a x bs X h] Cons.prems z obtain h1 where
    "delete_ByteArray (Some x) h = Inr h1" "arrays h0 (Y @ X) h1" by auto
  with Cons.IH [of h1] z show ?case by auto
qed

lemma arrays_none:
  assumes "arrays h0 [] h"
  shows "blocks h = blocks h0" "objects h = objects h0"
proof -
  have "blocks h a = blocks h0 a" "objects h a = objects h0 a" for a
    using assms by (simp_all add: arrays_def option.split) (metis not_Some_eq)+
  then show "blocks h = blocks h0" "objects h = objects h0" by auto
qed

lemma arrays_one:
  assumes "arrays h0 [(a, x, bs)] h"
  shows "blocks h0 a = None" "objects h0 x = None" "blocks h = (blocks h0)(a \<mapsto> bs)"
    "objects h = (objects h0)(x \<mapsto> \<lparr>mArray = Some a, mLength = length bs\<rparr>)"
proof -
  note A = assms [unfolded arrays_def]
  show n: "blocks h0 a = None" "objects h0 x = None" using A by (auto simp: heap_ok_def)
  have "blocks h c = ((blocks h0)(a \<mapsto> bs)) c" for c
    using A n by (cases "blocks h c"; cases "blocks h0 c") (auto, (metis option.distinct(1) option.inject)+)
  then show "blocks h = (blocks h0)(a \<mapsto> bs)" by auto
  have "objects h y = ((objects h0)(x \<mapsto> \<lparr>mArray = Some a, mLength = length bs\<rparr>)) y" for y
    using A n by (cases "objects h y"; cases "objects h0 y") (auto, (metis option.distinct(1) option.inject)+)
  then show "objects h = (objects h0)(x \<mapsto> \<lparr>mArray = Some a, mLength = length bs\<rparr>)" by auto
qed

section \<open>What the steps make\<close>

text \<open>OpenSSL writes no more bytes than it announced, and as many random bytes as asked for.\<close>

definition ssl_ok :: "tee_env \<Rightarrow> bool" where
  "ssl_ok E \<longleftrightarrow> (\<forall>bn. length (BN_bn2bin E bn) \<le> BN_num_bytes E bn) \<and>
     (\<forall>cs n bs. RAND_pseudo_bytes E cs n = Some bs \<longrightarrow> length bs = n)"

lemma number_made:
  assumes "arrays h0 X h" "ssl_ok E"
  shows "bignum_to_array E bn = None \<Longrightarrow> \<exists>h'. bignum_to_array_heap E bn h = Inr (None, h') \<and> arrays h0 X h'"
    "bignum_to_array E bn = Some bs \<Longrightarrow>
      \<exists>a x h'. bignum_to_array_heap E bn h = Inr (Some x, h') \<and> arrays h0 ((a, x, bs) # X) h'"
proof -
  have "length (BN_bn2bin E bn) \<le> BN_num_bytes E bn" using assms(2) by (simp add: ssl_ok_def)
  note e = bignum_to_array_heap_eq [OF arrays_ok [OF assms(1)] this]
  show "bignum_to_array E bn = None \<Longrightarrow> \<exists>h'. bignum_to_array_heap E bn h = Inr (None, h') \<and> arrays h0 X h'"
    using e arrays_limit [OF assms(1)] by simp
  show "bignum_to_array E bn = Some bs \<Longrightarrow>
      \<exists>a x h'. bignum_to_array_heap E bn h = Inr (Some x, h') \<and> arrays h0 ((a, x, bs) # X) h'"
    using e arrays_make [OF assms(1)] by auto
qed

lemma id_made:
  assumes "arrays h0 X h" "ssl_ok E"
  shows "generate_random_id E cs = None \<Longrightarrow> \<exists>h'. generate_random_id_heap E cs h = Inr (None, h') \<and> arrays h0 X h'"
    "generate_random_id E cs = Some bs \<Longrightarrow>
      \<exists>a x h'. generate_random_id_heap E cs h = Inr (Some x, h') \<and> arrays h0 ((a, x, bs) # X) h'"
proof -
  have "\<forall>bs. RAND_pseudo_bytes E cs ID_LENGTH = Some bs \<longrightarrow> length bs = ID_LENGTH" using assms(2) by (simp add: ssl_ok_def)
  note e = generate_random_id_heap_eq [OF arrays_ok [OF assms(1)] this]
  show "generate_random_id E cs = None \<Longrightarrow> \<exists>h'. generate_random_id_heap E cs h = Inr (None, h') \<and> arrays h0 X h'"
    using e arrays_limit [OF assms(1)] by simp
  show "generate_random_id E cs = Some bs \<Longrightarrow>
      \<exists>a x h'. generate_random_id_heap E cs h = Inr (Some x, h') \<and> arrays h0 ((a, x, bs) # X) h'"
    using e arrays_make [OF assms(1)] by auto
qed

text \<open>
  The memory a call leaves behind, against what \<open>Keymaster\<close> says of the call. Without a blob all
  memory is given back. With one, the block of the blob is new; when the caller has deleted it, the
  blocks are those from before, and there is one \<open>ByteArray\<close> object more than before.
\<close>

fun memory_of :: "cheap \<Rightarrow> key_result res \<Rightarrow> (int \<times> u8 list option \<times> tcall list) res \<Rightarrow> bool" where
  "memory_of h H (Inl f) \<longleftrightarrow> H = Inl f"
| "memory_of h H (Inr (r, None, cs)) \<longleftrightarrow>
     (\<exists>h'. H = Inr (r, None, 0, cs, h') \<and> blocks h' = blocks h \<and> objects h' = objects h)"
| "memory_of h H (Inr (r, Some blob, cs)) \<longleftrightarrow>
     (\<exists>a h' h'' y b. H = Inr (r, Some a, length blob, cs, h') \<and> blocks h a = None \<and> blocks h' = (blocks h)(a \<mapsto> blob) \<and>
        delete_bytes a h' = Inr h'' \<and> blocks h'' = blocks h \<and> objects h y = None \<and> objects h'' = (objects h)(y \<mapsto> b))"

lemma give_up_memory:
  "arrays h X h' \<Longrightarrow> memory_of h (give_up (objs X) cs h') (Inr (- 1, None, cs))"
  using arrays_delete_all [of h "[]" X h'] arrays_none by (fastforce simp: give_up_def)

lemma save_memory:
  assumes "arrays h X h'" "(a, x, i) \<in> set X"
  shows "memory_of h (save_and_end x (objs X) cs h') (Inr (fst (keyblob_save i), Some (snd (keyblob_save i)), cs))"
proof -
  let ?b = "snd (keyblob_save i)"
  let ?c = "limit h'" and ?y = "Suc (limit h')"
  have k: "keyblob_save_heap x h' = Inr (0, Some ?c, length ?b, with_array h' ?b)"
    by (rule keyblob_save_heap_eq [OF arrays_ok [OF assms(1)] arrays_holds [OF assms]])
  have "arrays h ([(?c, ?y, ?b)] @ X) (with_array h' ?b)" using arrays_make [OF assms(1)] by simp
  from arrays_delete_all [OF this] obtain h1 where h1: "delete_all (objs X) (with_array h' ?b) = Inr h1"
      "arrays h [(?c, ?y, ?b)] h1" by blast
  note o = arrays_one [OF h1(2)]
  let ?h2 = "h1\<lparr>blocks := (blocks h1)(?c := None)\<rparr>"
  have "delete_bytes ?c h1 = Inr ?h2" using o(3) by (simp add: delete_bytes_def)
  moreover have "blocks ?h2 = blocks h" using o(1,3) by (simp add: upd_None_fresh)
  moreover have "objects ?h2 = (objects h)(?y \<mapsto> \<lparr>mArray = Some ?c, mLength = length ?b\<rparr>)" using o(4) by simp
  moreover have "save_and_end x (objs X) cs h' = Inr (0, Some ?c, length ?b, cs, h1)"
    by (simp add: save_and_end_def k h1(1))
  moreover have "fst (keyblob_save i) = 0" by (simp add: keyblob_save_def)
  ultimately show ?thesis using o(1-3) by simp blast
qed

section \<open>The operations on the heap\<close>

lemma generate_memory:
  assumes "heap_ok h" "ssl_ok E"
  shows "memory_of h (tee_generate_keypair_heap E m t p cs h) (Inr (tee_generate_keypair E m t p cs))"
proof -
  note st = arrays_start [OF assms(1)]
  note up = give_up_memory [OF st, simplified]
  show ?thesis
  proof (cases "t = TYPE_RSA E \<and> p \<noteq> None")
    case False
    then show ?thesis using up by (auto simp: tee_generate_keypair_heap_def tee_generate_keypair_def)
  next
    case True
    then obtain q where q: "p = Some q" "t = TYPE_RSA E" by auto
    show ?thesis
    proof (cases "generate_random_id E cs")
      case None
      with id_made(1) [OF st assms(2), of cs] obtain h1 where h1: "generate_random_id_heap E cs h = Inr (None, h1)" "arrays h [] h1"
        by blast
      from give_up_memory [OF h1(2), of cs] h1(1) None q show ?thesis
        by (simp add: tee_generate_keypair_heap_def tee_generate_keypair_def)
    next
      case (Some i)
      with id_made(2) [OF st assms(2), of cs i] obtain a x h1 where
        h1: "generate_random_id_heap E cs h = Inr (Some x, h1)" "arrays h [(a, x, i)] h1" by blast
      have r: "read_array x h1 = Inr i" by (rule arrays_read [OF h1(2), where a = a]) simp
      obtain s cs1 where 1: "crypto_session E m cs = (s, cs1)" by fastforce
      obtain rv g k where 2: "C_GenerateKeyPair E cs1 s (gen_public_template i q) (gen_private_template i) = (rv, g, k)"
        using prod_cases3 by blast
      let ?up = "give_up [x]" and ?save = "save_and_end x [x]"
      have up: "memory_of h (?up cs' h1) (Inr (- 1, None, cs'))"
        and save: "memory_of h (?save cs' h1) (Inr (fst (keyblob_save i), Some (snd (keyblob_save i)), cs'))" for cs'
        using give_up_memory [OF h1(2)] save_memory [OF h1(2), of a x i] by simp_all
      have "tee_generate_keypair_heap E m t p cs h = (let cs2 = CGenerateKeyPair s CKM_RSA_PKCS_KEY_PAIR_GEN
            (gen_public_template i q) (gen_private_template i) # cs1 in
          if rv \<noteq> CKR_OK then ?up (crypto_session_end E s cs2) h1
          else ?save (scope_end E m s g k (object_handle k (object_handle g cs2))) h1)"
        by (simp add: tee_generate_keypair_heap_def q h1(1) r 1 2 Let_def)
      moreover have "tee_generate_keypair E m t p cs = (let cs2 = CGenerateKeyPair s CKM_RSA_PKCS_KEY_PAIR_GEN
            (gen_public_template i q) (gen_private_template i) # cs1 in
          if rv \<noteq> CKR_OK then (- 1, None, crypto_session_end E s cs2)
          else (fst (keyblob_save i), Some (snd (keyblob_save i)), scope_end E m s g k (object_handle k (object_handle g cs2))))"
        by (simp add: tee_generate_keypair_def q Some 1 2 case_prod_beta Let_def)
      ultimately show ?thesis using up save by (simp add: Let_def)
    qed
  qed
qed

lemma extra_memory:
  assumes "arrays h0 X h" "ssl_ok E"
  shows "case extra_attributes E ns of
      Inl f \<Rightarrow> extra_arrays E ns h = Inl f
    | Inr as \<Rightarrow> \<exists>Y xs h'. extra_arrays E ns h = Inr (xs, h') \<and> arrays h0 (Y @ X) h' \<and> objs Y = rev (map snd xs) \<and>
        attributes_of xs h' = Inr as"
  using assms(1)
proof (induction ns arbitrary: X h)
  case Nil
  then show ?case by (auto intro: exI [of _ "[]"])
next
  case (Cons a ns)
  obtain t bn where a: "a = (t, bn)" by fastforce
  show ?case
  proof (cases "bignum_to_array E bn")
    case None
    with number_made(1) [OF Cons.prems assms(2), of bn] show ?thesis by (auto simp: a)
  next
    case (Some bs)
    with number_made(2) [OF Cons.prems assms(2), of bn bs] obtain b x h1 where
      h1: "bignum_to_array_heap E bn h = Inr (Some x, h1)" "arrays h0 ((b, x, bs) # X) h1" by blast
    show ?thesis
    proof (cases "extra_attributes E ns")
      case (Inl f)
      with Cons.IH [OF h1(2)] h1(1) Some show ?thesis by (simp add: a)
    next
      case (Inr as)
      with Cons.IH [OF h1(2)] obtain Y xs h' where
        h': "extra_arrays E ns h1 = Inr (xs, h')" "arrays h0 (Y @ (b, x, bs) # X) h'" "objs Y = rev (map snd xs)"
          "attributes_of xs h' = Inr as" by auto
      have "read_array x h' = Inr bs" by (rule arrays_read [OF h'(2), where a = b]) simp
      with h' h1(1) Some Inr show ?thesis
        by (auto simp: a intro!: exI [of _ "Y @ [(b, x, bs)]"])
    qed
  qed
qed

text \<open>The second half of an import, with the arrays of the first on the heap.\<close>

lemma import_private_memory:
  assumes "arrays h0 [(a, x, i), (b, y, e), (c, z, n)] h" "ssl_ok E"
  shows "memory_of h0 (import_private_heap E m s g rsa x z y cs h) (import_private E m s g rsa i n e cs)"
proof (cases "bignum_to_array E (rsa_d rsa)")
  case None
  with number_made(1) [OF assms, of "rsa_d rsa"] obtain h1 where
    h1: "bignum_to_array_heap E (rsa_d rsa) h = Inr (None, h1)" "arrays h0 [(a, x, i), (b, y, e), (c, z, n)] h1" by blast
  from give_up_memory [OF h1(2)] h1(1) None show ?thesis by (simp add: import_private_heap_def import_private_def)
next
  case (Some d)
  let ?X = "[(a, x, i), (b, y, e), (c, z, n)]"
  from number_made(2) [OF assms, of "rsa_d rsa" d] Some obtain b' w h1 where
    h1: "bignum_to_array_heap E (rsa_d rsa) h = Inr (Some w, h1)" "arrays h0 ((b', w, d) # ?X) h1" by blast
  note ex = extra_memory [OF h1(2) assms(2), of "extra_numbers rsa"]
  show ?thesis
  proof (cases "extra_attributes E (extra_numbers rsa)")
    case (Inl f)
    with ex h1(1) Some show ?thesis by (simp add: import_private_heap_def import_private_def)
  next
    case (Inr as)
    with ex obtain Y xs h2 where
      h2: "extra_arrays E (extra_numbers rsa) h1 = Inr (xs, h2)" "arrays h0 (Y @ (b', w, d) # ?X) h2"
        "objs Y = rev (map snd xs)" "attributes_of xs h2 = Inr as" by auto
    let ?Z = "Y @ (b', w, d) # ?X" and ?T = "import_private_template i n e d @ as"
    have rd: "read_array x h2 = Inr i" "read_array y h2 = Inr e" "read_array z h2 = Inr n" "read_array w h2 = Inr d"
      by (rule arrays_read [OF h2(2), where a = a], simp) (rule arrays_read [OF h2(2), where a = b], simp,
        rule arrays_read [OF h2(2), where a = c], simp, rule arrays_read [OF h2(2), where a = b'], simp)
    have o: "objs ?Z = rev (map snd xs) @ [w, x, y, z]" using h2(3) by simp
    obtain rv k where c: "C_CreateObject E cs s ?T = (rv, k)" by fastforce
    let ?cs = "CCreateObject s ?T rv # cs"
    have up: "memory_of h0 (give_up (rev (map snd xs) @ [w, x, y, z]) cs' h2) (Inr (- 1, None, cs'))"
      and save: "memory_of h0 (save_and_end x (rev (map snd xs) @ [w, x, y, z]) cs' h2)
          (Inr (fst (keyblob_save i), Some (snd (keyblob_save i)), cs'))" for cs'
      using give_up_memory [OF h2(2)] save_memory [OF h2(2), of a x i] unfolding o by simp_all
    have "import_private_heap E m s g rsa x z y cs h =
        (if rv \<noteq> CKR_OK then give_up (rev (map snd xs) @ [w, x, y, z]) (scope_end E m s g CK_INVALID_HANDLE ?cs) h2
         else save_and_end x (rev (map snd xs) @ [w, x, y, z]) (scope_end E m s g k (object_handle k ?cs)) h2)"
      by (simp add: import_private_heap_def h1(1) h2(1,4) rd c Let_def)
    moreover have "import_private E m s g rsa i n e cs =
        Inr (if rv \<noteq> CKR_OK then (- 1, None, scope_end E m s g CK_INVALID_HANDLE ?cs)
          else (fst (keyblob_save i), Some (snd (keyblob_save i)), scope_end E m s g k (object_handle k ?cs)))"
      by (simp add: import_private_def Some Inr c case_prod_beta Let_def)
    ultimately show ?thesis using up save by simp
  qed
qed

lemma import_rsa_memory:
  assumes "heap_ok h" "ssl_ok E"
  shows "memory_of h (import_rsa_heap E m rsa cs h) (import_rsa E m rsa cs)"
proof -
  note st = arrays_start [OF assms(1)]
  show ?thesis
  proof (cases "bignum_to_array E (rsa_n rsa)")
    case None
    with number_made(1) [OF st assms(2), of "rsa_n rsa"] obtain h1 where
      h1: "bignum_to_array_heap E (rsa_n rsa) h = Inr (None, h1)" "arrays h [] h1" by blast
    from give_up_memory [OF h1(2)] h1(1) None show ?thesis by (simp add: import_rsa_heap_def import_rsa_def)
  next
    case n: (Some n)
    from number_made(2) [OF st assms(2) n] obtain c z h1 where
      h1: "bignum_to_array_heap E (rsa_n rsa) h = Inr (Some z, h1)" "arrays h [(c, z, n)] h1" by blast
    show ?thesis
    proof (cases "bignum_to_array E (rsa_e rsa)")
      case None
      with number_made(1) [OF h1(2) assms(2), of "rsa_e rsa"] obtain h2 where
        h2: "bignum_to_array_heap E (rsa_e rsa) h1 = Inr (None, h2)" "arrays h [(c, z, n)] h2" by blast
      from give_up_memory [OF h2(2)] h1(1) h2(1) None n show ?thesis by (simp add: import_rsa_heap_def import_rsa_def)
    next
      case e: (Some e)
      from number_made(2) [OF h1(2) assms(2) e] obtain b y h2 where
        h2: "bignum_to_array_heap E (rsa_e rsa) h1 = Inr (Some y, h2)" "arrays h [(b, y, e), (c, z, n)] h2" by blast
      show ?thesis
      proof (cases "generate_random_id E cs")
        case None
        with id_made(1) [OF h2(2) assms(2), of cs] obtain h3 where
          h3: "generate_random_id_heap E cs h2 = Inr (None, h3)" "arrays h [(b, y, e), (c, z, n)] h3" by blast
        from give_up_memory [OF h3(2)] h1(1) h2(1) h3(1) None n e show ?thesis
          by (simp add: import_rsa_heap_def import_rsa_def)
      next
        case i: (Some i)
        from id_made(2) [OF h2(2) assms(2) i] obtain a x h3 where
          h3: "generate_random_id_heap E cs h2 = Inr (Some x, h3)" "arrays h [(a, x, i), (b, y, e), (c, z, n)] h3" by blast
        have rd: "read_array x h3 = Inr i" "read_array y h3 = Inr e" "read_array z h3 = Inr n"
          by (rule arrays_read [OF h3(2), where a = a], simp) (rule arrays_read [OF h3(2), where a = b], simp,
            rule arrays_read [OF h3(2), where a = c], simp)
        obtain s cs1 where 1: "crypto_session E m cs = (s, cs1)" by fastforce
        obtain rv g where 2: "C_CreateObject E cs1 s (import_public_template i n e) = (rv, g)" by fastforce
        note imp = import_private_memory [OF h3(2) assms(2), of m s g rsa]
        from give_up_memory [OF h3(2)] imp h1(1) h2(1) h3(1) rd n e i 1 2 show ?thesis
          by (simp add: import_rsa_heap_def import_rsa_def Let_def)
      qed
    qed
  qed
qed

lemma import_memory:
  assumes "heap_ok h" "ssl_ok E"
  shows "memory_of h (tee_import_keypair_heap E m k cs h) (tee_import_keypair E m k cs)"
  using give_up_memory [OF arrays_start [OF assms(1)], simplified] import_rsa_memory [OF assms]
  by (simp add: tee_import_keypair_heap_def tee_import_keypair_def split: option.split)

section \<open>Property\<close>

text \<open>
  C37. Creating keys leaks, once per key: generating or importing a key pair computes on the heap exactly what the
  model on byte strings says, without a write outside a block or a second delete. When no blob is
  returned all memory is given back. When one is, and the caller has given it back, all
  blocks are as before but one more \<open>ByteArray\<close> object exists than before, the one
  \<open>keyblob_save\<close> released its smart pointer to; no pointer to it is returned.
\<close>

theorem key_creation_leaks:
  assumes "heap_ok h" "ssl_ok E"
  shows "memory_of h (tee_generate_keypair_heap E m t p cs h) (Inr (tee_generate_keypair E m t p cs)) \<and>
    memory_of h (tee_import_keypair_heap E m k cs h) (tee_import_keypair E m k cs)"
  using generate_memory [OF assms] import_memory [OF assms] by blast

text \<open>A key with all its numbers that is imported, into an element that takes it.\<close>

definition demo_import :: tee_env where
  "demo_import = demo_ssl\<lparr>BN_num_bytes := (\<lambda>n. 1), EVP_PKEY_get1_RSA := (\<lambda>k. Some \<lparr>rsa_n = 33, rsa_e = 3, rsa_d = 7,
     rsa_p = Some 11, rsa_q = Some 3, rsa_dmp1 = Some 7, rsa_dmq1 = Some 1, rsa_iqmp = Some 4\<rparr>)\<rparr>"

theorem key_creation_leaks_witness:
  "\<exists>r a n cs' h' h'' y b. tee_import_keypair_heap demo_import 1 (Some []) [] demo_heap = Inr (r, Some a, n, cs', h') \<and>
     delete_bytes a h' = Inr h'' \<and> blocks h'' = blocks demo_heap \<and> objects demo_heap y = None \<and>
     objects h'' = (objects demo_heap)(y \<mapsto> b)"
proof -
  have ok: "ssl_ok demo_import" by (simp add: ssl_ok_def demo_import_def demo_ssl_def demo_tee_def)
  have "\<exists>blob cs'. tee_import_keypair demo_import 1 (Some []) [] = Inr (0, Some blob, cs')"
    by (simp add: tee_import_keypair_def import_rsa_def import_private_def demo_import_def demo_ssl_def demo_tee_def
        bignum_to_array_def generate_random_id_def extra_numbers_def crypto_session_def import_public_template_def
        import_private_template_def set_attribute_def keyblob_save_def next_session_def ck_consts Let_def)
  then obtain blob cs' where b: "tee_import_keypair demo_import 1 (Some []) [] = Inr (0, Some blob, cs')" by blast
  from key_creation_leaks [OF demo_heap_ok(1) ok, of 1 1 None "[]" "Some []", unfolded b] show ?thesis by simp blast
qed

end
