(* ===== verification/Pkcs11.thy ===== *)
theory Pkcs11
  imports Keymaster_Props
begin

unbundle bit_operations_syntax

text \<open>
  The vocabulary of \<open>keymaster/pkcs11.h\<close> and \<open>cryptoki.h\<close>: the structures and the tables of named
  constants the secure element and the keymaster exchange. The lemmas show that a code has one
  meaning, that \<open>CKR_OK\<close> is the only code of success, and that every template the keymaster sends
  is well formed by these tables.
\<close>

section \<open>Structures\<close>

text \<open>\<open>CK_BYTE\<close> and \<open>CK_UTF8CHAR\<close> are bytes, \<open>CK_ULONG\<close> and the types named after it 32-bit words.\<close>

type_synonym ck_ulong = "32 word"

record ck_version =
  ver_major :: u8
  ver_minor :: u8

record ck_info =
  cryptokiVersion :: ck_version
  manufacturerID :: "u8 list"
  info_flags :: ck_ulong
  libraryDescription :: "u8 list"
  libraryVersion :: ck_version

record ck_session_info =
  slotID :: ck_ulong
  session_state :: ck_ulong
  session_flags :: ck_ulong
  ulDeviceError :: ck_ulong

record ck_mechanism =
  mechanism :: ck_ulong
  pParameter :: "u8 list option"
  ulParameterLen :: ck_ulong

record ck_rsa_pkcs_oaep_params =
  oaep_hashAlg :: ck_ulong
  oaep_mgf :: ck_ulong
  oaep_source :: ck_ulong
  pSourceData :: "u8 list option"
  ulSourceDataLen :: ck_ulong

record ck_rsa_pkcs_pss_params =
  pss_hashAlg :: ck_ulong
  pss_mgf :: ck_ulong
  sLen :: ck_ulong

record ck_aes_ctr_params =
  ulCounterBits :: ck_ulong
  cb :: "u8 list"

section \<open>Tables of constants\<close>

definition user_types :: "(string \<times> int) list" where
  "user_types =
    [(''CKU_SO'', 0), (''CKU_USER'', 1), (''CKU_CONTEXT_SPECIFIC'', 2)]"

definition session_states :: "(string \<times> int) list" where
  "session_states =
    [(''CKS_RO_PUBLIC_SESSION'', 0), (''CKS_RO_USER_FUNCTIONS'', 1), (''CKS_RW_PUBLIC_SESSION'', 2),
     (''CKS_RW_USER_FUNCTIONS'', 3), (''CKS_RW_SO_FUNCTIONS'', 4)]"

definition object_classes :: "(string \<times> int) list" where
  "object_classes =
    [(''CKO_DATA'', 0x00000000), (''CKO_PUBLIC_KEY'', 0x00000002), (''CKO_PRIVATE_KEY'', 0x00000003),
     (''CKO_SECRET_KEY'', 0x00000004)]"

definition key_types :: "(string \<times> int) list" where
  "key_types =
    [(''CKK_RSA'', 0x00000000), (''CKK_DSA'', 0x00000001), (''CKK_DH'', 0x00000002), (''CKK_EC'', 0x00000003),
     (''CKK_GENERIC_SECRET'', 0x00000010), (''CKK_RC4'', 0x00000012), (''CKK_DES'', 0x00000013),
     (''CKK_DES2'', 0x00000014), (''CKK_DES3'', 0x00000015), (''CKK_AES'', 0x0000001F),
     (''CKK_VENDOR_DEFINED'', 0x80000000)]"

definition attribute_types :: "(string \<times> int) list" where
  "attribute_types =
    [(''CKA_CLASS'', 0x00000000), (''CKA_TOKEN'', 0x00000001), (''CKA_PRIVATE'', 0x00000002),
     (''CKA_VALUE'', 0x00000011), (''CKA_OBJECT_ID'', 0x00000012), (''CKA_KEY_TYPE'', 0x00000100),
     (''CKA_ID'', 0x00000102), (''CKA_SENSITIVE'', 0x00000103), (''CKA_ENCRYPT'', 0x00000104),
     (''CKA_DECRYPT'', 0x00000105), (''CKA_WRAP'', 0x00000106), (''CKA_UNWRAP'', 0x00000107),
     (''CKA_SIGN'', 0x00000108), (''CKA_VERIFY'', 0x0000010A), (''CKA_DERIVE'', 0x0000010C),
     (''CKA_MODULUS'', 0x00000120), (''CKA_MODULUS_BITS'', 0x00000121), (''CKA_PUBLIC_EXPONENT'', 0x00000122),
     (''CKA_PRIVATE_EXPONENT'', 0x00000123), (''CKA_PRIME_1'', 0x00000124), (''CKA_PRIME_2'', 0x00000125),
     (''CKA_EXPONENT_1'', 0x00000126), (''CKA_EXPONENT_2'', 0x00000127), (''CKA_COEFFICIENT'', 0x00000128),
     (''CKA_PRIME'', 0x00000130), (''CKA_SUBPRIME'', 0x00000131), (''CKA_BASE'', 0x00000132),
     (''CKA_VALUE_BITS'', 0x00000160), (''CKA_VALUE_LEN'', 0x00000161), (''CKA_EXTRACTABLE'', 0x00000162),
     (''CKA_MODIFIABLE'', 0x00000170), (''CKA_COPYABLE'', 0x00000171),
     (''CKA_ALWAYS_AUTHENTICATE'', 0x00000202), (''CKA_VENDOR_DEFINED'', 0x80000000)]"

definition mechanism_types :: "(string \<times> int) list" where
  "mechanism_types =
    [(''CKM_RSA_PKCS_KEY_PAIR_GEN'', 0x00000000), (''CKM_RSA_PKCS'', 0x00000001),
     (''CKM_RSA_X_509'', 0x00000003), (''CKM_MD5_RSA_PKCS'', 0x00000005), (''CKM_SHA1_RSA_PKCS'', 0x00000006),
     (''CKM_RSA_PKCS_OAEP'', 0x00000009), (''CKM_RSA_PKCS_PSS'', 0x0000000D),
     (''CKM_SHA1_RSA_PKCS_PSS'', 0x0000000E), (''CKM_DSA_KEY_PAIR_GEN'', 0x00000010), (''CKM_DSA'', 0x00000011),
     (''CKM_DSA_SHA1'', 0x00000012), (''CKM_DH_PKCS_KEY_PAIR_GEN'', 0x00000020),
     (''CKM_DH_PKCS_DERIVE'', 0x00000021), (''CKM_SHA256_RSA_PKCS'', 0x00000040),
     (''CKM_SHA384_RSA_PKCS'', 0x00000041), (''CKM_SHA512_RSA_PKCS'', 0x00000042),
     (''CKM_SHA256_RSA_PKCS_PSS'', 0x00000043), (''CKM_SHA384_RSA_PKCS_PSS'', 0x00000044),
     (''CKM_SHA512_RSA_PKCS_PSS'', 0x00000045), (''CKM_SHA224_RSA_PKCS'', 0x00000046),
     (''CKM_SHA224_RSA_PKCS_PSS'', 0x00000047), (''CKM_RC4_KEY_GEN'', 0x00000110), (''CKM_RC4'', 0x00000111),
     (''CKM_DES_KEY_GEN'', 0x00000120), (''CKM_DES_ECB'', 0x00000121), (''CKM_DES_CBC'', 0x00000122),
     (''CKM_DES_MAC'', 0x00000123), (''CKM_DES2_KEY_GEN'', 0x00000130), (''CKM_DES3_KEY_GEN'', 0x00000131),
     (''CKM_DES3_ECB'', 0x00000132), (''CKM_DES3_CBC'', 0x00000133), (''CKM_DES3_MAC'', 0x00000134),
     (''CKM_MD5'', 0x00000210), (''CKM_MD5_HMAC'', 0x00000211), (''CKM_SHA_1'', 0x00000220),
     (''CKM_SHA_1_HMAC'', 0x00000221), (''CKM_SHA256'', 0x00000250), (''CKM_SHA256_HMAC'', 0x00000251),
     (''CKM_SHA224'', 0x00000255), (''CKM_SHA224_HMAC'', 0x00000256), (''CKM_SHA384'', 0x00000260),
     (''CKM_SHA384_HMAC'', 0x00000261), (''CKM_SHA512'', 0x00000270), (''CKM_SHA512_HMAC'', 0x00000271),
     (''CKM_GENERIC_SECRET_KEY_GEN'', 0x00000350), (''CKM_AES_KEY_GEN'', 0x00001080),
     (''CKM_AES_ECB'', 0x00001081), (''CKM_AES_CBC'', 0x00001082), (''CKM_AES_MAC'', 0x00001083),
     (''CKM_AES_CTR'', 0x00001086), (''CKM_VENDOR_DEFINED'', 0x80000000), (''CKMV_AES_CTR'', 0x80000001),
     (''CKMV_IMPLEMENTATION_DEFINED_0'', 0xC0000000), (''CKMV_IMPLEMENTATION_DEFINED_1'', 0xC0000001),
     (''CKMV_IMPLEMENTATION_DEFINED_2'', 0xC0000002), (''CKMV_IMPLEMENTATION_DEFINED_3'', 0xC0000003),
     (''CKMV_IMPLEMENTATION_DEFINED_4'', 0xC0000004), (''CKMV_IMPLEMENTATION_DEFINED_5'', 0xC0000005),
     (''CKMV_IMPLEMENTATION_DEFINED_6'', 0xC0000006), (''CKMV_IMPLEMENTATION_DEFINED_7'', 0xC0000007),
     (''CKMV_IMPLEMENTATION_DEFINED_8'', 0xC0000008), (''CKMV_IMPLEMENTATION_DEFINED_9'', 0xC0000009),
     (''CKMV_IMPLEMENTATION_DEFINED_10'', 0xC000000A), (''CKMV_IMPLEMENTATION_DEFINED_11'', 0xC000000B),
     (''CKMV_IMPLEMENTATION_DEFINED_12'', 0xC000000C), (''CKMV_IMPLEMENTATION_DEFINED_13'', 0xC000000D),
     (''CKMV_IMPLEMENTATION_DEFINED_14'', 0xC000000E), (''CKMV_IMPLEMENTATION_DEFINED_15'', 0xC000000F)]"

definition return_values :: "(string \<times> int) list" where
  "return_values =
    [(''CKR_OK'', 0x00000000), (''CKR_CANCEL'', 0x00000001), (''CKR_HOST_MEMORY'', 0x00000002),
     (''CKR_SLOT_ID_INVALID'', 0x00000003), (''CKR_GENERAL_ERROR'', 0x00000005),
     (''CKR_ARGUMENTS_BAD'', 0x00000007), (''CKR_ATTRIBUTE_SENSITIVE'', 0x00000011),
     (''CKR_ATTRIBUTE_TYPE_INVALID'', 0x00000012), (''CKR_ATTRIBUTE_VALUE_INVALID'', 0x00000013),
     (''CKR_COPY_PROHIBITED'', 0x0000001A), (''CKR_DATA_INVALID'', 0x00000020),
     (''CKR_DATA_LEN_RANGE'', 0x00000021), (''CKR_DEVICE_ERROR'', 0x00000030),
     (''CKR_DEVICE_MEMORY'', 0x00000031), (''CKR_ENCRYPTED_DATA_INVALID'', 0x00000040),
     (''CKR_ENCRYPTED_DATA_LEN_RANGE'', 0x00000041), (''CKR_KEY_HANDLE_INVALID'', 0x00000060),
     (''CKR_KEY_SIZE_RANGE'', 0x00000062), (''CKR_KEY_TYPE_INCONSISTENT'', 0x00000063),
     (''CKR_KEY_FUNCTION_NOT_PERMITTED'', 0x00000068), (''CKR_KEY_NOT_WRAPPABLE'', 0x00000069),
     (''CKR_MECHANISM_INVALID'', 0x00000070), (''CKR_MECHANISM_PARAM_INVALID'', 0x00000071),
     (''CKR_OBJECT_HANDLE_INVALID'', 0x00000082), (''CKR_OPERATION_ACTIVE'', 0x00000090),
     (''CKR_OPERATION_NOT_INITIALIZED'', 0x00000091), (''CKR_PIN_INCORRECT'', 0x000000A0),
     (''CKR_SESSION_COUNT'', 0x000000B1), (''CKR_SESSION_HANDLE_INVALID'', 0x000000B3),
     (''CKR_SESSION_PARALLEL_NOT_SUPPORTED'', 0x000000B4), (''CKR_SESSION_READ_ONLY'', 0x000000B5),
     (''CKR_SIGNATURE_INVALID'', 0x000000C0), (''CKR_SIGNATURE_LEN_RANGE'', 0x000000C1),
     (''CKR_TEMPLATE_INCOMPLETE'', 0x000000D0), (''CKR_TEMPLATE_INCONSISTENT'', 0x000000D1),
     (''CKR_TOKEN_NOT_PRESENT'', 0x000000E0), (''CKR_USER_ALREADY_LOGGED_IN'', 0x00000100),
     (''CKR_USER_NOT_LOGGED_IN'', 0x00000101), (''CKR_USER_TYPE_INVALID'', 0x00000103),
     (''CKR_WRAPPED_KEY_LEN_RANGE'', 0x00000112), (''CKR_WRAPPING_KEY_HANDLE_INVALID'', 0x00000113),
     (''CKR_RANDOM_SEED_NOT_SUPPORTED'', 0x00000120), (''CKR_RANDOM_NO_RNG'', 0x00000121),
     (''CKR_BUFFER_TOO_SMALL'', 0x00000150), (''CKR_CRYPTOKI_NOT_INITIALIZED'', 0x00000190),
     (''CKR_CRYPTOKI_ALREADY_INITIALIZED'', 0x00000191), (''CKR_VENDOR_DEFINED'', 0x80000000)]"

definition mask_functions :: "(string \<times> int) list" where
  "mask_functions =
    [(''CKG_MGF1_SHA1'', 0x00000001), (''CKG_MGF1_SHA256'', 0x00000002), (''CKG_MGF1_SHA384'', 0x00000003),
     (''CKG_MGF1_SHA512'', 0x00000004), (''CKG_MGF1_SHA224'', 0x00000005)]"

text \<open>The slots of \<open>cryptoki.h\<close>.\<close>

definition token_slots :: "(string \<times> int) list" where
  "token_slots =
    [(''CKV_TOKEN_SYSTEM'', 0x00000001), (''CKV_TOKEN_SYSTEM_SHARED'', 0x00000000),
     (''CKV_TOKEN_USER'', 0x00004004), (''CKV_TOKEN_USER_SHARED'', 0x00004012)]"

definition CKV_TOKEN_SYSTEM_GROUP :: "ck_ulong \<Rightarrow> ck_ulong" where
  "CKV_TOKEN_SYSTEM_GROUP gid = 0x00010000 OR gid"

definition CKV_TOKEN_USER_GROUP :: "ck_ulong \<Rightarrow> ck_ulong" where
  "CKV_TOKEN_USER_GROUP gid = 0x00020000 OR gid"

section \<open>A code has one meaning\<close>

lemma codes_distinct:
  "distinct (map snd user_types)" "distinct (map snd session_states)" "distinct (map snd object_classes)"
  "distinct (map snd key_types)" "distinct (map snd attribute_types)" "distinct (map snd mechanism_types)"
  "distinct (map snd return_values)" "distinct (map snd mask_functions)" "distinct (map snd token_slots)"
  by (simp_all add: user_types_def session_states_def object_classes_def key_types_def attribute_types_def
      mechanism_types_def return_values_def mask_functions_def token_slots_def)

text \<open>The only code of success is \<open>CKR_OK\<close>; the keymaster takes every other code as a failure.\<close>

lemma only_ok_succeeds: "(n, c) \<in> set return_values \<Longrightarrow> c = CKR_OK \<longleftrightarrow> n = ''CKR_OK''"
  by (auto simp: return_values_def CKR_OK_def)

text \<open>A slot of a group is none of the named slots, whatever the group.\<close>

lemma group_slots:
  assumes "(n, c) \<in> set token_slots"
  shows "uint (CKV_TOKEN_SYSTEM_GROUP g) \<noteq> c \<and> uint (CKV_TOKEN_USER_GROUP g) \<noteq> c"
proof -
  have "uint (0x00010000 :: ck_ulong) \<le> uint (CKV_TOKEN_SYSTEM_GROUP g)"
    "uint (0x00020000 :: ck_ulong) \<le> uint (CKV_TOKEN_USER_GROUP g)"
    unfolding CKV_TOKEN_SYSTEM_GROUP_def CKV_TOKEN_USER_GROUP_def
    by (simp_all only: word_le_def [symmetric] le_word_or2)
  then show ?thesis using assms by (auto simp: token_slots_def)
qed

section \<open>The templates of the keymaster\<close>

text \<open>
  The kind of value the PKCS#11 standard gives an attribute: a flag, a number, or a byte string
  (identifiers and big integers).
\<close>

definition flag_attributes :: "string list" where
  "flag_attributes = [''CKA_TOKEN'', ''CKA_ENCRYPT'', ''CKA_DECRYPT'', ''CKA_SIGN'', ''CKA_VERIFY'']"

definition number_attributes :: "string list" where
  "number_attributes = [''CKA_CLASS'', ''CKA_KEY_TYPE'', ''CKA_MODULUS_BITS'']"

definition bytes_attributes :: "string list" where
  "bytes_attributes = [''CKA_ID'', ''CKA_MODULUS'', ''CKA_PUBLIC_EXPONENT'', ''CKA_PRIVATE_EXPONENT'', ''CKA_PRIME_1'',
     ''CKA_PRIME_2'', ''CKA_EXPONENT_1'', ''CKA_EXPONENT_2'', ''CKA_COEFFICIENT'']"

definition kind_ok :: "string \<Rightarrow> attr_value \<Rightarrow> bool" where
  "kind_ok n v = (case v of BoolV b \<Rightarrow> n \<in> set flag_attributes | ULongV i \<Rightarrow> n \<in> set number_attributes
                  | BytesV bs \<Rightarrow> n \<in> set bytes_attributes)"

definition well_formed :: "ck_attribute list \<Rightarrow> bool" where
  "well_formed as \<longleftrightarrow> distinct (map fst as) \<and>
     (\<forall>(t, v) \<in> set as. \<exists>(n, c) \<in> set attribute_types. c = t \<and> kind_ok n v)"

lemmas attribute_codes = CKA_CLASS_def CKA_TOKEN_def CKA_KEY_TYPE_def CKA_ID_def CKA_ENCRYPT_def CKA_DECRYPT_def
  CKA_SIGN_def CKA_VERIFY_def CKA_MODULUS_def CKA_MODULUS_BITS_def CKA_PUBLIC_EXPONENT_def CKA_PRIVATE_EXPONENT_def
  CKA_PRIME_1_def CKA_PRIME_2_def CKA_EXPONENT_1_def CKA_EXPONENT_2_def CKA_COEFFICIENT_def

lemmas kind_defs = kind_ok_def flag_attributes_def number_attributes_def bytes_attributes_def

text \<open>The array for the private template has room for nine attributes, or fourteen with the extra numbers.\<close>

definition PRIV_ATTRIB_NORMAL_NUM :: nat where "PRIV_ATTRIB_NORMAL_NUM = 4 + 2 + 3"
definition PRIV_ATTRIB_EXTENDED_NUM :: nat where "PRIV_ATTRIB_EXTENDED_NUM = PRIV_ATTRIB_NORMAL_NUM + 5"

definition private_template_room :: "rsa_key \<Rightarrow> nat" where
  "private_template_room rsa =
     (let has_extra_data = rsa_p rsa \<noteq> None \<and> rsa_q rsa \<noteq> None \<and> rsa_dmp1 rsa \<noteq> None \<and>
            rsa_dmq1 rsa \<noteq> None \<and> rsa_iqmp rsa \<noteq> None
      in if has_extra_data then PRIV_ATTRIB_EXTENDED_NUM else PRIV_ATTRIB_NORMAL_NUM)"

text \<open>The attributes of the extra numbers, in the order of the numbers.\<close>

lemma extra_attributes_shape:
  "extra_attributes E ns = Inr as \<Longrightarrow>
     map fst as = map fst ns \<and> (\<forall>(t, v) \<in> set as. \<exists>bs. v = BytesV bs)"
proof (induction ns arbitrary: as)
  case Nil
  then show ?case by simp
next
  case (Cons a ns)
  obtain t bn where a: "a = (t, bn)" by fastforce
  from Cons.prems obtain bytes as' where "bignum_to_array E bn = Some bytes"
      "extra_attributes E ns = Inr as'" "as = set_attribute t (BytesV bytes) # as'"
    by (auto simp: a bind_res_Inr split: option.splits)
  with Cons.IH show ?case by (auto simp: a set_attribute_def)
qed

lemma extra_numbers_types:
  "map fst (extra_numbers rsa) =
     (if private_template_room rsa = PRIV_ATTRIB_EXTENDED_NUM
      then [CKA_PRIME_1, CKA_PRIME_2, CKA_EXPONENT_1, CKA_EXPONENT_2, CKA_COEFFICIENT] else [])"
  by (auto simp: extra_numbers_def private_template_room_def PRIV_ATTRIB_EXTENDED_NUM_def split: option.splits)

lemma known_bytes:
  assumes "t \<in> {CKA_PRIME_1, CKA_PRIME_2, CKA_EXPONENT_1, CKA_EXPONENT_2, CKA_COEFFICIENT}"
  shows "\<exists>(n, c) \<in> set attribute_types. c = t \<and> kind_ok n (BytesV bs)"
  using assms by (auto simp: attribute_types_def kind_defs attribute_codes)

lemma private_template_known:
  "\<forall>(t, v) \<in> set (import_private_template i n e d). \<exists>(m, c) \<in> set attribute_types. c = t \<and> kind_ok m v"
  by (simp add: import_private_template_def set_attribute_def attribute_types_def kind_defs attribute_codes)

lemma private_template_types:
  "map fst (import_private_template i n e d) = [CKA_ID, CKA_TOKEN, CKA_CLASS, CKA_KEY_TYPE, CKA_DECRYPT, CKA_SIGN,
     CKA_MODULUS, CKA_PUBLIC_EXPONENT, CKA_PRIVATE_EXPONENT]"
  by (simp add: import_private_template_def set_attribute_def)

text \<open>
  C28. Every attribute array the keymaster gives the secure element is well typed: those of a
  generation, of an import, of a search for a key, and of the query for a public key. No attribute occurs
  twice, each is an attribute of \<open>pkcs11.h\<close>, and each has a value, or in the query room for
  a value, of its kind. The private template of an import fills exactly the array that was allocated for it.
\<close>

theorem templates_well_formed:
  assumes "extra_attributes E (extra_numbers rsa) = Inr extra"
  shows "well_formed (gen_public_template i p) \<and> well_formed (gen_private_template i) \<and>
    well_formed (import_public_template i n e) \<and> well_formed (import_private_template i n e d @ extra) \<and>
    length (import_private_template i n e d @ extra) = private_template_room rsa \<and>
    well_formed (find_template i c) \<and> well_formed (zip public_query [BytesV n, BytesV e])"
proof (intro conjI)
  note x = extra_attributes_shape [OF assms]
  have ex: "map fst extra = (if private_template_room rsa = PRIV_ATTRIB_EXTENDED_NUM
      then [CKA_PRIME_1, CKA_PRIME_2, CKA_EXPONENT_1, CKA_EXPONENT_2, CKA_COEFFICIENT] else [])"
    using x by (simp only: extra_numbers_types)
  show "well_formed (gen_public_template i p)"
    by (simp add: well_formed_def gen_public_template_def attribute_types_def kind_defs attribute_codes)
  show "well_formed (gen_private_template i)"
    by (simp add: well_formed_def gen_private_template_def attribute_types_def kind_defs attribute_codes)
  show "well_formed (find_template i c)" "well_formed (zip public_query [BytesV n, BytesV e])"
    by (simp_all add: well_formed_def attribute_types_def kind_defs attribute_codes)
  show "well_formed (import_public_template i n e)"
    by (simp add: well_formed_def import_public_template_def attribute_types_def kind_defs attribute_codes)
  have "distinct (map fst (import_private_template i n e d @ extra))"
    by (simp only: map_append private_template_types ex) (simp add: attribute_codes)
  moreover have "\<exists>(m, c) \<in> set attribute_types. c = t \<and> kind_ok m v" if "(t, v) \<in> set extra" for t v
  proof -
    from that x obtain bs where "v = BytesV bs" by blast
    moreover from that have "t \<in> set (map fst extra)" by force
    then have "t \<in> {CKA_PRIME_1, CKA_PRIME_2, CKA_EXPONENT_1, CKA_EXPONENT_2, CKA_COEFFICIENT}"
      by (simp only: ex) (simp split: if_splits)
    ultimately show ?thesis using known_bytes by blast
  qed
  ultimately show "well_formed (import_private_template i n e d @ extra)"
    using private_template_known [of i n e d] by (auto simp: well_formed_def)
  have "length (map fst extra) = (if private_template_room rsa = PRIV_ATTRIB_EXTENDED_NUM then 5 else 0)"
    by (simp only: ex) simp
  moreover have "length (import_private_template i n e d) = 9"
    using private_template_types [THEN arg_cong [where f = length], of i n e d] by simp
  ultimately show "length (import_private_template i n e d @ extra) = private_template_room rsa"
    by (simp add: private_template_room_def PRIV_ATTRIB_EXTENDED_NUM_def PRIV_ATTRIB_NORMAL_NUM_def Let_def split: if_splits)
qed

definition full_rsa :: rsa_key where
  "full_rsa = \<lparr>rsa_n = 3233, rsa_e = 17, rsa_d = 413, rsa_p = Some 61, rsa_q = Some 53, rsa_dmp1 = Some 53,
     rsa_dmq1 = Some 49, rsa_iqmp = Some 38\<rparr>"

theorem templates_well_formed_witness:
  "\<exists>extra. extra_attributes (demo_tee\<lparr>BN_num_bytes := (\<lambda>n. 1), BN_bn2bin := (\<lambda>n. [word_of_nat n])\<rparr>)
       (extra_numbers full_rsa) = Inr extra \<and>
     well_formed (import_private_template [1] [12, 161] [17] [1, 157] @ extra) \<and>
     length (import_private_template [1] [12, 161] [17] [1, 157] @ extra) = 14"
proof -
  let ?E = "demo_tee\<lparr>BN_num_bytes := (\<lambda>n. 1), BN_bn2bin := (\<lambda>n. [word_of_nat n])\<rparr>"
  have "\<exists>extra. extra_attributes ?E (extra_numbers full_rsa) = Inr extra"
    by (simp add: full_rsa_def extra_numbers_def bignum_to_array_def)
  then obtain extra where x: "extra_attributes ?E (extra_numbers full_rsa) = Inr extra" by blast
  have "private_template_room full_rsa = 14"
    by (simp add: private_template_room_def full_rsa_def PRIV_ATTRIB_EXTENDED_NUM_def PRIV_ATTRIB_NORMAL_NUM_def)
  with x templates_well_formed [OF x] show ?thesis by metis
qed

section \<open>The line that tee_open logs\<close>

text \<open>
  \<open>CK_INFO\<close> in memory: the flags are aligned to four bytes, so two bytes of padding precede them,
  and two end the structure. \<open>tee_open\<close> logs the two texts with \<^verbatim>\<open>%s\<close>, which reads up to a byte
  that is 0; the standard pads these texts with blanks and does not terminate them.
\<close>

definition info_bytes :: "u8 list \<Rightarrow> u8 list \<Rightarrow> ck_info \<Rightarrow> u8 list" where
  "info_bytes pad pad' i =
     [ver_major (cryptokiVersion i), ver_minor (cryptokiVersion i)] @ manufacturerID i @ pad @
     rev (be_bytes 4 (uint (info_flags i))) @ libraryDescription i @
     [ver_major (libraryVersion i), ver_minor (libraryVersion i)] @ pad'"

definition text_at :: "u8 list \<Rightarrow> nat \<Rightarrow> u8 list res" where
  "text_at mem a = (if 0 \<in> set (drop a mem) then Inr (takeWhile (\<lambda>b. b \<noteq> 0) (drop a mem)) else Inl OutOfBounds)"

definition logged_info :: "u8 list \<Rightarrow> u8 list \<Rightarrow> ck_info \<Rightarrow> (u8 list \<times> u8 list) res" where
  "logged_info pad pad' i =
     bind_res (text_at (info_bytes pad pad' i) 2) (\<lambda>manufID.
     bind_res (text_at (info_bytes pad pad' i) 40) (\<lambda>libDesc. Inr (manufID, libDesc)))"

lemma logged_info_overrun:
  assumes "length (manufacturerID i) = 32" "length pad = 2" "length (libraryDescription i) = 32"
    and "0 \<notin> set (libraryDescription i)" "ver_major (libraryVersion i) \<noteq> 0" "ver_minor (libraryVersion i) \<noteq> 0"
    and "0 \<notin> set pad'"
  shows "logged_info pad pad' i = Inl OutOfBounds"
proof -
  let ?head = "[ver_major (cryptokiVersion i), ver_minor (cryptokiVersion i)] @ manufacturerID i @ pad @
     rev (be_bytes 4 (uint (info_flags i)))"
  let ?tail = "libraryDescription i @ [ver_major (libraryVersion i), ver_minor (libraryVersion i)] @ pad'"
  have "info_bytes pad pad' i = ?head @ ?tail" "length ?head = 40"
    using assms(1,2) by (simp_all add: info_bytes_def)
  then have "drop 40 (info_bytes pad pad' i) = ?tail" by (metis append_eq_conv_conj)
  then have "text_at (info_bytes pad pad' i) 40 = Inl OutOfBounds" using assms by (auto simp: text_at_def)
  moreover have "text_at (info_bytes pad pad' i) 2 = Inl OutOfBounds \<or>
      (\<exists>t. text_at (info_bytes pad pad' i) 2 = Inr t)" by (simp add: text_at_def)
  ultimately show ?thesis by (auto simp: logged_info_def)
qed

end
