(* ===== verification/Poker.thy ===== *)
theory Poker
  imports Sysfs
begin

unbundle bit_operations_syntax

text \<open>
  \<open>power/timeoutpoker.cpp\<close>, \<open>power/timeoutpoker.h\<close> and \<open>power/barrier.h\<close>:
  requests for a minimum CPU frequency or a number of CPUs, held by an open descriptor of a PM QoS
  node and given up by closing it, after a time or when the holder of a pipe end closes it. The
  looper thread of the Android library delivers the messages; which message comes next, the kernel's
  answers and the result of \<open>Looper::addFd\<close> (\<open>A\<close>) are parameters.
\<close>

section \<open>Barrier\<close>

datatype barrier = OPENED | CLOSED

definition Barrier :: barrier where "Barrier = CLOSED"

definition barrier_open :: "barrier \<Rightarrow> barrier" where "barrier_open b = OPENED"

definition barrier_close :: "barrier \<Rightarrow> barrier" where "barrier_close b = CLOSED"

text \<open>\<open>wait\<close> returns when the state is not \<open>CLOSED\<close>; a waiter that cannot go on stays.\<close>

definition barrier_wait :: "barrier \<Rightarrow> bool" where "barrier_wait b \<longleftrightarrow> b \<noteq> CLOSED"

section \<open>Events\<close>

definition COMMAND_SIZE :: nat where "COMMAND_SIZE = 20"
definition NODE_TYPE_DEFAULT :: int where "NODE_TYPE_DEFAULT = 0"
definition NODE_TYPE_PRIORITY :: int where "NODE_TYPE_PRIORITY = 1"

text \<open>The fields of \<open>PmQosOpenTimedEvent\<close> and \<open>PmQosOpenHandleEvent\<close>.\<close>

record qos_node =
  node :: string
  val :: int
  priority :: int
  qos_max :: int
  qos_min :: int
  qos_type :: int

text \<open>
  The classes derived from \<open>QueuedEvent\<close>. The second field of a handle event stands for
  \<open>outFd\<close> and \<open>done\<close>: it names the caller that waits.
\<close>

datatype queued_event =
    PmQosOpenTimedEvent qos_node int
  | PmQosOpenHandleEvent qos_node nat
  | TimeoutEvent fd

definition default_node :: "string \<Rightarrow> int \<Rightarrow> qos_node" where
  "default_node n v =
     \<lparr>node = n, val = v, priority = - 1, qos_max = - 1, qos_min = - 1, qos_type = NODE_TYPE_DEFAULT\<rparr>"

definition priority_node :: "string \<Rightarrow> int \<Rightarrow> int \<Rightarrow> int \<Rightarrow> qos_node" where
  "priority_node n p mx mn =
     \<lparr>node = n, val = 0, priority = p, qos_max = mx, qos_min = mn, qos_type = NODE_TYPE_PRIORITY\<rparr>"

section \<open>The handler's state\<close>

text \<open>
  \<open>mMessages\<close> are the messages the looper holds (due time and \<open>what\<close>),
  \<open>mListeners\<close> the descriptors it watches with the one in the \<open>CallbackContext\<close>,
  \<open>outFd\<close> the results of the calls whose barrier is open (\<open>None\<close> in it is -1),
  \<open>callers\<close> the descriptors handed to callers, \<open>mNow\<close> the clock.
\<close>

record poker =
  mKey :: int
  mQueuedEvents :: "int \<rightharpoonup> queued_event"
  mMessages :: "(int \<times> int) list"
  mListeners :: "fd \<rightharpoonup> fd"
  outFd :: "nat \<rightharpoonup> fd option"
  callers :: "fd set"
  mNow :: int
  pcalls :: "fcall list"

definition pcall :: "fcall \<Rightarrow> poker \<Rightarrow> poker" where
  "pcall c p = p\<lparr>pcalls := c # pcalls p\<rparr>"

section \<open>The queue\<close>

definition generateNewKey :: "poker \<Rightarrow> (int \<times> poker) res" where
  "generateNewKey p =
     (if mKey p = 2147483647 then Inl Overflow else Inr (mKey p, p\<lparr>mKey := mKey p + 1\<rparr>))"

definition sendEventDelayed :: "int \<Rightarrow> queued_event \<Rightarrow> poker \<Rightarrow> poker res" where
  "sendEventDelayed delay ev p =
     bind_res (generateNewKey p) (\<lambda>(key, p).
       Inr (p\<lparr>mQueuedEvents := (mQueuedEvents p)(u32 key \<mapsto> ev),
              mMessages := mMessages p @ [(mNow p + delay, key)]\<rparr>))"

text \<open>\<open>KeyedVector::valueFor\<close> stops the process when the key is not there.\<close>

definition removeEventByKey :: "int \<Rightarrow> poker \<Rightarrow> (queued_event \<times> poker) res" where
  "removeEventByKey what p =
     (case mQueuedEvents p (u32 what) of
        None \<Rightarrow> Inl Aborted
      | Some e \<Rightarrow> Inr (e, p\<lparr>mQueuedEvents := (mQueuedEvents p)(u32 what := None)\<rparr>))"

definition pushEvent :: "queued_event \<Rightarrow> poker \<Rightarrow> poker res" where
  "pushEvent event p = sendEventDelayed 0 event p"

section \<open>PM QoS nodes\<close>

definition createConstraintCommand :: "nat \<Rightarrow> int \<Rightarrow> int \<Rightarrow> int \<Rightarrow> string" where
  "createConstraintCommand sz prio mx mn =
     take (sz - 1) (show_int mx @ '' '' @ show_int mn @ '' '' @ show_int prio @ '' 0'')"

text \<open>Both versions of \<open>openPmQosNode\<close>; the result of the write is not looked at.\<close>

definition openPmQosNode_val :: "file_env \<Rightarrow> string \<Rightarrow> int \<Rightarrow> poker \<Rightarrow> fd option \<times> poker" where
  "openPmQosNode_val E filename v p =
     (let r = f_open E (pcalls p) filename; p = pcall (FOpen filename (fd_of r)) p in
      case r of
        Inl e \<Rightarrow> (None, pcall (FLog filename) p)
      | Inr fd \<Rightarrow> (Some fd, pcall (FWriteVal fd v) p))"

definition openPmQosNode_cmd :: "file_env \<Rightarrow> string \<Rightarrow> int \<Rightarrow> int \<Rightarrow> int \<Rightarrow> poker \<Rightarrow> fd option \<times> poker" where
  "openPmQosNode_cmd E filename prio mx mn p =
     (let r = f_open E (pcalls p) filename; p = pcall (FOpen filename (fd_of r)) p in
      case r of
        Inl e \<Rightarrow> (None, pcall (FLog filename) p)
      | Inr fd \<Rightarrow> (Some fd, pcall (FWrite fd (createConstraintCommand COMMAND_SIZE prio mx mn)) p))"

text \<open>
  \<open>listenForHandleToCloseFd\<close> returns the negation of what \<open>addFd\<close> returned.
  \<open>createHandleForFd\<close> keeps the result of \<open>pipe\<close> in \<open>res\<close> and tests it twice.
\<close>

definition listenForHandleToCloseFd ::
  "(fcall list \<Rightarrow> fd \<Rightarrow> bool) \<Rightarrow> fd \<Rightarrow> fd \<Rightarrow> poker \<Rightarrow> int \<times> poker" where
  "listenForHandleToCloseFd A handle fd p =
     (if A (pcalls p) handle then (0, p\<lparr>mListeners := (mListeners p)(handle \<mapsto> fd)\<rparr>) else (1, p))"

definition createHandleForFd ::
  "file_env \<Rightarrow> (fcall list \<Rightarrow> fd \<Rightarrow> bool) \<Rightarrow> fd \<Rightarrow> poker \<Rightarrow> fd option \<times> poker" where
  "createHandleForFd E A fd p =
     (case f_pipe E (pcalls p) of
        None \<Rightarrow> (None, pcall (FClose (Some fd)) (pcall (FLog ''unabled to create handle for fd'') (pcall FPipeFail p)))
      | Some (client, server) \<Rightarrow>
          let res = (0 :: int);
              p = pcall (FPipeEnd server) (pcall (FPipeEnd client) p);
              (ignored, p) = listenForHandleToCloseFd A server fd p
          in if res \<noteq> 0
             then (None, pcall (FClose (Some client)) (pcall (FClose (Some server)) (pcall (FClose (Some fd)) p)))
             else (Some client, p))"

definition createHandleForPmQosRequest_val ::
  "file_env \<Rightarrow> (fcall list \<Rightarrow> fd \<Rightarrow> bool) \<Rightarrow> string \<Rightarrow> int \<Rightarrow> poker \<Rightarrow> fd option \<times> poker" where
  "createHandleForPmQosRequest_val E A filename v p =
     (case openPmQosNode_val E filename v p of
        (None, p) \<Rightarrow> (None, p)
      | (Some fd, p) \<Rightarrow> createHandleForFd E A fd p)"

definition createHandleForPmQosRequest_cmd ::
  "file_env \<Rightarrow> (fcall list \<Rightarrow> fd \<Rightarrow> bool) \<Rightarrow> string \<Rightarrow> int \<Rightarrow> int \<Rightarrow> int \<Rightarrow> poker \<Rightarrow> fd option \<times> poker" where
  "createHandleForPmQosRequest_cmd E A filename prio mx mn p =
     (case openPmQosNode_cmd E filename prio mx mn p of
        (None, p) \<Rightarrow> (None, p)
      | (Some fd, p) \<Rightarrow> createHandleForFd E A fd p)"

definition openPmQosTimed_val :: "file_env \<Rightarrow> string \<Rightarrow> int \<Rightarrow> int \<Rightarrow> poker \<Rightarrow> poker res" where
  "openPmQosTimed_val E filename v timeout p =
     (case openPmQosNode_val E filename v p of
        (None, p) \<Rightarrow> Inr p
      | (Some fd, p) \<Rightarrow> sendEventDelayed timeout (TimeoutEvent fd) p)"

definition openPmQosTimed_cmd :: "file_env \<Rightarrow> string \<Rightarrow> int \<Rightarrow> int \<Rightarrow> int \<Rightarrow> int \<Rightarrow> poker \<Rightarrow> poker res" where
  "openPmQosTimed_cmd E filename prio mx mn timeout p =
     (case openPmQosNode_cmd E filename prio mx mn p of
        (None, p) \<Rightarrow> Inr p
      | (Some fd, p) \<Rightarrow> sendEventDelayed timeout (TimeoutEvent fd) p)"

definition timeoutRequest :: "fd \<Rightarrow> poker \<Rightarrow> poker" where
  "timeoutRequest fd p = pcall (FClose (Some fd)) p"

section \<open>Running events\<close>

definition run_timed :: "file_env \<Rightarrow> qos_node \<Rightarrow> int \<Rightarrow> poker \<Rightarrow> poker res" where
  "run_timed E n timeout p =
     (if qos_type n = NODE_TYPE_PRIORITY
      then openPmQosTimed_cmd E (node n) (priority n) (qos_max n) (qos_min n) timeout p
      else openPmQosTimed_val E (node n) (val n) timeout p)"

text \<open>The waiting caller gets the result, and with it the descriptor, when its barrier opens.\<close>

definition run_handle :: "file_env \<Rightarrow> (fcall list \<Rightarrow> fd \<Rightarrow> bool) \<Rightarrow> qos_node \<Rightarrow> nat \<Rightarrow> poker \<Rightarrow> poker" where
  "run_handle E A n caller p =
     (let (ret, p) = (if qos_type n = NODE_TYPE_PRIORITY
            then createHandleForPmQosRequest_cmd E A (node n) (priority n) (qos_max n) (qos_min n) p
            else createHandleForPmQosRequest_val E A (node n) (val n) p)
      in p\<lparr>outFd := (outFd p)(caller \<mapsto> ret),
           callers := callers p \<union> set_option ret\<rparr>)"

fun run_event :: "file_env \<Rightarrow> (fcall list \<Rightarrow> fd \<Rightarrow> bool) \<Rightarrow> queued_event \<Rightarrow> poker \<Rightarrow> poker res" where
  "run_event E A (PmQosOpenTimedEvent n timeout) p = run_timed E n timeout p"
| "run_event E A (PmQosOpenHandleEvent n caller) p = Inr (run_handle E A n caller p)"
| "run_event E A (TimeoutEvent fd) p = Inr (timeoutRequest fd p)"

definition handleMessage :: "file_env \<Rightarrow> (fcall list \<Rightarrow> fd \<Rightarrow> bool) \<Rightarrow> int \<Rightarrow> poker \<Rightarrow> poker res" where
  "handleMessage E A what p =
     bind_res (removeEventByKey what p) (\<lambda>(e, p). run_event E A e p)"

definition ALOOPER_EVENT_ERROR :: "32 word" where "ALOOPER_EVENT_ERROR = 4"
definition ALOOPER_EVENT_HANGUP :: "32 word" where "ALOOPER_EVENT_HANGUP = 8"

definition pipeCloseCb :: "fd \<Rightarrow> 32 word \<Rightarrow> fd \<Rightarrow> poker \<Rightarrow> int \<times> poker" where
  "pipeCloseCb handle events ctx_fd p =
     (if events AND (ALOOPER_EVENT_ERROR OR ALOOPER_EVENT_HANGUP) \<noteq> 0
      then (0, pcall (FClose (Some ctx_fd)) (pcall (FClose (Some handle))
                 (p\<lparr>mListeners := (mListeners p)(handle := None)\<rparr>)))
      else (1, p))"

section \<open>The interface of \<open>TimeoutPoker\<close>\<close>

definition requestPmQosTimed_val :: "string \<Rightarrow> int \<Rightarrow> int \<Rightarrow> poker \<Rightarrow> poker res" where
  "requestPmQosTimed_val filename v timeout p =
     pushEvent (PmQosOpenTimedEvent (default_node filename v) timeout) p"

definition requestPmQosTimed_cmd :: "string \<Rightarrow> int \<Rightarrow> int \<Rightarrow> int \<Rightarrow> int \<Rightarrow> poker \<Rightarrow> poker res" where
  "requestPmQosTimed_cmd filename prio mx mn timeout p =
     pushEvent (PmQosOpenTimedEvent (priority_node filename prio mx mn) timeout) p"

text \<open>
  The part of \<open>createPmQosHandle\<close> before \<open>done.wait()\<close>; the call returns
  \<open>outFd p caller\<close> once that is set.
\<close>

definition createPmQosHandle_val :: "string \<Rightarrow> int \<Rightarrow> nat \<Rightarrow> poker \<Rightarrow> poker res" where
  "createPmQosHandle_val filename v caller p =
     pushEvent (PmQosOpenHandleEvent (default_node filename v) caller) p"

definition createPmQosHandle_cmd :: "string \<Rightarrow> int \<Rightarrow> int \<Rightarrow> int \<Rightarrow> nat \<Rightarrow> poker \<Rightarrow> poker res" where
  "createPmQosHandle_cmd filename prio mx mn caller p =
     pushEvent (PmQosOpenHandleEvent (priority_node filename prio mx mn) caller) p"

definition requestPmQos_val :: "file_env \<Rightarrow> string \<Rightarrow> int \<Rightarrow> poker \<Rightarrow> fd option \<times> poker" where
  "requestPmQos_val E filename v p =
     (let r = f_open E (pcalls p) filename; p = pcall (FOpen filename (fd_of r)) p in
      case r of
        Inl e \<Rightarrow> (None, pcall (FLog filename) p)
      | Inr fd \<Rightarrow> (Some fd, (pcall (FWriteVal fd v) p)\<lparr>callers := insert fd (callers p)\<rparr>))"

definition requestPmQos_cmd :: "file_env \<Rightarrow> string \<Rightarrow> int \<Rightarrow> int \<Rightarrow> int \<Rightarrow> poker \<Rightarrow> fd option \<times> poker" where
  "requestPmQos_cmd E filename prio mx mn p =
     (let r = f_open E (pcalls p) filename; p = pcall (FOpen filename (fd_of r)) p in
      case r of
        Inl e \<Rightarrow> (None, pcall (FLog filename) p)
      | Inr fd \<Rightarrow> (Some fd, (pcall (FWrite fd (createConstraintCommand COMMAND_SIZE prio mx mn)) p)
                          \<lparr>callers := insert fd (callers p)\<rparr>))"

text \<open>
  Construction. \<open>readyToRun\<close> of the thread opens the barrier only if the looper could be
  prepared; the constructor waits for it, so \<open>None\<close> is a constructor that does not return.
\<close>

definition readyToRun :: "bool \<Rightarrow> barrier \<Rightarrow> barrier" where
  "readyToRun prepared b = (if \<not> prepared then b else barrier_open b)"

definition PokeHandler :: "bool \<Rightarrow> barrier \<Rightarrow> fcall list \<Rightarrow> int \<Rightarrow> (poker \<times> barrier) option" where
  "PokeHandler prepared b cs now =
     (let b = readyToRun prepared b in
      if barrier_wait b
      then Some (\<lparr>mKey = 0, mQueuedEvents = Map.empty, mMessages = [], mListeners = Map.empty,
                  outFd = Map.empty, callers = {}, mNow = now, pcalls = cs\<rparr>, b)
      else None)"

definition TimeoutPoker :: "bool \<Rightarrow> barrier \<Rightarrow> fcall list \<Rightarrow> int \<Rightarrow> (poker \<times> barrier) option" where
  "TimeoutPoker prepared b cs now = PokeHandler prepared b cs now"

section \<open>Steps\<close>

text \<open>
  One iteration of the looper thread, \<open>threadLoop\<close>: it delivers the message at position
  \<open>i\<close>, taken out of its list first.
\<close>

definition deliver :: "file_env \<Rightarrow> (fcall list \<Rightarrow> fd \<Rightarrow> bool) \<Rightarrow> nat \<Rightarrow> poker \<Rightarrow> poker res" where
  "deliver E A i p =
     handleMessage E A (snd (mMessages p ! i))
       (p\<lparr>mMessages := take i (mMessages p) @ drop (Suc i) (mMessages p)\<rparr>)"

text \<open>
  What can happen next: a message that is due is delivered, in any order; the clock advances; a
  thread of the HAL makes a request; a caller closes a descriptor it was given; the kernel reports
  events on a watched pipe end.
\<close>

inductive poker_step :: "file_env \<Rightarrow> (fcall list \<Rightarrow> fd \<Rightarrow> bool) \<Rightarrow> poker \<Rightarrow> poker \<Rightarrow> bool" for E A where
  Deliver: "i < length (mMessages p) \<Longrightarrow> fst (mMessages p ! i) \<le> mNow p \<Longrightarrow> deliver E A i p = Inr p' \<Longrightarrow>
      poker_step E A p p'"
| Tick: "0 \<le> d \<Longrightarrow> poker_step E A p (p\<lparr>mNow := mNow p + d\<rparr>)"
| Timed_val: "requestPmQosTimed_val f v t p = Inr p' \<Longrightarrow> poker_step E A p p'"
| Timed_cmd: "requestPmQosTimed_cmd f pr mx mn t p = Inr p' \<Longrightarrow> poker_step E A p p'"
| Handle_val: "createPmQosHandle_val f v c p = Inr p' \<Longrightarrow> poker_step E A p p'"
| Handle_cmd: "createPmQosHandle_cmd f pr mx mn c p = Inr p' \<Longrightarrow> poker_step E A p p'"
| Direct_val: "requestPmQos_val E f v p = (r, p') \<Longrightarrow> poker_step E A p p'"
| Direct_cmd: "requestPmQos_cmd E f pr mx mn p = (r, p') \<Longrightarrow> poker_step E A p p'"
| Caller_close: "d \<in> callers p \<Longrightarrow>
      poker_step E A p ((pcall (FClose (Some d)) p)\<lparr>callers := callers p - {d}\<rparr>)"
| Pipe_event: "mListeners p h = Some d \<Longrightarrow> pipeCloseCb h ev d p = (k, p') \<Longrightarrow> poker_step E A p p'"

inductive poker_reach :: "file_env \<Rightarrow> (fcall list \<Rightarrow> fd \<Rightarrow> bool) \<Rightarrow> poker \<Rightarrow> bool" for E A where
  Start: "TimeoutPoker True Barrier [] now = Some (p, b) \<Longrightarrow> poker_reach E A p"
| Step: "poker_reach E A p \<Longrightarrow> poker_step E A p p' \<Longrightarrow> poker_reach E A p'"

text \<open>
  The looper's own order: the message that is due first (the first of those due at the same time),
  after waiting for it.
\<close>

definition earliest :: "(int \<times> int) list \<Rightarrow> nat" where
  "earliest ms = length (takeWhile (\<lambda>m. fst m \<noteq> Min (fst ` set ms)) ms)"

definition poll_once :: "file_env \<Rightarrow> (fcall list \<Rightarrow> fd \<Rightarrow> bool) \<Rightarrow> poker \<Rightarrow> poker res" where
  "poll_once E A p =
     (let i = earliest (mMessages p) in
      deliver E A i (p\<lparr>mNow := max (mNow p) (fst (mMessages p ! i))\<rparr>))"

fun poll_all :: "file_env \<Rightarrow> (fcall list \<Rightarrow> fd \<Rightarrow> bool) \<Rightarrow> nat \<Rightarrow> poker \<Rightarrow> poker res" where
  "poll_all E A 0 p = Inr p"
| "poll_all E A (Suc n) p =
     (if mMessages p = [] then Inr p else bind_res (poll_once E A p) (poll_all E A n))"

end
