(* ===== verification/PowerHal.thy ===== *)
theory PowerHal
  imports Poker
begin

text \<open>
  \<open>power/nvpowerhal.cpp\<close> and \<open>power/tegra3_power.cpp\<close>: the power HAL. It reads
  the CPU frequencies at start, switches the input devices and the governor with the screen, and
  turns hints into timed requests to the timeout poker. What the framework's headers, the C
  library's allocator and the Android looper contribute is in \<open>hal_env\<close>.
\<close>

section \<open>Data\<close>

definition MAX_CHARS :: nat where "MAX_CHARS = 32"
definition MAX_POWER_HINT_COUNT :: nat where "MAX_POWER_HINT_COUNT = 12"
definition DEFAULT_MIN_ONLINE_CPUS :: int where "DEFAULT_MIN_ONLINE_CPUS = 2"
definition DEFAULT_MAX_ONLINE_CPUS :: int where "DEFAULT_MAX_ONLINE_CPUS = 4"

record input_dev_map =
  dev_id :: int
  dev_name :: string

text \<open>
  The fields the code uses. \<open>input_devs\<close> is whether the pointer is set: it only ever
  points to the static array of \<open>tegra3_power.cpp\<close>.
\<close>

record powerhal_info =
  mTimeoutPoker :: "poker option"
  available_frequencies :: "int list"
  num_available_frequencies :: int
  lp_max_frequency :: int
  max_frequency :: int
  interaction_boost_frequency :: int
  animation_boost_frequency :: int
  ftrace_enable :: bool
  input_cnt :: int
  input_devs :: bool
  hint_time :: "int list"
  hint_interval :: "int list"

definition calloc_info :: powerhal_info where
  "calloc_info = \<lparr>mTimeoutPoker = None, available_frequencies = [], num_available_frequencies = 0,
     lp_max_frequency = 0, max_frequency = 0, interaction_boost_frequency = 0, animation_boost_frequency = 0,
     ftrace_enable = False, input_cnt = 0, input_devs = False,
     hint_time = replicate MAX_POWER_HINT_COUNT 0, hint_interval = replicate MAX_POWER_HINT_COUNT 0\<rparr>"

text \<open>The static variables of \<open>tegra3_power.cpp\<close>, and the calls of the HAL's own thread.\<close>

record power =
  pInfo :: "powerhal_info option"
  static_devs :: "input_dev_map list"
  hcalls :: "fcall list"

definition initial_devs :: "input_dev_map list" where
  "initial_devs =
     [\<lparr>dev_id = - 1, dev_name = ''atmel-maxtouch'' @ [CHR 0x0A]\<rparr>,
      \<lparr>dev_id = - 1, dev_name = ''elan-touchscreen'' @ [CHR 0x0A]\<rparr>,
      \<lparr>dev_id = - 1, dev_name = ''ft5x0x_ts'' @ [CHR 0x0A]\<rparr>]"

record hal_env =
  kernel :: file_env
  looper_prepared :: bool
  malloc_buf :: bool
  malloc_freqs :: bool
  calloc_info_ok :: bool
  calloc_dev_ok :: bool
  POWER_HARDWARE_MODULE_ID :: string
  POWER_HINT_VSYNC :: nat
  POWER_HINT_INTERACTION :: nat
  POWER_HINT_LAUNCH :: nat
  POWER_HINT_LOW_POWER :: nat
  POWER_FEATURE_DOUBLE_TAP_TO_WAKE :: nat

section \<open>Input devices\<close>

definition input_path :: "nat \<Rightarrow> string \<Rightarrow> string" where
  "input_path i leaf = take 79 (''/sys/class/input/input'' @ show_nat i @ ''/'' @ leaf)"

text \<open>
  The loop of \<open>get_input_count\<close>: it ends at the first number without a device. A kernel
  with a device for every number would keep it forever: \<open>None\<close>.
\<close>

partial_function (option) get_input_count_from ::
  "file_env \<Rightarrow> nat \<Rightarrow> fcall list \<Rightarrow> (nat \<times> fcall list) option" where
  "get_input_count_from E i cs =
     (if \<not> f_access E cs (input_path i ''name'') then Some (i, FAccess (input_path i ''name'') # cs)
      else get_input_count_from E (Suc i)
             (snd (sysfs_read E (input_path i ''name'') (replicate 50 NUL) (FAccess (input_path i ''name'') # cs))))"

definition get_input_count :: "file_env \<Rightarrow> fcall list \<Rightarrow> (nat \<times> fcall list) option" where
  "get_input_count E cs = get_input_count_from E 0 cs"

definition strncmp_eq :: "string \<Rightarrow> string \<Rightarrow> nat \<Rightarrow> bool" where
  "strncmp_eq a b n \<longleftrightarrow> take n (takeWhile (\<lambda>c. c \<noteq> NUL) a) = take n (takeWhile (\<lambda>c. c \<noteq> NUL) b)"

text \<open>The inner loop: every entry without a number that has this name gets it.\<close>

fun match_devs :: "string \<Rightarrow> nat \<Rightarrow> input_dev_map list \<Rightarrow> nat \<times> input_dev_map list" where
  "match_devs name i [] = (0, [])"
| "match_devs name i (d # ds) =
     (let (n, ds) = match_devs name i ds in
      if dev_id d = - 1 \<and> strncmp_eq name (dev_name d) MAX_CHARS
      then (Suc n, d\<lparr>dev_id := int i\<rparr> # ds) else (n, d # ds))"

partial_function (option) find_ids_from ::
  "file_env \<Rightarrow> int \<Rightarrow> nat \<Rightarrow> nat \<Rightarrow> input_dev_map list \<Rightarrow> fcall list \<Rightarrow> (input_dev_map list \<times> fcall list) option" where
  "find_ids_from E cnt i count ds cs =
     (if \<not> f_access E cs (input_path i ''name'') then Some (ds, FAccess (input_path i ''name'') # cs)
      else let (name, cs) = sysfs_read E (input_path i ''name'') (replicate MAX_CHARS NUL) (FAccess (input_path i ''name'') # cs);
               (n, new) = match_devs name i (take (nat cnt) ds);
               ds = new @ drop (nat cnt) ds
           in if int (count + n) = cnt then Some (ds, cs) else find_ids_from E cnt (Suc i) (count + n) ds cs)"

definition find_input_device_ids ::
  "file_env \<Rightarrow> int \<Rightarrow> input_dev_map list \<Rightarrow> fcall list \<Rightarrow> (input_dev_map list \<times> fcall list) option" where
  "find_input_device_ids E cnt ds cs = find_ids_from E cnt 0 0 ds cs"

section \<open>Splitting a buffer with \<open>strtok\<close>\<close>

text \<open>
  \<^verbatim>\<open>strtok(s, " ")\<close> at a position of the buffer (\<open>None\<close>: the saved pointer is
  null): skip blanks, take the characters up to the next blank, and end them with a NUL. The result
  is the token, the buffer and the saved position. Running past the end of the buffer is a fault.
\<close>

definition strtok :: "char list \<Rightarrow> nat option \<Rightarrow> (string option \<times> char list \<times> nat option) res" where
  "strtok buf save =
     (case save of
        None \<Rightarrow> Inr (None, buf, None)
      | Some pos \<Rightarrow>
          let i = pos + length (takeWhile (\<lambda>c. c = CHR '' '') (drop pos buf)) in
          if length buf \<le> i then Inl OutOfBounds
          else if buf ! i = NUL then Inr (None, buf, None)
          else
            let t = takeWhile (\<lambda>c. c \<noteq> CHR '' '' \<and> c \<noteq> NUL) (drop i buf); j = i + length t in
            if length buf \<le> j then Inl OutOfBounds
            else if buf ! j = NUL then Inr (Some t, buf, None)
            else Inr (Some t, buf[j := NUL], Some (j + 1)))"

lemma strtok_advances:
  assumes "strtok buf (Some pos) = Inr (t, buf', Some p)"
  shows "pos < p \<and> p \<le> length buf \<and> length buf' = length buf"
  using assms by (auto simp: strtok_def Let_def split: if_splits)

lemma strtok_None: "strtok buf None = Inr (None, buf, None)"
  by (simp add: strtok_def)

text \<open>The loop that counts; it starts at -1, so it gives one less than there are tokens.\<close>

function count_tokens :: "string option \<Rightarrow> char list \<Rightarrow> nat option \<Rightarrow> int \<Rightarrow> (int \<times> char list) res" where
  "count_tokens pch buf save n =
     (if pch = None then Inr (n, buf)
      else bind_res (strtok buf save) (\<lambda>(pch, buf, save). count_tokens pch buf save (n + 1)))"
  by pat_completeness auto
termination
proof (relation "measure (\<lambda>(pch, buf, save, n).
    2 * (case save of None \<Rightarrow> 0 | Some p \<Rightarrow> 1 + (length buf - p)) + (if pch = None then 0 else 1))", goal_cases)
  case 1
  then show ?case by simp
next
  case (2 pch buf save n x t y buf' save')
  then have s: "strtok buf save = Inr (t, buf', save')" and p: "pch \<noteq> None" by auto
  show ?case
  proof (cases save)
    case None
    with s p show ?thesis by (auto simp: strtok_None)
  next
    case (Some pos)
    with s p strtok_advances [of buf pos t buf'] show ?thesis by (cases save') auto
  qed
qed

declare count_tokens.simps [simp del]

text \<open>\<open>atoi\<close> of this C library saturates at the ends of \<open>int\<close>.\<close>

definition atoi32 :: "string \<Rightarrow> int" where
  "atoi32 s = max (- 2147483648) (min 2147483647 (atoi s))"

text \<open>\<open>atoi\<close> of a buffer: it must meet a character that is no digit before the end.\<close>

definition atoi_buf :: "char list \<Rightarrow> int res" where
  "atoi_buf buf =
     (let r = dropWhile is_space buf;
          r = (if r \<noteq> [] \<and> (hd r = CHR ''-'' \<or> hd r = CHR ''+'') then tl r else r)
      in if dropWhile is_digit r = [] then Inl OutOfBounds else Inr (atoi32 buf))"

fun store_frequencies :: "nat \<Rightarrow> string option \<Rightarrow> char list \<Rightarrow> nat option \<Rightarrow> (int list \<times> char list) res" where
  "store_frequencies 0 pch buf save = Inr ([], buf)"
| "store_frequencies (Suc n) pch buf save =
     (case pch of
        None \<Rightarrow> Inl NullDeref
      | Some t \<Rightarrow> bind_res (strtok buf save) (\<lambda>(pch, buf, save).
          bind_res (store_frequencies n pch buf save) (\<lambda>(fs, buf). Inr (atoi32 t # fs, buf))))"

section \<open>Opening\<close>

definition FREQS_PATH :: string where
  "FREQS_PATH = ''/sys/devices/system/cpu/cpu0/cpufreq/scaling_available_frequencies''"

definition IDLE_TOP_PATH :: string where
  "IDLE_TOP_PATH = ''/sys/devices/system/cpu/cpuquiet/tegra_cpuquiet/idle_top_freq''"

text \<open>
  The part of \<open>common_power_open\<close> that fills \<open>available_frequencies\<close>. With fewer than
  two tokens the count is -1 or 0, and the element before the last is read outside of the array.
\<close>

definition read_frequencies ::
  "hal_env \<Rightarrow> powerhal_info \<Rightarrow> fcall list \<Rightarrow> (powerhal_info \<times> char list \<times> fcall list) res" where
  "read_frequencies H info cs =
     (if \<not> malloc_buf H then Inl NullDeref
      else
        let (buf, cs) = sysfs_read (kernel H) FREQS_PATH (replicate 256 NUL) cs in
        bind_res (strtok buf (Some 0)) (\<lambda>(pch, buf, save).
        bind_res (count_tokens pch buf save (- 1)) (\<lambda>(n, buf).
        let info = info\<lparr>num_available_frequencies := n\<rparr>;
            (buf, cs) = sysfs_read (kernel H) FREQS_PATH buf cs in
        bind_res (strtok buf (Some 0)) (\<lambda>(pch, buf, save).
        if 0 < n \<and> \<not> malloc_freqs H then Inl NullDeref
        else bind_res (store_frequencies (nat n) pch buf save) (\<lambda>(fs, buf).
        if n \<le> 0 then Inl OutOfBounds
        else Inr (info\<lparr>available_frequencies := fs, max_frequency := fs ! (nat n - 1)\<rparr>, buf, cs))))))"

text \<open>The loop that looks for the first frequency of at least \<open>m\<close>; else the default.\<close>

definition first_at_least :: "int \<Rightarrow> int \<Rightarrow> int list \<Rightarrow> int" where
  "first_at_least m dflt fs = (case find (\<lambda>f. f \<ge> m) fs of None \<Rightarrow> dflt | Some f \<Rightarrow> f)"

definition set_interval :: "nat \<Rightarrow> int \<Rightarrow> powerhal_info \<Rightarrow> powerhal_info res" where
  "set_interval hint v info =
     (if hint < MAX_POWER_HINT_COUNT then Inr (info\<lparr>hint_interval := (hint_interval info)[hint := v]\<rparr>)
      else Inl OutOfBounds)"

definition scan_inputs :: "hal_env \<Rightarrow> powerhal_info \<Rightarrow> power \<Rightarrow> (powerhal_info \<times> power) option" where
  "scan_inputs H info s =
     (if \<not> input_devs info \<or> input_cnt info = 0
      then map_option (\<lambda>(n, cs). (info\<lparr>input_cnt := int n\<rparr>, s\<lparr>hcalls := cs\<rparr>)) (get_input_count (kernel H) (hcalls s))
      else map_option (\<lambda>(ds, cs). (info, s\<lparr>static_devs := ds, hcalls := cs\<rparr>))
             (find_input_device_ids (kernel H) (input_cnt info) (static_devs s) (hcalls s)))"

definition common_power_open :: "hal_env \<Rightarrow> int \<Rightarrow> powerhal_info \<Rightarrow> power \<Rightarrow> (powerhal_info \<times> power) res" where
  "common_power_open H now info s =
     (case scan_inputs H info s of
        None \<Rightarrow> Inl Blocked
      | Some (info, s) \<Rightarrow>
          (case TimeoutPoker (looper_prepared H) Barrier [] now of
             None \<Rightarrow> Inl Blocked
           | Some (p, b) \<Rightarrow>
               bind_res (read_frequencies H (info\<lparr>mTimeoutPoker := Some p\<rparr>) (hcalls s)) (\<lambda>(info, buf, cs).
               let (buf, cs) = sysfs_read (kernel H) IDLE_TOP_PATH buf cs in
               bind_res (atoi_buf buf) (\<lambda>lp.
               let fs = available_frequencies info;
                   info = info\<lparr>lp_max_frequency := lp,
                               interaction_boost_frequency := first_at_least 1200000 lp fs,
                               animation_boost_frequency := first_at_least 1000000 lp fs\<rparr> in
               bind_res (set_interval (POWER_HINT_VSYNC H) 100000 info) (\<lambda>info.
               bind_res (set_interval (POWER_HINT_INTERACTION H) 100000 info) (\<lambda>info.
               bind_res (set_interval (POWER_HINT_LAUNCH H) 2000000 info) (\<lambda>info.
               Inr (info, s\<lparr>hcalls := cs\<rparr>))))))))"

definition is_available_frequency :: "powerhal_info \<Rightarrow> int \<Rightarrow> bool" where
  "is_available_frequency info freq \<longleftrightarrow>
     (\<exists>i < nat (num_available_frequencies info). available_frequencies info ! i = freq)"

section \<open>Requests to the poker\<close>

definition s2ns :: "int \<Rightarrow> int" where "s2ns s = s * 1000000000"
definition ms2ns :: "int \<Rightarrow> int" where "ms2ns m = m * 1000000"

text \<open>\<^verbatim>\<open>pInfo->mTimeoutPoker->requestPmQosTimed(...)\<close>.\<close>

definition request :: "string \<Rightarrow> int \<Rightarrow> int \<Rightarrow> powerhal_info \<Rightarrow> powerhal_info res" where
  "request filename v timeout info =
     (case mTimeoutPoker info of
        None \<Rightarrow> Inl NullDeref
      | Some p \<Rightarrow> bind_res (requestPmQosTimed_val filename v timeout p)
          (\<lambda>p. Inr (info\<lparr>mTimeoutPoker := Some p\<rparr>)))"

text \<open>The pair of requests every boost makes.\<close>

definition boost :: "int \<Rightarrow> int \<Rightarrow> powerhal_info \<Rightarrow> powerhal_info res" where
  "boost cpus timeout info =
     bind_res (request ''/dev/cpu_freq_min'' (max_frequency info) timeout info)
       (\<lambda>info. request ''/dev/min_online_cpus'' cpus timeout info)"

definition common_power_init :: "hal_env \<Rightarrow> int \<Rightarrow> powerhal_info \<Rightarrow> power \<Rightarrow> (powerhal_info \<times> power) res" where
  "common_power_init H now info s =
     bind_res (common_power_open H now info s) (\<lambda>(info, s).
     let info = info\<lparr>ftrace_enable := get_property_bool (kernel H) ''nvidia.hwc.ftrace_enable'' False (hcalls s)\<rparr> in
     bind_res (boost DEFAULT_MAX_ONLINE_CPUS (s2ns 60) info) (\<lambda>info. Inr (info, s)))"

section \<open>The screen\<close>

text \<open>One round of the loop over the input devices.\<close>

definition switch_input :: "file_env \<Rightarrow> string \<Rightarrow> int \<Rightarrow> fcall list \<Rightarrow> fcall list" where
  "switch_input E state dev cs =
     (let path = take 79 (''/sys/class/input/input'' @ show_int dev @ ''/enabled'');
          ok = f_access E cs path; cs = FAccess path # cs
      in if ok then sysfs_write E path state cs else cs)"

fun switch_inputs :: "file_env \<Rightarrow> bool \<Rightarrow> input_dev_map list \<Rightarrow> string \<Rightarrow> nat list \<Rightarrow> fcall list \<Rightarrow> fcall list res" where
  "switch_inputs E have_devs ds state [] cs = Inr cs"
| "switch_inputs E have_devs ds state (i # is) cs =
     (if \<not> have_devs then switch_inputs E have_devs ds state is (switch_input E state (int i) cs)
      else if length ds \<le> i then Inl OutOfBounds
      else if dev_id (ds ! i) = - 1 then switch_inputs E have_devs ds state is cs
      else switch_inputs E have_devs ds state is (switch_input E state (dev_id (ds ! i)) cs))"

definition common_power_set_interactive :: "hal_env \<Rightarrow> powerhal_info option \<Rightarrow> int \<Rightarrow> power \<Rightarrow>
    (powerhal_info option \<times> power) res" where
  "common_power_set_interactive H info on s =
     (let E = kernel H;
          state = (if 0 = on then ''0'' else ''1'');
          lp_state = (if on \<noteq> 0 then ''1'' else ''0'');
          gov = (if on = 0 then ''intelliactive'' else ''intelliactive'');
          cs = sysfs_write E ''/sys/devices/system/cpu/cpu0/cpufreq/scaling_governor'' gov (hcalls s);
          cs = sysfs_write E ''/sys/devices/system/cpu/cpuquiet/tegra_cpuquiet/no_lp'' lp_state cs
      in
      bind_res (case info of
          None \<Rightarrow> Inr cs
        | Some i \<Rightarrow> switch_inputs E (input_devs i) (static_devs s) state [0..<nat (input_cnt i)] cs) (\<lambda>cs.
      if on \<noteq> 0 then
        let cs = sysfs_write_int E ''/sys/devices/system/cpu/cpufreq/intelliactive/io_is_busy'' 1 cs;
            cs = sysfs_write_int E ''/sys/devices/system/cpu/cpufreq/intelliactive/boostpulse'' 1 cs
        in case info of
             None \<Rightarrow> Inr (None, s\<lparr>hcalls := cs\<rparr>)
           | Some i \<Rightarrow> bind_res (boost DEFAULT_MAX_ONLINE_CPUS (s2ns 5) i) (\<lambda>i. Inr (Some i, s\<lparr>hcalls := cs\<rparr>))
      else Inr (info, s\<lparr>hcalls := cs\<rparr>)))"

section \<open>Hints\<close>

text \<open>
  \<open>check_hint\<close> at the monotonic time \<open>(sec, nsec)\<close>. \<open>tv_sec\<close> is a 32-bit
  \<open>long\<close> here: the product wraps before it is widened to \<open>uint64_t\<close>.
\<close>

definition hint_clock :: "int \<times> int \<Rightarrow> int" where
  "hint_clock ts = u64 (s32 (s32 (fst ts * 1000000) + cdiv (snd ts) 1000))"

definition check_hint :: "powerhal_info \<Rightarrow> nat \<Rightarrow> int \<times> int \<Rightarrow> int option" where
  "check_hint info hint ts =
     (if MAX_POWER_HINT_COUNT \<le> hint then None
      else
        let time = hint_clock ts in
        if hint_time info ! hint \<noteq> 0 \<and> hint_interval info ! hint \<noteq> 0 \<and>
           u64 (time - hint_time info ! hint) < hint_interval info ! hint then None
        else Some time)"

definition common_power_hint ::
  "hal_env \<Rightarrow> powerhal_info option \<Rightarrow> nat \<Rightarrow> bool \<Rightarrow> int \<times> int \<Rightarrow> powerhal_info option res" where
  "common_power_hint H pinfo hint data ts =
     (case pinfo of
        None \<Rightarrow> Inr None
      | Some info \<Rightarrow>
          (case check_hint info hint ts of
             None \<Rightarrow> Inr (Some info)
           | Some t \<Rightarrow>
               bind_res
                 (if hint = POWER_HINT_VSYNC H then
                    if data then boost DEFAULT_MAX_ONLINE_CPUS (ms2ns 100) info else Inr info
                  else if hint = POWER_HINT_INTERACTION H then boost DEFAULT_MIN_ONLINE_CPUS (ms2ns 100) info
                  else if hint = POWER_HINT_LAUNCH H then boost DEFAULT_MAX_ONLINE_CPUS (s2ns 2) info
                  else Inr info)
                 (\<lambda>info. Inr (Some (info\<lparr>hint_time := (hint_time info)[hint := t]\<rparr>)))))"

section \<open>\<open>tegra3_power.cpp\<close>\<close>

definition tegra3_power_init :: "hal_env \<Rightarrow> int \<Rightarrow> power \<Rightarrow> power res" where
  "tegra3_power_init H now s =
     (let info = (case pInfo s of Some i \<Rightarrow> Some i | None \<Rightarrow> if calloc_info_ok H then Some calloc_info else None) in
      case info of
        None \<Rightarrow> Inl NullDeref
      | Some i \<Rightarrow>
          bind_res (common_power_init H now (i\<lparr>input_devs := True, input_cnt := int (length (static_devs s))\<rparr>) s)
            (\<lambda>(i, s). Inr (s\<lparr>pInfo := Some i\<rparr>)))"

definition tegra3_power_set_interactive :: "hal_env \<Rightarrow> int \<Rightarrow> power \<Rightarrow> power res" where
  "tegra3_power_set_interactive H on s =
     bind_res (common_power_set_interactive H (pInfo s) on s) (\<lambda>(i, s). Inr (s\<lparr>pInfo := i\<rparr>))"

definition tegra3_power_hint :: "hal_env \<Rightarrow> nat \<Rightarrow> bool \<Rightarrow> int \<times> int \<Rightarrow> power \<Rightarrow> power res" where
  "tegra3_power_hint H hint data ts s =
     bind_res (common_power_hint H (pInfo s) hint data ts) (\<lambda>i. Inr (s\<lparr>pInfo := i\<rparr>))"

definition DOUBLE_TAP_TO_WAKE_PATH :: string where
  "DOUBLE_TAP_TO_WAKE_PATH = ''/sys/android_touch/doubletap_wake''"

definition tegra3_set_feature :: "hal_env \<Rightarrow> nat \<Rightarrow> int \<Rightarrow> power \<Rightarrow> power" where
  "tegra3_set_feature H feature state s =
     (if feature = POWER_FEATURE_DOUBLE_TAP_TO_WAKE H
      then s\<lparr>hcalls := FUnlock # sysfs_write (kernel H) DOUBLE_TAP_TO_WAKE_PATH
               ((if state \<noteq> 0 then ''1'' else ''0'') @ [CHR 0x0A]) (FLock # hcalls s)\<rparr>
      else s)"

text \<open>The result, whether \<open>*device\<close> was set, and the state.\<close>

definition tegra3_power_open :: "hal_env \<Rightarrow> int \<Rightarrow> string \<Rightarrow> power \<Rightarrow> (int \<times> bool \<times> power) res" where
  "tegra3_power_open H now name s =
     (if name \<noteq> POWER_HARDWARE_MODULE_ID H then Inr (- EINVAL, False, s)
      else if pInfo s = None then
        let s = s\<lparr>pInfo := if calloc_info_ok H then Some calloc_info else None\<rparr> in
        if calloc_dev_ok H then
          (case pInfo s of
             Some i \<Rightarrow> bind_res (common_power_open H now i s) (\<lambda>(i, s). Inr (0, True, s\<lparr>pInfo := Some i\<rparr>))
           | None \<Rightarrow> Inr (- ENOMEM, True, s))
        else Inr (- ENOMEM, False, s)
      else Inr (0, False, s))"

end
