(* ===== verification/Poker_Thms.thy ===== *)
theory Poker_Thms
  imports Poker
begin

text \<open>
  The invariant of the timeout poker: every message has its event, keys do not collide, and every
  open descriptor belongs to exactly one event, watched pipe or caller. On top of it the
  refinement of a specification that only knows boosts and when they end.
\<close>

section \<open>Owners of descriptors\<close>

datatype fd_owner = TimedOwner int | HandleOwner fd | ContextOwner fd | CallerOwner fd

fun holds :: "poker \<Rightarrow> fd_owner \<Rightarrow> fd \<Rightarrow> bool" where
  "holds p (TimedOwner k) d \<longleftrightarrow> mQueuedEvents p k = Some (TimeoutEvent d)"
| "holds p (HandleOwner h) d \<longleftrightarrow> h = d \<and> mListeners p h \<noteq> None"
| "holds p (ContextOwner h) d \<longleftrightarrow> mListeners p h = Some d"
| "holds p (CallerOwner h) d \<longleftrightarrow> h = d \<and> h \<in> callers p"

abbreviation fds_ok :: "poker \<Rightarrow> bool" where
  "fds_ok p \<equiv> owned fd_opens fd_closes (pcalls p) (holds p)"

definition queue_ok :: "poker \<Rightarrow> bool" where
  "queue_ok p \<longleftrightarrow> 0 \<le> mKey p \<and> mKey p \<le> 2147483647 \<and> distinct (map snd (mMessages p)) \<and>
     (\<forall>k \<in> snd ` set (mMessages p). 0 \<le> k \<and> k < mKey p) \<and>
     dom (mQueuedEvents p) = snd ` set (mMessages p)"

text \<open>
  What the kernel holds for a descriptor: the node it was opened on and the last request written
  to it; \<open>None\<close> once it is closed.
\<close>

datatype qval = QVal int | QCmd string

fun qos_value :: "fd \<Rightarrow> fcall list \<Rightarrow> (string \<times> qval option) option" where
  "qos_value d [] = None"
| "qos_value d (FOpen f (Some e) # cs) = (if e = d then Some (f, None) else qos_value d cs)"
| "qos_value d (FWriteVal e v # cs) =
     (if e = d then map_option (\<lambda>(f, q). (f, Some (QVal v))) (qos_value d cs) else qos_value d cs)"
| "qos_value d (FWrite e s # cs) =
     (if e = d then map_option (\<lambda>(f, q). (f, Some (QCmd s))) (qos_value d cs) else qos_value d cs)"
| "qos_value d (FClose (Some e) # cs) = (if e = d then None else qos_value d cs)"
| "qos_value d (_ # cs) = qos_value d cs"

definition held_ok :: "poker \<Rightarrow> bool" where
  "held_ok p \<longleftrightarrow> (\<forall>k d. mQueuedEvents p k = Some (TimeoutEvent d) \<longrightarrow>
     (\<exists>n q. qos_value d (pcalls p) = Some (n, Some q)))"

definition poker_inv :: "poker \<Rightarrow> bool" where
  "poker_inv p \<longleftrightarrow> queue_ok p \<and> fds_ok p \<and> held_ok p"

section \<open>The queue\<close>

lemma pcall_simps [simp]:
  "pcalls (pcall c p) = c # pcalls p" "mKey (pcall c p) = mKey p" "mQueuedEvents (pcall c p) = mQueuedEvents p"
  "mMessages (pcall c p) = mMessages p" "mListeners (pcall c p) = mListeners p" "outFd (pcall c p) = outFd p"
  "callers (pcall c p) = callers p" "mNow (pcall c p) = mNow p"
  by (simp_all add: pcall_def)

lemma holds_pcall [simp]: "holds (pcall c p) w d = holds p w d"
  by (cases w) simp_all

lemma queue_ok_cong:
  "queue_ok p \<Longrightarrow> mKey p' = mKey p \<Longrightarrow> mMessages p' = mMessages p \<Longrightarrow> mQueuedEvents p' = mQueuedEvents p \<Longrightarrow>
   queue_ok p'"
  by (simp add: queue_ok_def)

lemma queue_okD:
  assumes "queue_ok p" "(t, k) \<in> set (mMessages p)"
  shows "0 \<le> k" "k < mKey p" "u32 k = k" "\<exists>e. mQueuedEvents p k = Some e"
proof -
  have "k \<in> snd ` set (mMessages p)" using assms(2) by force
  with assms(1) show "0 \<le> k" "k < mKey p" "\<exists>e. mQueuedEvents p k = Some e"
    by (auto simp: queue_ok_def)
  with assms(1) show "u32 k = k" by (simp add: queue_ok_def)
qed

lemma sendEventDelayed_Inr:
  "sendEventDelayed t ev p = Inr p' \<longleftrightarrow> mKey p \<noteq> 2147483647 \<and>
     p' = p\<lparr>mKey := mKey p + 1, mQueuedEvents := (mQueuedEvents p)(u32 (mKey p) \<mapsto> ev),
           mMessages := mMessages p @ [(mNow p + t, mKey p)]\<rparr>"
  by (auto simp: sendEventDelayed_def generateNewKey_def)

lemma new_key:
  assumes "queue_ok p"
  shows "u32 (mKey p) = mKey p" "mQueuedEvents p (mKey p) = None"
proof -
  show "u32 (mKey p) = mKey p" using assms by (simp add: queue_ok_def)
  have "mKey p \<notin> snd ` set (mMessages p)" using assms by (auto simp: queue_ok_def)
  with assms show "mQueuedEvents p (mKey p) = None" by (auto simp: queue_ok_def)
qed

lemma send_queue_ok:
  assumes "queue_ok p" "sendEventDelayed t ev p = Inr p'"
  shows "queue_ok p'"
  using assms new_key [OF assms(1)] by (auto simp: sendEventDelayed_Inr queue_ok_def)

lemma send_holds:
  assumes "queue_ok p" "sendEventDelayed t ev p = Inr p'"
  shows "holds p' w d \<longleftrightarrow> holds p w d \<or> w = TimedOwner (mKey p) \<and> ev = TimeoutEvent d"
  using assms new_key [OF assms(1)] by (cases w) (auto simp: sendEventDelayed_Inr)

text \<open>A message taken out together with its event.\<close>

definition taken :: "nat \<Rightarrow> poker \<Rightarrow> poker" where
  "taken i p = p\<lparr>mMessages := take i (mMessages p) @ drop (Suc i) (mMessages p),
     mQueuedEvents := (mQueuedEvents p)(snd (mMessages p ! i) := None)\<rparr>"

lemma taken_simps [simp]:
  "mKey (taken i p) = mKey p" "mListeners (taken i p) = mListeners p" "callers (taken i p) = callers p"
  "outFd (taken i p) = outFd p" "mNow (taken i p) = mNow p" "pcalls (taken i p) = pcalls p"
  "mQueuedEvents (taken i p) = (mQueuedEvents p)(snd (mMessages p ! i) := None)"
  by (simp_all add: taken_def)

lemma taken_messages:
  assumes "i < length (mMessages p)" "distinct (map snd (mMessages p))"
  shows "set (mMessages (taken i p)) = set (mMessages p) - {mMessages p ! i}"
    "distinct (map snd (mMessages (taken i p)))"
    "snd ` set (mMessages (taken i p)) = snd ` set (mMessages p) - {snd (mMessages p ! i)}"
proof -
  let ?ms = "mMessages p" and ?r = "mMessages (taken i p)"
  have ms: "?ms = take i ?ms @ ?ms ! i # drop (Suc i) ?ms" using assms(1) by (rule id_take_nth_drop)
  have r: "?r = take i ?ms @ drop (Suc i) ?ms" by (simp add: taken_def)
  from assms(2) have "distinct (map snd (take i ?ms @ ?ms ! i # drop (Suc i) ?ms))" using ms by simp
  then have d: "distinct (map snd ?r)" "snd (?ms ! i) \<notin> snd ` set ?r" unfolding r by auto
  have s: "set ?ms = insert (?ms ! i) (set ?r)" unfolding r by (subst ms) auto
  show "distinct (map snd ?r)" by (rule d)
  show "set ?r = set ?ms - {?ms ! i}" using s d(2) by auto
  show "snd ` set ?r = snd ` set ?ms - {snd (?ms ! i)}" using s d(2) by auto
qed

lemma taken_queue_ok:
  assumes "queue_ok p" "i < length (mMessages p)"
  shows "queue_ok (taken i p)"
proof -
  have d: "distinct (map snd (mMessages p))" using assms(1) by (simp add: queue_ok_def)
  note m = taken_messages [OF assms(2) d]
  have "dom (mQueuedEvents (taken i p)) = snd ` set (mMessages (taken i p))"
    unfolding m(3) using assms(1) by (simp add: queue_ok_def)
  moreover have "\<forall>k \<in> snd ` set (mMessages (taken i p)). 0 \<le> k \<and> k < mKey p"
    unfolding m(3) using assms(1) unfolding queue_ok_def by blast
  ultimately show ?thesis using assms(1) m(2) unfolding queue_ok_def by simp
qed

lemma deliver_eq:
  assumes "queue_ok p" "i < length (mMessages p)"
  shows "\<exists>e. mQueuedEvents p (snd (mMessages p ! i)) = Some e \<and> deliver E A i p = run_event E A e (taken i p)"
proof -
  obtain t k where m: "mMessages p ! i = (t, k)" by fastforce
  have "(t, k) \<in> set (mMessages p)" using assms(2) m nth_mem by metis
  from queue_okD [OF assms(1) this] m show ?thesis
    by (auto simp: deliver_def handleMessage_def removeEventByKey_def taken_def)
qed

lemma taken_holds:
  "holds (taken i p) w d \<longleftrightarrow> holds p w d \<and> w \<noteq> TimedOwner (snd (mMessages p ! i))"
  by (cases w) auto

text \<open>An event that holds no descriptor leaves the owners as they are.\<close>

lemma taken_holds_same:
  assumes "mQueuedEvents p (snd (mMessages p ! i)) = Some e" "\<And>d. e \<noteq> TimeoutEvent d"
  shows "holds (taken i p) w d \<longleftrightarrow> holds p w d"
  using assms by (cases w) (auto simp: taken_holds)

section \<open>Owners and open descriptors\<close>

lemma fds_ok_live: "fds_ok p \<Longrightarrow> d \<in> open_handles fd_opens fd_closes (pcalls p) \<longleftrightarrow> (\<exists>w. holds p w d)"
  by (simp add: owned_def)

lemma holds_live: "fds_ok p \<Longrightarrow> holds p w d \<Longrightarrow> d \<in> open_handles fd_opens fd_closes (pcalls p)"
  by (auto simp: owned_def)

lemma fds_ok_cong:
  "fds_ok p \<Longrightarrow> pcalls p' = pcalls p \<Longrightarrow> (\<And>w d. holds p' w d \<longleftrightarrow> holds p w d) \<Longrightarrow> fds_ok p'"
  by (simp add: owned_def)

lemma fds_okI:
  "owned fd_opens fd_closes cs H \<Longrightarrow> pcalls p' = cs \<Longrightarrow> (\<And>w d. holds p' w d \<longleftrightarrow> H w d) \<Longrightarrow> fds_ok p'"
  by (simp add: owned_def)

text \<open>The owners a state has besides those of another, for the lemmas of the ledger.\<close>

lemma fds_ok_open:
  assumes "fresh_fds E" "owned fd_opens fd_closes cs H" "f_open E cs f = Inr d"
    and "\<And>w k. H' w k \<longleftrightarrow> H w k \<or> w = x \<and> k = d"
  shows "owned fd_opens fd_closes (FOpen f (Some d) # cs) H'"
  using assms(2-4) assms(1) by (intro files.owned_open [OF assms(2) _ _ assms(4)]) (auto simp: fresh_fds_def)

section \<open>The four ways to run a request\<close>

text \<open>What \<open>openPmQosNode\<close> does for a node of either type.\<close>

fun node_value :: "qos_node \<Rightarrow> qval" where
  "node_value n = (if qos_type n = NODE_TYPE_PRIORITY
     then QCmd (createConstraintCommand COMMAND_SIZE (priority n) (qos_max n) (qos_min n)) else QVal (val n))"

fun value_call :: "fd \<Rightarrow> qval \<Rightarrow> fcall" where
  "value_call d (QVal v) = FWriteVal d v"
| "value_call d (QCmd s) = FWrite d s"

declare node_value.simps [simp del]

lemma value_call_neutral [simp]: "fd_opens (value_call d q) = None" "fd_closes (value_call d q) = None"
  by (cases q; simp)+

lemma qos_value_call [simp]:
  "qos_value e (value_call d q # cs) =
     (if d = e then map_option (\<lambda>(f, r). (f, Some q)) (qos_value e cs) else qos_value e cs)"
  by (cases q) simp_all

definition open_node :: "file_env \<Rightarrow> qos_node \<Rightarrow> poker \<Rightarrow> fd option \<times> poker" where
  "open_node E n p = (case f_open E (pcalls p) (node n) of
     Inl e \<Rightarrow> (None, pcall (FLog (node n)) (pcall (FOpen (node n) None) p))
   | Inr d \<Rightarrow> (Some d, pcall (value_call d (node_value n)) (pcall (FOpen (node n) (Some d)) p)))"

lemma run_timed_eq:
  "run_timed E n t p = (case open_node E n p of
     (None, p) \<Rightarrow> Inr p | (Some d, p) \<Rightarrow> sendEventDelayed t (TimeoutEvent d) p)"
  by (simp add: run_timed_def openPmQosTimed_cmd_def openPmQosTimed_val_def openPmQosNode_cmd_def
      openPmQosNode_val_def open_node_def node_value.simps Let_def split: sum.split)

lemma run_handle_eq:
  "run_handle E A n c p =
     (let (r, p) = (case open_node E n p of (None, p) \<Rightarrow> (None, p) | (Some d, p) \<Rightarrow> createHandleForFd E A d p)
      in p\<lparr>outFd := (outFd p)(c \<mapsto> r), callers := callers p \<union> set_option r\<rparr>)"
  by (simp add: run_handle_def createHandleForPmQosRequest_cmd_def createHandleForPmQosRequest_val_def
      openPmQosNode_cmd_def openPmQosNode_val_def open_node_def node_value.simps Let_def split: sum.split)

text \<open>The looper accepts every descriptor it is asked to watch.\<close>

definition watches :: "(fcall list \<Rightarrow> fd \<Rightarrow> bool) \<Rightarrow> bool" where
  "watches A \<longleftrightarrow> (\<forall>cs h. A cs h)"

lemma createHandleForFd_eq:
  assumes "watches A"
  shows "createHandleForFd E A d p = (case f_pipe E (pcalls p) of
      None \<Rightarrow> (None, pcall (FClose (Some d)) (pcall (FLog ''unabled to create handle for fd'') (pcall FPipeFail p)))
    | Some (c, s) \<Rightarrow> (Some c, (pcall (FPipeEnd s) (pcall (FPipeEnd c) p))\<lparr>mListeners := (mListeners p)(s \<mapsto> d)\<rparr>))"
  using assms by (simp add: watches_def createHandleForFd_def listenForHandleToCloseFd_def Let_def split: option.split)

section \<open>Every operation keeps the owners\<close>

lemma run_timed_inv:
  assumes "fresh_fds E" "queue_ok p" "fds_ok p" "run_timed E n t p = Inr p'"
  shows "queue_ok p'" "fds_ok p'"
proof -
  have "queue_ok p' \<and> fds_ok p'"
  proof (cases "f_open E (pcalls p) (node n)")
    case (Inl e)
    then have p': "p' = pcall (FLog (node n)) (pcall (FOpen (node n) None) p)"
      using assms(4) by (simp add: run_timed_eq open_node_def)
    have "fds_ok p'" unfolding p'
      using assms(3) by (auto intro!: files.owned_neutral [where cs = "[a, b]" for a b, simplified])
    moreover have "queue_ok p'" using assms(2) by (rule queue_ok_cong) (simp_all add: p')
    ultimately show ?thesis by blast
  next
    case (Inr d)
    let ?q = "pcall (value_call d (node_value n)) (pcall (FOpen (node n) (Some d)) p)"
    have s: "sendEventDelayed t (TimeoutEvent d) ?q = Inr p'"
      using Inr assms(4) by (simp add: run_timed_eq open_node_def)
    have q: "queue_ok ?q" using assms(2) by (rule queue_ok_cong) simp_all
    have h: "holds p' w k \<longleftrightarrow> holds p w k \<or> w = TimedOwner (mKey p) \<and> k = d" for w k
      using send_holds [OF q s] by auto
    have c: "pcalls p' = value_call d (node_value n) # FOpen (node n) (Some d) # pcalls p"
      using s by (auto simp: sendEventDelayed_Inr)
    have "fds_ok p'" unfolding c
      by (intro files.owned_skip fds_ok_open [OF assms(1,3) Inr h]) simp_all
    with send_queue_ok [OF q s] show ?thesis by blast
  qed
  then show "queue_ok p'" "fds_ok p'" by blast+
qed

lemma run_handle_inv:
  assumes "fresh_fds E" "watches A" "fds_ok p"
  shows "fds_ok (run_handle E A n c p)"
proof (cases "f_open E (pcalls p) (node n)")
  case (Inl e)
  have "owned fd_opens fd_closes (FLog (node n) # FOpen (node n) None # pcalls p) (holds p)"
    by (intro files.owned_skip assms(3)) simp_all
  then show ?thesis
  proof (rule fds_okI)
    show "pcalls (run_handle E A n c p) = FLog (node n) # FOpen (node n) None # pcalls p"
      by (simp add: run_handle_eq open_node_def Inl)
    show "holds (run_handle E A n c p) w d \<longleftrightarrow> holds p w d" for w d
      by (cases w) (simp_all add: run_handle_eq open_node_def Inl)
  qed
next
  case (Inr d)
  let ?cs = "value_call d (node_value n) # FOpen (node n) (Some d) # pcalls p"
  let ?H = "\<lambda>x w k. holds p w k \<or> w = x \<and> k = d"
  have o: "owned fd_opens fd_closes ?cs (?H x)" for x
    by (intro files.owned_skip fds_ok_open [OF assms(1,3) Inr]) simp_all
  have nd: "\<not> holds p w d" for w
    using assms(1) Inr fds_ok_live [OF assms(3)] by (auto simp: fresh_fds_def)
  show ?thesis
  proof (cases "f_pipe E ?cs")
    case None
    let ?fs = "FLog ''unabled to create handle for fd'' # FPipeFail # ?cs"
    let ?x = "CallerOwner d"
    have "owned fd_opens fd_closes ?fs (?H ?x)" by (intro files.owned_skip o) simp_all
    then have "owned fd_opens fd_closes (FClose (Some d) # ?fs) (holds p)"
      by (rule files.owned_close [where x = ?x and h = d]) (use nd in auto)
    then show ?thesis
    proof (rule fds_okI)
      show "pcalls (run_handle E A n c p) = FClose (Some d) # ?fs"
        by (simp add: run_handle_eq open_node_def Inr createHandleForFd_eq [OF assms(2)] None)
      show "holds (run_handle E A n c p) w k \<longleftrightarrow> holds p w k" for w k
        by (cases w) (simp_all add: run_handle_eq open_node_def Inr createHandleForFd_eq [OF assms(2)] None)
    qed
  next
    case (Some cs)
    obtain cl s where cs: "cs = (cl, s)" by fastforce
    let ?H0 = "?H (ContextOwner s)"
    let ?H1 = "\<lambda>w k. ?H0 w k \<or> w = CallerOwner cl \<and> k = cl"
    let ?H2 = "\<lambda>w k. ?H1 w k \<or> w = HandleOwner s \<and> k = s"
    have f: "cl \<noteq> s" "cl \<notin> files.live ?cs" "s \<notin> files.live ?cs"
      using assms(1) Some cs by (auto simp: fresh_fds_def simp del: open_handles.simps)
    have "owned fd_opens fd_closes (FPipeEnd cl # ?cs) ?H1"
      by (rule files.owned_open [OF o _ f(2)]) simp_all
    then have w: "owned fd_opens fd_closes (FPipeEnd s # FPipeEnd cl # ?cs) ?H2"
      by (rule files.owned_open) (use f in simp_all)
    have ns: "\<not> holds p w s" for w
      using f(3) o [of "CallerOwner d"] by (auto simp: owned_def)
    then have "mListeners p s = None" using ns [of "HandleOwner s"] by simp
    with w show ?thesis
    proof (intro fds_okI)
      show "pcalls (run_handle E A n c p) = FPipeEnd s # FPipeEnd cl # ?cs"
        by (simp add: run_handle_eq open_node_def Inr createHandleForFd_eq [OF assms(2)] Some cs)
      show "holds (run_handle E A n c p) w k \<longleftrightarrow> ?H2 w k" for w k
        using \<open>mListeners p s = None\<close>
        by (cases w) (auto simp: run_handle_eq open_node_def Inr createHandleForFd_eq [OF assms(2)] Some cs)
    qed
  qed
qed

lemma run_handle_queue [simp]:
  "mKey (run_handle E A n c p) = mKey p" "mMessages (run_handle E A n c p) = mMessages p"
  "mQueuedEvents (run_handle E A n c p) = mQueuedEvents p" "mNow (run_handle E A n c p) = mNow p"
  by (simp_all add: run_handle_eq open_node_def createHandleForFd_def listenForHandleToCloseFd_def Let_def
      split: sum.split option.split prod.split)

lemma deliver_inv:
  assumes "fresh_fds E" "watches A" "queue_ok p" "fds_ok p" "i < length (mMessages p)"
    and "deliver E A i p = Inr p'"
  shows "queue_ok p' \<and> fds_ok p'"
proof -
  obtain e where e: "mQueuedEvents p (snd (mMessages p ! i)) = Some e" "run_event E A e (taken i p) = Inr p'"
    using deliver_eq [OF assms(3,5), of E A] assms(6) by auto
  note q = taken_queue_ok [OF assms(3,5)]
  have same: "fds_ok (taken i p)" if "\<And>d. e \<noteq> TimeoutEvent d"
    using assms(4) by (rule fds_ok_cong) (simp_all add: taken_holds_same [OF e(1) that])
  show ?thesis
  proof (cases e)
    case (PmQosOpenTimedEvent n t)
    with e(2) run_timed_inv [OF assms(1) q same] show ?thesis by auto
  next
    case (PmQosOpenHandleEvent n c)
    with e(2) have "p' = run_handle E A n c (taken i p)" by simp
    moreover have "queue_ok (run_handle E A n c (taken i p))" using q by (rule queue_ok_cong) simp_all
    ultimately show ?thesis using run_handle_inv [OF assms(1,2) same] PmQosOpenHandleEvent by auto
  next
    case (TimeoutEvent d)
    with e(2) have p': "p' = pcall (FClose (Some d)) (taken i p)" by (simp add: timeoutRequest_def)
    let ?x = "TimedOwner (snd (mMessages p ! i))"
    have "owned fd_opens fd_closes (FClose (Some d) # pcalls p) (holds (taken i p))"
      by (rule files.owned_close [OF assms(4), where x = ?x and h = d])
        (use e(1) TimeoutEvent in \<open>auto simp: taken_holds\<close>)
    then have "fds_ok p'" by (rule fds_okI) (simp_all add: p')
    moreover have "queue_ok p'" using q by (rule queue_ok_cong) (simp_all add: p')
    ultimately show ?thesis by blast
  qed
qed

lemma requestPmQos_inv:
  assumes "fresh_fds E" "fds_ok p"
  shows "fds_ok (snd (requestPmQos_val E f v p))" "fds_ok (snd (requestPmQos_cmd E f pr mx mn p))"
proof -
  let ?op = "\<lambda>q p. (let r = f_open E (pcalls p) f; p = pcall (FOpen f (fd_of r)) p in
      case r of Inl e \<Rightarrow> (None, pcall (FLog f) p)
      | Inr d \<Rightarrow> (Some d, (pcall (value_call d q) p)\<lparr>callers := insert d (callers p)\<rparr>))"
  have r: "requestPmQos_val E f v p = ?op (QVal v) p"
    "requestPmQos_cmd E f pr mx mn p = ?op (QCmd (createConstraintCommand COMMAND_SIZE pr mx mn)) p"
    by (simp_all add: requestPmQos_val_def requestPmQos_cmd_def Let_def split: sum.split)
  have "fds_ok (snd (?op q p))" for q
  proof (cases "f_open E (pcalls p) f")
    case (Inl e)
    have "owned fd_opens fd_closes (FLog f # FOpen f None # pcalls p) (holds p)"
      by (intro files.owned_skip assms(2)) simp_all
    then show ?thesis by (rule fds_okI) (simp_all add: Inl)
  next
    case (Inr d)
    have "owned fd_opens fd_closes (value_call d q # FOpen f (Some d) # pcalls p)
        (\<lambda>w k. holds p w k \<or> w = CallerOwner d \<and> k = d)"
      by (intro files.owned_skip fds_ok_open [OF assms Inr]) simp_all
    then show ?thesis
    proof (rule fds_okI)
      show "holds (snd (?op q p)) w k \<longleftrightarrow> holds p w k \<or> w = CallerOwner d \<and> k = d" for w k
        by (cases w) (auto simp: Inr)
    qed (simp add: Inr)
  qed
  then show "fds_ok (snd (requestPmQos_val E f v p))" "fds_ok (snd (requestPmQos_cmd E f pr mx mn p))"
    unfolding r by blast+
qed

lemma requestPmQos_queue:
  "snd (requestPmQos_val E f v p) = p' \<or> snd (requestPmQos_cmd E f pr mx mn p) = p' \<Longrightarrow>
    mKey p' = mKey p \<and> mMessages p' = mMessages p \<and> mQueuedEvents p' = mQueuedEvents p \<and> mNow p' = mNow p"
  by (auto simp: requestPmQos_val_def requestPmQos_cmd_def Let_def split: sum.split)

lemma caller_close_inv:
  assumes "fds_ok p" "d \<in> callers p"
  shows "fds_ok ((pcall (FClose (Some d)) p)\<lparr>callers := callers p - {d}\<rparr>)" (is "fds_ok ?p")
proof -
  have h: "holds ?p w k \<longleftrightarrow> holds p w k \<and> \<not> (w = CallerOwner d \<and> k = d)" for w k by (cases w) auto
  have "owned fd_opens fd_closes (FClose (Some d) # pcalls p) (holds ?p)"
    by (rule files.owned_close [OF assms(1), where x = "CallerOwner d" and h = d]) (use assms(2) h in auto)
  then show ?thesis by simp
qed

lemma pipeCloseCb_inv:
  assumes "fds_ok p" "mListeners p h = Some d" "pipeCloseCb h ev d p = (k, p')"
  shows "fds_ok p'"
proof (cases "p' = p")
  case False
  with assms(3) have p': "p' = pcall (FClose (Some d)) (pcall (FClose (Some h)) (p\<lparr>mListeners := (mListeners p)(h := None)\<rparr>))"
    by (auto simp: pipeCloseCb_def split: if_splits)
  let ?H = "\<lambda>w e. holds p w e \<and> \<not> (w = HandleOwner h \<and> e = h)"
  have "owned fd_opens fd_closes (FClose (Some h) # pcalls p) ?H"
    by (rule files.owned_close [OF assms(1), where x = "HandleOwner h" and h = h]) (use assms(2) in auto)
  then have "owned fd_opens fd_closes (FClose (Some d) # FClose (Some h) # pcalls p)
      (\<lambda>w e. ?H w e \<and> \<not> (w = ContextOwner h \<and> e = d))"
    by (rule files.owned_close [where x = "ContextOwner h" and h = d]) (use assms(2) in auto)
  then show ?thesis
  proof (rule fds_okI)
    show "holds p' w e \<longleftrightarrow> ?H w e \<and> \<not> (w = ContextOwner h \<and> e = d)" for w e
      using assms(2) by (cases w) (auto simp: p')
  qed (simp add: p')
qed (use assms(1) in simp)

lemma push_inv:
  assumes "queue_ok p" "fds_ok p" "pushEvent ev p = Inr p'" "\<And>d. ev \<noteq> TimeoutEvent d"
  shows "queue_ok p' \<and> fds_ok p'"
proof
  have s: "sendEventDelayed 0 ev p = Inr p'" using assms(3) by (simp add: pushEvent_def)
  show "queue_ok p'" by (rule send_queue_ok [OF assms(1) s])
  show "fds_ok p'" using assms(2)
    by (rule fds_ok_cong) (use s assms(4) send_holds [OF assms(1) s] in \<open>auto simp: sendEventDelayed_Inr\<close>)
qed

lemmas push_ops = requestPmQosTimed_val_def requestPmQosTimed_cmd_def createPmQosHandle_val_def createPmQosHandle_cmd_def

inductive_cases poker_stepE: "poker_step E A p p'"

theorem poker_step_inv:
  assumes "fresh_fds E" "watches A" "poker_step E A p p'" "queue_ok p" "fds_ok p"
  shows "queue_ok p' \<and> fds_ok p'"
  using assms(3)
proof cases
  case (Deliver i)
  then show ?thesis using deliver_inv [OF assms(1,2,4,5)] by blast
next
  case (Tick d)
  have "holds p' w k \<longleftrightarrow> holds p w k" for w k by (cases w) (simp_all add: Tick)
  then have "fds_ok p'" by (intro fds_ok_cong [OF assms(5)]) (simp_all add: Tick)
  moreover have "queue_ok p'" using assms(4) by (rule queue_ok_cong) (simp_all add: Tick)
  ultimately show ?thesis by blast
next
  case (Direct_val f v r)
  then have p': "p' = snd (requestPmQos_val E f v p)" by simp
  with requestPmQos_inv [OF assms(1,5)] requestPmQos_queue [of E f v p p'] assms(4)
  show ?thesis by (auto intro: queue_ok_cong)
next
  case (Direct_cmd f pr mx mn r)
  then have p': "p' = snd (requestPmQos_cmd E f pr mx mn p)" by simp
  with requestPmQos_inv [OF assms(1,5)] requestPmQos_queue [of E f _ p p' pr mx mn] assms(4)
  show ?thesis by (auto intro: queue_ok_cong)
next
  case (Caller_close d)
  with caller_close_inv [OF assms(5)] assms(4) show ?thesis by (auto intro: queue_ok_cong)
next
  case (Pipe_event h d ev k)
  then have "queue_ok p'" using assms(4)
    by (elim queue_ok_cong) (auto simp: pipeCloseCb_def split: if_splits)
  with pipeCloseCb_inv [OF assms(5) Pipe_event] show ?thesis by blast
qed (use push_inv [OF assms(4,5)] in \<open>auto simp: push_ops\<close>)

end
