(* ===== verification/Simulation.thy ===== *)
theory Simulation
  imports Main
begin

text \<open>
  Forward simulation: a step relation with an invariant, an abstraction and a
  specification whose steps the abstracted steps are.
\<close>

locale simulation =
  fixes step :: "'s \<Rightarrow> 's \<Rightarrow> bool"
    and inv :: "'s \<Rightarrow> bool"
    and abs :: "'s \<Rightarrow> 'a"
    and spec :: "'a \<Rightarrow> 'a \<Rightarrow> bool"
  assumes inv_step: "step s s' \<Longrightarrow> inv s \<Longrightarrow> inv s'"
    and sim_step: "step s s' \<Longrightarrow> inv s \<Longrightarrow> spec (abs s) (abs s')"
begin

lemma steps_inv:
  assumes "step\<^sup>*\<^sup>* s s'" "inv s"
  shows "inv s'"
  using assms by (induction rule: rtranclp_induct) (auto intro: inv_step)

lemma steps_spec:
  assumes "step\<^sup>*\<^sup>* s s'" "inv s"
  shows "spec\<^sup>*\<^sup>* (abs s) (abs s')"
  using assms(1)
proof (induction rule: rtranclp_induct)
  case base
  then show ?case by simp
next
  case (step t u)
  with steps_inv [OF step(1) assms(2)] show ?case by (meson rtranclp.rtrancl_into_rtrancl sim_step)
qed

text \<open>What every run of the specification keeps, every run of the steps keeps of the abstraction.\<close>

lemma steps_transfer:
  assumes "\<And>a b. spec\<^sup>*\<^sup>* a b \<Longrightarrow> P a \<Longrightarrow> P b" "step\<^sup>*\<^sup>* s s'" "inv s" "P (abs s)"
  shows "P (abs s')"
  using assms steps_spec by blast

end

end
