(* ===== verification/Poker_Refine.thy ===== *)
theory Poker_Refine
  imports Poker_Thms Simulation
begin

text \<open>
  The promise of the timeout poker: what is asked for is noted, the boost starts when the request is
  handled, with the node, the value and the time asked for, and ends when that time has passed. The
  specification knows the requests that are noted, the boosts that run, each with its end, and a
  clock; the implementation's queue, looper and descriptors refine it.
\<close>

section \<open>The specification\<close>

text \<open>A request has a key, its node, the value and the time asked for; a boost a descriptor and its end.\<close>

type_synonym request = "int \<times> string \<times> qval \<times> int"
type_synonym boost = "fd \<times> string \<times> qval \<times> int"
type_synonym promise = "request set \<times> boost set \<times> int"

text \<open>
  A boost begins only for a noted request, with a descriptor no other boost uses; its end is the
  time asked for from the moment it begins. A request is dropped only if its node is one of
  \<open>F\<close>, those that cannot always be opened. A boost may end only when its time has come.
\<close>

inductive boost_step :: "string set \<Rightarrow> promise \<Rightarrow> promise \<Rightarrow> bool" for F where
  Wait: "now \<le> now' \<Longrightarrow> boost_step F (R, B, now) (R, B, now')"
| Request: "(\<And>f v t. (k, f, v, t) \<notin> R) \<Longrightarrow> boost_step F (R, B, now) (insert (k, f, v, t) R, B, now)"
| Begin: "(k, f, v, t) \<in> R \<Longrightarrow> (\<And>n q u. (d, n, q, u) \<notin> B) \<Longrightarrow>
    boost_step F (R, B, now) (R - {(k, f, v, t)}, insert (d, f, v, now + t) B, now)"
| Drop: "(k, f, v, t) \<in> R \<Longrightarrow> f \<in> F \<Longrightarrow> boost_step F (R, B, now) (R - {(k, f, v, t)}, B, now)"
| Finish: "(d, f, v, t) \<in> B \<Longrightarrow> t \<le> now \<Longrightarrow> boost_step F (R, B, now) (R, B - {(d, f, v, t)}, now)"

inductive_cases boost_stepE: "boost_step F (R, B, now) (R', B', now')"

text \<open>A boost lasts: no step removes it before its time.\<close>

lemma boost_lasts:
  assumes "boost_step F (R, B, now) (R', B', now')" "(d, f, v, t) \<in> B" "now < t"
  shows "(d, f, v, t) \<in> B'"
  using assms by (auto elim: boost_stepE)

section \<open>The abstraction\<close>

definition boosts :: "poker \<Rightarrow> boost set" where
  "boosts p = {(d, f, v, t). \<exists>k. mQueuedEvents p k = Some (TimeoutEvent d) \<and> (t, k) \<in> set (mMessages p) \<and>
     qos_value d (pcalls p) = Some (f, Some v)}"

definition requests :: "poker \<Rightarrow> request set" where
  "requests p = {(k, f, v, t). \<exists>n. mQueuedEvents p k = Some (PmQosOpenTimedEvent n t) \<and> f = node n \<and> v = node_value n}"

definition abs_poker :: "poker \<Rightarrow> promise" where
  "abs_poker p = (requests p, boosts p, mNow p)"

text \<open>The nodes the kernel may refuse to open.\<close>

definition refusable :: "file_env \<Rightarrow> string set" where
  "refusable E = {f. \<exists>cs e. f_open E cs f = Inl e}"

lemma in_requests:
  "(k, f, v, t) \<in> requests p \<longleftrightarrow>
     (\<exists>n. mQueuedEvents p k = Some (PmQosOpenTimedEvent n t) \<and> f = node n \<and> v = node_value n)"
  by (simp add: requests_def)

lemma requests_same:
  assumes "\<And>k n t. mQueuedEvents p' k = Some (PmQosOpenTimedEvent n t) \<longleftrightarrow> mQueuedEvents p k = Some (PmQosOpenTimedEvent n t)"
  shows "requests p' = requests p"
  by (simp add: requests_def assms)

text \<open>What sending a message and taking one out do to the requests.\<close>

lemma send_requests:
  assumes "queue_ok p" "sendEventDelayed u ev p = Inr p'"
  shows "(k, f, v, t) \<in> requests p' \<longleftrightarrow> (k, f, v, t) \<in> requests p \<or>
      k = mKey p \<and> (\<exists>n. ev = PmQosOpenTimedEvent n t \<and> f = node n \<and> v = node_value n)"
    "(mKey p, f, v, t) \<notin> requests p"
proof -
  note k = new_key [OF assms(1)]
  have "mQueuedEvents p' = (mQueuedEvents p)(mKey p \<mapsto> ev)" using assms(2) k by (simp add: sendEventDelayed_Inr)
  with k(2) show "(k, f, v, t) \<in> requests p' \<longleftrightarrow> (k, f, v, t) \<in> requests p \<or>
      k = mKey p \<and> (\<exists>n. ev = PmQosOpenTimedEvent n t \<and> f = node n \<and> v = node_value n)"
    by (cases "k = mKey p") (simp_all add: in_requests)
  show "(mKey p, f, v, t) \<notin> requests p" using k(2) by (simp add: in_requests)
qed

lemma taken_requests:
  assumes "mQueuedEvents p (snd (mMessages p ! i)) = Some e"
  shows "(k, f, v, t) \<in> requests (taken i p) \<longleftrightarrow> (k, f, v, t) \<in> requests p \<and>
    \<not> (k = snd (mMessages p ! i) \<and> (\<exists>n. e = PmQosOpenTimedEvent n t \<and> f = node n \<and> v = node_value n))"
  using assms by (cases "k = snd (mMessages p ! i)") (auto simp: in_requests)

fun touches :: "fd \<Rightarrow> fcall \<Rightarrow> bool" where
  "touches d (FOpen f (Some e)) \<longleftrightarrow> d = e"
| "touches d (FWriteVal e v) \<longleftrightarrow> d = e"
| "touches d (FWrite e v) \<longleftrightarrow> d = e"
| "touches d (FClose (Some e)) \<longleftrightarrow> d = e"
| "touches d _ \<longleftrightarrow> False"

lemma qos_value_skip: "\<not> touches d c \<Longrightarrow> qos_value d (c # cs) = qos_value d cs"
proof (cases c)
  case (FOpen f r)
  then show "\<not> touches d c \<Longrightarrow> qos_value d (c # cs) = qos_value d cs" by (cases r) auto
next
  case (FClose r)
  then show "\<not> touches d c \<Longrightarrow> qos_value d (c # cs) = qos_value d cs" by (cases r) auto
qed auto

lemma qos_value_frame: "(\<And>c. c \<in> set new \<Longrightarrow> \<not> touches d c) \<Longrightarrow> qos_value d (new @ cs) = qos_value d cs"
  by (induction new) (auto simp: qos_value_skip)

lemma touches_value_call [simp]: "touches d (value_call e q) \<longleftrightarrow> d = e"
  by (cases q) simp_all

text \<open>The calls of a step that leave the descriptors of the timed requests alone.\<close>

definition spares_timed :: "poker \<Rightarrow> poker \<Rightarrow> bool" where
  "spares_timed p p' \<longleftrightarrow> (\<exists>new. pcalls p' = new @ pcalls p \<and>
     (\<forall>k d c. mQueuedEvents p k = Some (TimeoutEvent d) \<longrightarrow> c \<in> set new \<longrightarrow> \<not> touches d c))"

lemma spares_timedD:
  "spares_timed p p' \<Longrightarrow> mQueuedEvents p k = Some (TimeoutEvent d) \<Longrightarrow> qos_value d (pcalls p') = qos_value d (pcalls p)"
  by (auto simp: spares_timed_def intro!: qos_value_frame)

lemma boosts_same:
  assumes "\<And>k d. mQueuedEvents p' k = Some (TimeoutEvent d) \<longleftrightarrow> mQueuedEvents p k = Some (TimeoutEvent d)"
    and "\<And>k d t. mQueuedEvents p k = Some (TimeoutEvent d) \<Longrightarrow> (t, k) \<in> set (mMessages p') \<longleftrightarrow> (t, k) \<in> set (mMessages p)"
    and "spares_timed p p'"
  shows "boosts p' = boosts p"
proof -
  have "(\<exists>k. mQueuedEvents p' k = Some (TimeoutEvent d) \<and> (t, k) \<in> set (mMessages p') \<and>
      qos_value d (pcalls p') = Some (f, Some v)) \<longleftrightarrow>
    (\<exists>k. mQueuedEvents p k = Some (TimeoutEvent d) \<and> (t, k) \<in> set (mMessages p) \<and>
      qos_value d (pcalls p) = Some (f, Some v))" for d f v t
    unfolding assms(1) using assms(2) spares_timedD [OF assms(3)] by (intro iff_exI) auto
  then show ?thesis by (simp add: boosts_def)
qed

lemma held_ok_same:
  assumes "\<And>k d. mQueuedEvents p' k = Some (TimeoutEvent d) \<Longrightarrow> mQueuedEvents p k = Some (TimeoutEvent d)"
    and "spares_timed p p'" "held_ok p"
  shows "held_ok p'"
  unfolding held_ok_def using assms(1,3) spares_timedD [OF assms(2)] by (metis held_ok_def)

lemma timed_live:
  "fds_ok p \<Longrightarrow> mQueuedEvents p k = Some (TimeoutEvent d) \<Longrightarrow> d \<in> open_handles fd_opens fd_closes (pcalls p)"
  using holds_live [of p "TimedOwner k" d] by simp

lemma timed_not_fresh:
  "fresh_fds E \<Longrightarrow> fds_ok p \<Longrightarrow> mQueuedEvents p k = Some (TimeoutEvent d) \<Longrightarrow> f_open E (pcalls p) f \<noteq> Inr d"
  using timed_live [of p k d] by (auto simp: fresh_fds_def)

lemma timed_not_other:
  assumes "fds_ok p" "mQueuedEvents p k = Some (TimeoutEvent d)" "holds p w e" "w \<noteq> TimedOwner k"
  shows "e \<noteq> d"
proof
  assume "e = d"
  with assms(2,3) have "holds p (TimedOwner k) e" by simp
  with assms(1,3,4) show False unfolding owned_def by blast
qed

section \<open>Steps that touch no boost\<close>

lemma taken_spares: "spares_timed p p' \<Longrightarrow> spares_timed (taken i p) p'"
  by (auto simp: spares_timed_def split: if_splits)

lemma run_handle_spares:
  assumes "fresh_fds E" "watches A" "fds_ok p"
  shows "spares_timed p (run_handle E A n c p)"
proof (cases "f_open E (pcalls p) (node n)")
  case (Inl e)
  then show ?thesis unfolding spares_timed_def
    by (intro exI [of _ "[FLog (node n), FOpen (node n) None]"])
      (simp add: run_handle_eq open_node_def)
next
  case (Inr d)
  let ?o = "[value_call d (node_value n), FOpen (node n) (Some d)]"
  have d: "mQueuedEvents p k \<noteq> Some (TimeoutEvent d)" for k
    using timed_not_fresh [OF assms(1,3)] Inr by blast
  note eq = run_handle_eq open_node_def Inr createHandleForFd_eq [OF assms(2)]
  show ?thesis unfolding spares_timed_def
  proof (cases "f_pipe E (?o @ pcalls p)")
    case None
    with d show "\<exists>new. pcalls (run_handle E A n c p) = new @ pcalls p \<and>
        (\<forall>k d c. mQueuedEvents p k = Some (TimeoutEvent d) \<longrightarrow> c \<in> set new \<longrightarrow> \<not> touches d c)"
      by (intro exI [of _ "FClose (Some d) # FLog ''unabled to create handle for fd'' # FPipeFail # ?o"])
        (auto simp: eq)
  next
    case (Some x)
    with d show "\<exists>new. pcalls (run_handle E A n c p) = new @ pcalls p \<and>
        (\<forall>k d c. mQueuedEvents p k = Some (TimeoutEvent d) \<longrightarrow> c \<in> set new \<longrightarrow> \<not> touches d c)"
      by (intro exI [of _ "FPipeEnd (snd x) # FPipeEnd (fst x) # ?o"])
        (auto simp: eq split: prod.split)
  qed
qed

lemma requestPmQos_spares:
  assumes "fresh_fds E" "fds_ok p"
  shows "spares_timed p (snd (requestPmQos_val E f v p))" "spares_timed p (snd (requestPmQos_cmd E f pr mx mn p))"
proof -
  have d: "mQueuedEvents p k = Some (TimeoutEvent e) \<Longrightarrow> f_open E (pcalls p) f \<noteq> Inr e" for k e
    using timed_not_fresh [OF assms] by blast
  show "spares_timed p (snd (requestPmQos_val E f v p))"
  proof (cases "f_open E (pcalls p) f")
    case (Inl e)
    then show ?thesis by (simp add: spares_timed_def requestPmQos_val_def)
  next
    case (Inr e)
    with d show ?thesis by (auto simp: spares_timed_def requestPmQos_val_def)
  qed
  show "spares_timed p (snd (requestPmQos_cmd E f pr mx mn p))"
  proof (cases "f_open E (pcalls p) f")
    case (Inl e)
    then show ?thesis by (simp add: spares_timed_def requestPmQos_cmd_def)
  next
    case (Inr e)
    with d show ?thesis by (auto simp: spares_timed_def requestPmQos_cmd_def)
  qed
qed

lemma push_boosts:
  assumes "queue_ok p" "pushEvent ev p = Inr p'" "\<And>d. ev \<noteq> TimeoutEvent d"
  shows "boosts p' = boosts p \<and> mNow p' = mNow p \<and> (held_ok p \<longrightarrow> held_ok p')"
proof -
  have s: "sendEventDelayed 0 ev p = Inr p'" using assms(2) by (simp add: pushEvent_def)
  note k = new_key [OF assms(1)]
  have sp: "spares_timed p p'" using s by (simp add: spares_timed_def sendEventDelayed_Inr)
  have q: "mQueuedEvents p' j = Some (TimeoutEvent d) \<longleftrightarrow> mQueuedEvents p j = Some (TimeoutEvent d)" for j d
    using s k assms(3) by (auto simp: sendEventDelayed_Inr)
  have "boosts p' = boosts p"
    by (rule boosts_same [OF q _ sp]) (use s k in \<open>auto simp: sendEventDelayed_Inr\<close>)
  moreover have "mNow p' = mNow p" using s by (simp add: sendEventDelayed_Inr)
  ultimately show ?thesis using held_ok_same [OF _ sp] q by blast
qed

section \<open>Delivering a message\<close>

lemma boostsI:
  "mQueuedEvents p k = Some (TimeoutEvent d) \<Longrightarrow> (t, k) \<in> set (mMessages p) \<Longrightarrow>
   qos_value d (pcalls p) = Some (f, Some v) \<Longrightarrow> (d, f, v, t) \<in> boosts p"
  by (auto simp: boosts_def)

lemma in_boosts:
  "(d, f, v, t) \<in> boosts p \<longleftrightarrow> qos_value d (pcalls p) = Some (f, Some v) \<and>
     (\<exists>k. mQueuedEvents p k = Some (TimeoutEvent d) \<and> (t, k) \<in> set (mMessages p))"
  by (auto simp: boosts_def)

text \<open>Delivering a message of another kind keeps the timed events.\<close>

lemma taken_timed:
  assumes "queue_ok p" "i < length (mMessages p)" "mQueuedEvents p (snd (mMessages p ! i)) = Some e"
    "\<And>d. e \<noteq> TimeoutEvent d"
  shows "mQueuedEvents (taken i p) k = Some (TimeoutEvent d) \<longleftrightarrow> mQueuedEvents p k = Some (TimeoutEvent d)"
    "mQueuedEvents p k = Some (TimeoutEvent d) \<Longrightarrow> (t, k) \<in> set (mMessages (taken i p)) \<longleftrightarrow> (t, k) \<in> set (mMessages p)"
proof -
  have "distinct (map snd (mMessages p))" using assms(1) by (simp add: queue_ok_def)
  note m = taken_messages(1) [OF assms(2) this]
  show "mQueuedEvents (taken i p) k = Some (TimeoutEvent d) \<longleftrightarrow> mQueuedEvents p k = Some (TimeoutEvent d)"
    using assms(3) assms(4) [of d] by auto
  assume "mQueuedEvents p k = Some (TimeoutEvent d)"
  with assms(3) assms(4) [of d] have "snd (mMessages p ! i) \<noteq> k" by auto
  then show "(t, k) \<in> set (mMessages (taken i p)) \<longleftrightarrow> (t, k) \<in> set (mMessages p)"
    unfolding m by (metis Diff_iff singletonD snd_conv)
qed

lemma taken_boosts:
  assumes "queue_ok p" "i < length (mMessages p)" "mQueuedEvents p (snd (mMessages p ! i)) = Some e"
    "\<And>d. e \<noteq> TimeoutEvent d"
  shows "boosts (taken i p) = boosts p" "held_ok p \<Longrightarrow> held_ok (taken i p)"
proof -
  have sp: "spares_timed p (taken i p)" by (simp add: spares_timed_def)
  show "boosts (taken i p) = boosts p"
    by (rule boosts_same [OF taken_timed(1) [OF assms] taken_timed(2) [OF assms] sp])
  show "held_ok p \<Longrightarrow> held_ok (taken i p)"
    by (rule held_ok_same [OF _ sp]) (simp only: taken_timed(1) [OF assms])
qed

lemma run_handle_boosts:
  assumes "fresh_fds E" "watches A" "fds_ok p"
  shows "boosts (run_handle E A n c p) = boosts p" "held_ok p \<Longrightarrow> held_ok (run_handle E A n c p)"
proof -
  note sp = run_handle_spares [OF assms, of n c]
  show "boosts (run_handle E A n c p) = boosts p" by (rule boosts_same [OF _ _ sp]) simp_all
  show "held_ok p \<Longrightarrow> held_ok (run_handle E A n c p)" by (rule held_ok_same [OF _ sp]) simp_all
qed

text \<open>A timed request that is handled: the node is opened and a boost begins, or nothing happens.\<close>

lemma run_timed_opened:
  assumes "fresh_fds E" "queue_ok p" "fds_ok p" "run_timed E n t p = Inr p'"
    "f_open E (pcalls p) (node n) = Inr d"
  shows "boosts p' = insert (d, node n, node_value n, mNow p + t) (boosts p)" "held_ok p \<Longrightarrow> held_ok p'"
    "mNow p' = mNow p" "(d, f, v, u) \<notin> boosts p" "requests p' = requests p"
proof -
  let ?q = "pcall (value_call d (node_value n)) (pcall (FOpen (node n) (Some d)) p)"
  have s: "sendEventDelayed t (TimeoutEvent d) ?q = Inr p'"
    using assms(4,5) by (simp add: run_timed_eq open_node_def)
  note k = new_key [OF assms(2)]
  have d: "mQueuedEvents p k \<noteq> Some (TimeoutEvent d)" for k
    using timed_not_fresh [OF assms(1,3)] assms(5) by blast
  have p': "mQueuedEvents p' = (mQueuedEvents p)(mKey p \<mapsto> TimeoutEvent d)"
      "mMessages p' = mMessages p @ [(mNow p + t, mKey p)]" "mNow p' = mNow p"
      "pcalls p' = value_call d (node_value n) # FOpen (node n) (Some d) # pcalls p"
    using s k by (auto simp: sendEventDelayed_Inr)
  have km: "(u, mKey p) \<notin> set (mMessages p)" for u
    using queue_okD(4) [OF assms(2)] k(2) by (metis option.distinct(1))
  have v: "qos_value e (pcalls p') = (if e = d then Some (node n, Some (node_value n)) else qos_value e (pcalls p))" for e
    by (simp add: p'(4))
  have "(e, f, v, u) \<in> boosts p' \<longleftrightarrow>
      (e, f, v, u) = (d, node n, node_value n, mNow p + t) \<or> (e, f, v, u) \<in> boosts p" for e f v u
  proof (cases "e = d")
    case True
    with d km show ?thesis unfolding boosts_def by (auto simp: v p'(1,2))
  next
    case False
    have "mQueuedEvents p' j = Some (TimeoutEvent e) \<and> (u, j) \<in> set (mMessages p') \<longleftrightarrow>
        mQueuedEvents p j = Some (TimeoutEvent e) \<and> (u, j) \<in> set (mMessages p)" for j
      using False km k(2) by (auto simp: p'(1,2))
    with False show ?thesis by (simp add: in_boosts v)
  qed
  then show "boosts p' = insert (d, node n, node_value n, mNow p + t) (boosts p)"
    by (intro set_eqI) (simp only: split_paired_all insert_iff)
  show "mNow p' = mNow p" by (rule p'(3))
  show "held_ok p \<Longrightarrow> held_ok p'"
    unfolding held_ok_def using v p'(1) by (auto split: if_splits)
  show "(d, f, v, u) \<notin> boosts p" using d by (auto simp: boosts_def)
  show "requests p' = requests p" by (rule requests_same) (use k(2) in \<open>auto simp: p'(1)\<close>)
qed

lemma run_timed_failed:
  assumes "run_timed E n t p = Inr p'" "f_open E (pcalls p) (node n) = Inl e"
  shows "boosts p' = boosts p" "held_ok p \<Longrightarrow> held_ok p'" "mNow p' = mNow p" "requests p' = requests p"
proof -
  have p': "p' = pcall (FLog (node n)) (pcall (FOpen (node n) None) p)"
    using assms by (simp add: run_timed_eq open_node_def)
  then have sp: "spares_timed p p'"
    by (auto simp: spares_timed_def intro!: exI [of _ "[FLog (node n), FOpen (node n) None]"])
  show "boosts p' = boosts p" by (rule boosts_same [OF _ _ sp]) (simp_all add: p')
  show "held_ok p \<Longrightarrow> held_ok p'" by (rule held_ok_same [OF _ sp]) (simp_all add: p')
qed (use assms in \<open>auto simp: run_timed_eq open_node_def requests_def\<close>)

text \<open>A time-out ends exactly its own boost.\<close>

lemma timeout_boosts:
  assumes "queue_ok p" "fds_ok p" "held_ok p" "i < length (mMessages p)"
    "mQueuedEvents p (snd (mMessages p ! i)) = Some (TimeoutEvent d)"
    "p' = timeoutRequest d (taken i p)"
  shows "\<exists>f v. (d, f, v, fst (mMessages p ! i)) \<in> boosts p \<and> boosts p' = boosts p - {(d, f, v, fst (mMessages p ! i))}"
    "held_ok p'"
proof -
  obtain t k where m: "mMessages p ! i = (t, k)" by fastforce
  have mem: "(t, k) \<in> set (mMessages p)" using assms(4) m nth_mem by metis
  have e: "mQueuedEvents p k = Some (TimeoutEvent d)" using assms(5) m by simp
  obtain f v where v: "qos_value d (pcalls p) = Some (f, Some v)"
    using assms(3) e unfolding held_ok_def by blast
  have "distinct (map snd (mMessages p))" using assms(1) by (simp add: queue_ok_def)
  note ms = taken_messages [OF assms(4) this, unfolded m]
  have only: "j = k" if "mQueuedEvents p j = Some (TimeoutEvent d)" for j
    using timed_not_other [OF assms(2) e, of "TimedOwner j" d] that by auto
  have p': "mQueuedEvents p' = (mQueuedEvents p)(k := None)" "set (mMessages p') = set (mMessages p) - {(t, k)}"
      "pcalls p' = FClose (Some d) # pcalls p"
    using assms(6) m ms by (auto simp: timeoutRequest_def)
  have other: "j \<noteq> k \<and> mQueuedEvents p j = Some (TimeoutEvent c) \<Longrightarrow> c \<noteq> d" for j c
    using only by blast
  have u: "(u, k) \<in> set (mMessages p) \<Longrightarrow> u = t" for u
    using \<open>distinct (map snd (mMessages p))\<close> mem by (metis eq_key_imp_eq_value distinct_map prod.inject inj_onD snd_conv)
  have "(c, g, w, u) \<in> boosts p' \<longleftrightarrow> (c, g, w, u) \<in> boosts p \<and> (c, g, w, u) \<noteq> (d, f, v, t)" for c g w u
  proof (cases "c = d")
    case True
    have "(d, g, w, u) \<notin> boosts p'" by (auto simp: boosts_def p')
    moreover have "(d, g, w, u) \<in> boosts p \<Longrightarrow> (d, g, w, u) = (d, f, v, t)"
      using only u v by (auto simp: boosts_def)
    ultimately show ?thesis using True by blast
  next
    case False
    have "mQueuedEvents p' j = Some (TimeoutEvent c) \<and> (u, j) \<in> set (mMessages p') \<longleftrightarrow>
        mQueuedEvents p j = Some (TimeoutEvent c) \<and> (u, j) \<in> set (mMessages p)" for j
      using False e by (auto simp: p'(1,2))
    with False show ?thesis by (simp add: in_boosts p'(3))
  qed
  then have "boosts p' = boosts p - {(d, f, v, t)}"
    by (intro set_eqI) (simp only: split_paired_all Diff_iff singleton_iff)
  with boostsI [OF e mem v] m
  show "\<exists>f v. (d, f, v, fst (mMessages p ! i)) \<in> boosts p \<and> boosts p' = boosts p - {(d, f, v, fst (mMessages p ! i))}"
    by auto
  show "held_ok p'" using assms(3) other unfolding held_ok_def by (auto simp: p')
qed

section \<open>The refinement\<close>

lemma deliver_refines:
  assumes "fresh_fds E" "watches A" "poker_inv p" "i < length (mMessages p)" "fst (mMessages p ! i) \<le> mNow p"
    and "deliver E A i p = Inr p'"
  shows "boost_step (refusable E) (abs_poker p) (abs_poker p') \<and> held_ok p'"
proof -
  have inv: "queue_ok p" "fds_ok p" "held_ok p" using assms(3) by (simp_all add: poker_inv_def)
  obtain e where e: "mQueuedEvents p (snd (mMessages p ! i)) = Some e" "run_event E A e (taken i p) = Inr p'"
    using deliver_eq [OF inv(1) assms(4), of E A] assms(6) by auto
  note q = taken_queue_ok [OF inv(1) assms(4)]
  have same: "boosts (taken i p) = boosts p" "held_ok (taken i p)" "fds_ok (taken i p)" if "\<And>d. e \<noteq> TimeoutEvent d"
    using taken_boosts [OF inv(1) assms(4) e(1) that] inv(3)
      fds_ok_cong [OF inv(2) _ taken_holds_same [OF e(1) that]] by auto
  let ?k = "snd (mMessages p ! i)"
  note rq = taken_requests [OF e(1)]
  show ?thesis
  proof (cases e)
    case (PmQosOpenTimedEvent n t)
    then have r: "run_timed E n t (taken i p) = Inr p'" using e(2) by simp
    have s: "boosts (taken i p) = boosts p" "held_ok (taken i p)" "fds_ok (taken i p)"
      by (rule same; simp add: PmQosOpenTimedEvent)+
    have m: "(?k, node n, node_value n, t) \<in> requests p"
      using e(1) PmQosOpenTimedEvent by (auto simp: in_requests)
    have rt: "requests (taken i p) = requests p - {(?k, node n, node_value n, t)}"
      by (intro set_eqI) (simp only: split_paired_all rq Diff_iff singleton_iff prod.inject, use PmQosOpenTimedEvent in auto)
    show ?thesis
    proof (cases "f_open E (pcalls (taken i p)) (node n)")
      case (Inl x)
      then have "node n \<in> refusable E" by (auto simp: refusable_def)
      from boost_step.Drop [OF m this] run_timed_failed [OF r Inl] s rt show ?thesis by (simp add: abs_poker_def)
    next
      case (Inr d)
      note o = run_timed_opened [OF assms(1) q s(3) r Inr]
      have "boost_step F (requests p, boosts p, mNow p)
          (requests p - {(?k, node n, node_value n, t)}, insert (d, node n, node_value n, mNow p + t) (boosts p), mNow p)" for F
        by (rule boost_step.Begin [OF m]) (use o(4) s(1) in auto)
      with o s rt show ?thesis by (simp add: abs_poker_def)
    qed
  next
    case (PmQosOpenHandleEvent n c)
    have s: "boosts (taken i p) = boosts p" "held_ok (taken i p)" "fds_ok (taken i p)"
      by (rule same; simp add: PmQosOpenHandleEvent)+
    have p': "p' = run_handle E A n c (taken i p)" using PmQosOpenHandleEvent e(2) by simp
    have "requests p' = requests (taken i p)" by (simp add: p' requests_def)
    moreover have "requests (taken i p) = requests p"
      by (intro set_eqI) (simp only: split_paired_all rq, use PmQosOpenHandleEvent in simp)
    ultimately have "requests p' = requests p" by simp
    with run_handle_boosts [OF assms(1,2) s(3)] s p' show ?thesis
      by (auto simp: abs_poker_def boost_step.Wait)
  next
    case (TimeoutEvent d)
    with e have p': "p' = timeoutRequest d (taken i p)" and d: "mQueuedEvents p (snd (mMessages p ! i)) = Some (TimeoutEvent d)"
      by simp_all
    from timeout_boosts [OF inv assms(4) d p'] obtain f v where
      b: "(d, f, v, fst (mMessages p ! i)) \<in> boosts p" "boosts p' = boosts p - {(d, f, v, fst (mMessages p ! i))}" "held_ok p'"
      by blast
    have "mNow p' = mNow p" "requests p' = requests (taken i p)"
      by (simp_all add: p' timeoutRequest_def requests_def)
    moreover have "requests (taken i p) = requests p"
      by (intro set_eqI) (simp only: split_paired_all rq, use TimeoutEvent in simp)
    ultimately show ?thesis using boost_step.Finish [OF b(1) assms(5)] b by (simp add: abs_poker_def)
  qed
qed

text \<open>The steps that only the callers and the kernel make.\<close>

lemma step_spares:
  assumes "spares_timed p p'" "held_ok p" "mQueuedEvents p' = mQueuedEvents p" "mMessages p' = mMessages p" "mNow p \<le> mNow p'"
  shows "boost_step F (abs_poker p) (abs_poker p') \<and> held_ok p'"
  using boosts_same [OF _ _ assms(1)] held_ok_same [OF _ assms(1,2)] assms(3-5) requests_same [of p' p]
  by (simp add: abs_poker_def boost_step.Wait)

lemma push_refines:
  assumes "queue_ok p" "held_ok p" "pushEvent ev p = Inr p'" "\<And>d. ev \<noteq> TimeoutEvent d"
  shows "boost_step F (abs_poker p) (abs_poker p') \<and> held_ok p'"
proof -
  have s: "sendEventDelayed 0 ev p = Inr p'" using assms(3) by (simp add: pushEvent_def)
  note b = push_boosts [OF assms(1,3,4)] and r = send_requests [OF assms(1) s]
  show ?thesis
  proof (cases ev)
    case (PmQosOpenTimedEvent n t)
    have "requests p' = insert (mKey p, node n, node_value n, t) (requests p)"
      by (intro set_eqI) (simp only: split_paired_all r insert_iff prod.inject, use PmQosOpenTimedEvent in auto)
    moreover have "boost_step F (requests p, boosts p, mNow p) (insert (mKey p, node n, node_value n, t) (requests p), boosts p, mNow p)"
      by (rule boost_step.Request) (rule r(2))
    ultimately show ?thesis using b assms(2) by (simp add: abs_poker_def)
  next
    case (PmQosOpenHandleEvent n c)
    have "requests p' = requests p"
      by (intro set_eqI) (simp only: split_paired_all r, use PmQosOpenHandleEvent in simp)
    with b assms(2) show ?thesis by (simp add: abs_poker_def boost_step.Wait)
  qed (use assms(4) in blast)
qed

text \<open>A timed request notes exactly what was asked for.\<close>

lemma request_noted:
  assumes "queue_ok p"
  shows "requestPmQosTimed_val f v t p = Inr q \<Longrightarrow> abs_poker q = (insert (mKey p, f, QVal v, t) (requests p), boosts p, mNow p)"
    "requestPmQosTimed_cmd f pr mx mn t p = Inr q \<Longrightarrow>
     abs_poker q = (insert (mKey p, f, QCmd (createConstraintCommand COMMAND_SIZE pr mx mn), t) (requests p), boosts p, mNow p)"
    "(mKey p, g, w, u) \<notin> requests p"
proof -
  have n: "abs_poker q = (insert (mKey p, node n, node_value n, t) (requests p), boosts p, mNow p)"
    if r: "pushEvent (PmQosOpenTimedEvent n t) p = Inr q" for n
  proof -
    have s: "sendEventDelayed 0 (PmQosOpenTimedEvent n t) p = Inr q" using r by (simp add: pushEvent_def)
    have "requests q = insert (mKey p, node n, node_value n, t) (requests p)"
      by (intro set_eqI) (simp only: split_paired_all send_requests(1) [OF assms s] insert_iff prod.inject, auto)
    with push_boosts [OF assms r] show ?thesis by (simp add: abs_poker_def)
  qed
  have v: "node_value (default_node f v) = QVal v" "node (default_node f v) = f"
      "node_value (priority_node f pr mx mn) = QCmd (createConstraintCommand COMMAND_SIZE pr mx mn)" "node (priority_node f pr mx mn) = f"
    by (simp_all add: node_value.simps default_node_def priority_node_def NODE_TYPE_DEFAULT_def NODE_TYPE_PRIORITY_def)
  show "requestPmQosTimed_val f v t p = Inr q \<Longrightarrow> abs_poker q = (insert (mKey p, f, QVal v, t) (requests p), boosts p, mNow p)"
    using n [of "default_node f v"] by (simp add: requestPmQosTimed_val_def v)
  show "requestPmQosTimed_cmd f pr mx mn t p = Inr q \<Longrightarrow>
     abs_poker q = (insert (mKey p, f, QCmd (createConstraintCommand COMMAND_SIZE pr mx mn), t) (requests p), boosts p, mNow p)"
    using n [of "priority_node f pr mx mn"] by (simp add: requestPmQosTimed_cmd_def v)
  show "(mKey p, g, w, u) \<notin> requests p" using new_key(2) [OF assms] by (simp add: in_requests)
qed

lemma poker_step_refines:
  assumes "fresh_fds E" "watches A" "poker_step E A p p'" "poker_inv p"
  shows "boost_step (refusable E) (abs_poker p) (abs_poker p') \<and> held_ok p'"
proof -
  have inv: "queue_ok p" "fds_ok p" "held_ok p" using assms(4) by (simp_all add: poker_inv_def)
  from assms(3) show ?thesis
  proof cases
    case (Deliver i)
    then show ?thesis using deliver_refines [OF assms(1,2,4)] by blast
  next
    case (Tick d)
    then show ?thesis by (intro step_spares inv) (simp_all add: spares_timed_def)
  next
    case (Direct_val f v r)
    with requestPmQos_spares(1) [OF assms(1) inv(2)] requestPmQos_queue [of E f v p p'] inv(3)
    show ?thesis by (intro step_spares) (metis snd_conv order_refl)+
  next
    case (Direct_cmd f pr mx mn r)
    with requestPmQos_spares(2) [OF assms(1) inv(2)] requestPmQos_queue [of E f _ p p' pr mx mn] inv(3)
    show ?thesis by (intro step_spares) (metis snd_conv order_refl)+
  next
    case (Caller_close d)
    have "c \<noteq> d" if "mQueuedEvents p k = Some (TimeoutEvent c)" for k c
      using timed_not_other [OF inv(2) that, of "CallerOwner d" d] Caller_close by auto
    then have "spares_timed p p'" by (auto simp: spares_timed_def Caller_close)
    with inv(3) Caller_close show ?thesis by (intro step_spares) simp_all
  next
    case (Pipe_event h d ev k)
    have "c \<noteq> d \<and> c \<noteq> h" if "mQueuedEvents p j = Some (TimeoutEvent c)" for j c
      using timed_not_other [OF inv(2) that, of "ContextOwner h" d]
        timed_not_other [OF inv(2) that, of "HandleOwner h" h] Pipe_event(1) by auto
    then have "spares_timed p p'" using Pipe_event(2)
      by (auto simp: spares_timed_def pipeCloseCb_def split: if_splits intro!: exI [of _ "[FClose (Some d), FClose (Some h)]"])
    with inv(3) Pipe_event(2) show ?thesis
      by (intro step_spares) (auto simp: pipeCloseCb_def split: if_splits)
  qed (use push_refines [OF inv(1,3)] in \<open>auto simp: push_ops\<close>)
qed

lemma poker_step_keeps:
  "fresh_fds E \<Longrightarrow> watches A \<Longrightarrow> poker_step E A p p' \<Longrightarrow> poker_inv p \<Longrightarrow> poker_inv p'"
  using poker_step_inv [of E A p p'] poker_step_refines [of E A p p'] by (simp add: poker_inv_def)

interpretation poker_sim: simulation
  "\<lambda>p p'. fresh_fds E \<and> watches A \<and> poker_step E A p p'" poker_inv abs_poker "boost_step (refusable E)" for E A
  by unfold_locales (auto dest: poker_step_refines poker_step_keeps)

lemma start_inv: "TimeoutPoker True Barrier [] now = Some (p, b) \<Longrightarrow> poker_inv p"
proof -
  assume "TimeoutPoker True Barrier [] now = Some (p, b)"
  then have p: "p = \<lparr>mKey = 0, mQueuedEvents = Map.empty, mMessages = [], mListeners = Map.empty,
      outFd = Map.empty, callers = {}, mNow = now, pcalls = []\<rparr>"
    by (simp add: TimeoutPoker_def PokeHandler_def readyToRun_def barrier_open_def barrier_wait_def)
  have "\<not> holds p w d" for w d by (cases w) (simp_all add: p)
  then have "fds_ok p" by (simp add: p owned_def)
  then show ?thesis by (simp add: p poker_inv_def queue_ok_def held_ok_def)
qed

lemma poker_reach_inv:
  assumes "poker_reach E A p" "fresh_fds E" "watches A"
  shows "poker_inv p"
  using assms(1) by (induction rule: poker_reach.induct) (use assms(2,3) start_inv poker_step_keeps in blast)+

section \<open>A boost lasts exactly as long as asked for\<close>

lemma boost_steps_last:
  assumes "(boost_step F)\<^sup>*\<^sup>* a a'" "b \<in> fst (snd a)" "snd (snd a') < snd (snd (snd b))"
  shows "b \<in> fst (snd a')"
  using assms
proof (induction rule: rtranclp_induct)
  case base
  then show ?case by simp
next
  case (step x y)
  obtain R B now R' B' now' where xy: "x = (R, B, now)" "y = (R', B', now')" using prod_cases3 by metis
  obtain d f v t where b: "b = (d, f, v, t)" using prod_cases4 by blast
  have "now \<le> now'" using step(2) xy by (auto elim: boost_stepE)
  with step xy b have "(d, f, v, t) \<in> B" "now < t" by auto
  with boost_lasts step(2) xy b show ?case by auto
qed

end
