(* ===== verification/Poker_Live.thy ===== *)
theory Poker_Live
  imports Poker_Refine
begin

text \<open>
  The looper comes to rest: every delivery lowers a weight, so after that many deliveries no
  message is left, every timed descriptor is closed and every caller has its answer. The keys do
  not run out as long as the counter has room for the requests that are pending.
\<close>

section \<open>The weight of the queue\<close>

fun event_weight :: "queued_event \<Rightarrow> nat" where
  "event_weight (PmQosOpenTimedEvent n t) = 2"
| "event_weight _ = 1"

definition weight_in :: "(int \<rightharpoonup> queued_event) \<Rightarrow> (int \<times> int) list \<Rightarrow> nat" where
  "weight_in q ms = sum_list (map (\<lambda>m. event_weight (the (q (snd m)))) ms)"

definition poker_weight :: "poker \<Rightarrow> nat" where
  "poker_weight p = weight_in (mQueuedEvents p) (mMessages p)"

text \<open>Room for the keys that pending requests still need.\<close>

definition key_room :: "poker \<Rightarrow> bool" where
  "key_room p \<longleftrightarrow> mKey p + int (poker_weight p) \<le> 2147483647"

lemma weight_in_upd: "k \<notin> snd ` set ms \<Longrightarrow> weight_in (q(k := e)) ms = weight_in q ms"
  unfolding weight_in_def by (rule arg_cong [where f = sum_list]) auto

lemma weight_taken:
  assumes "queue_ok p" "i < length (mMessages p)" "mQueuedEvents p (snd (mMessages p ! i)) = Some e"
  shows "poker_weight p = event_weight e + poker_weight (taken i p)"
proof -
  let ?ms = "mMessages p" and ?k = "snd (mMessages p ! i)"
  have d: "distinct (map snd ?ms)" using assms(1) by (simp add: queue_ok_def)
  have ms: "?ms = take i ?ms @ ?ms ! i # drop (Suc i) ?ms" using assms(2) by (rule id_take_nth_drop)
  have m: "mMessages (taken i p) = take i ?ms @ drop (Suc i) ?ms" by (simp add: taken_def)
  have "?k \<notin> snd ` set (mMessages (taken i p))" using taken_messages(3) [OF assms(2) d] by simp
  then have "poker_weight (taken i p) = weight_in (mQueuedEvents p) (take i ?ms @ drop (Suc i) ?ms)"
    by (simp add: poker_weight_def weight_in_upd m)
  moreover have "poker_weight p = weight_in (mQueuedEvents p) (take i ?ms @ ?ms ! i # drop (Suc i) ?ms)"
    unfolding poker_weight_def using ms by simp
  ultimately show ?thesis by (simp add: weight_in_def assms(3))
qed

lemma weight_send:
  assumes "queue_ok p" "sendEventDelayed t ev p = Inr p'"
  shows "poker_weight p' = poker_weight p + event_weight ev"
proof -
  note k = new_key [OF assms(1)]
  have "mKey p \<notin> snd ` set (mMessages p)" using assms(1) by (auto simp: queue_ok_def)
  then have "weight_in ((mQueuedEvents p)(mKey p \<mapsto> ev)) (mMessages p @ [(u, mKey p)]) =
      weight_in (mQueuedEvents p) (mMessages p) + event_weight ev" for u
    using weight_in_upd [of "mKey p" "mMessages p"] by (simp add: weight_in_def)
  with assms(2) k show ?thesis by (simp add: sendEventDelayed_Inr poker_weight_def)
qed

lemma open_node_queue:
  "open_node E n p = (r, q) \<Longrightarrow> mKey q = mKey p \<and> mMessages q = mMessages p \<and> mQueuedEvents q = mQueuedEvents p"
  by (auto simp: open_node_def split: sum.splits)

lemma run_timed_weight:
  assumes "queue_ok p" "mKey p < 2147483647"
  shows "\<exists>p'. run_timed E n t p = Inr p' \<and> poker_weight p' \<le> poker_weight p + 1 \<and>
    mKey p' + int (poker_weight p') \<le> mKey p + int (poker_weight p) + 2 \<and> outFd p' = outFd p \<and>
    (\<forall>k m c. mQueuedEvents p k = Some (PmQosOpenHandleEvent m c) \<longrightarrow> mQueuedEvents p' k = Some (PmQosOpenHandleEvent m c))"
proof -
  obtain r q where o: "open_node E n p = (r, q)" by fastforce
  note q = open_node_queue [OF o]
  have qo: "outFd q = outFd p" using o by (auto simp: open_node_def split: sum.splits)
  have wq: "poker_weight q = poker_weight p" using q by (simp add: poker_weight_def)
  show ?thesis
  proof (cases r)
    case None
    with o q qo wq show ?thesis by (simp add: run_timed_eq)
  next
    case (Some d)
    have qok: "queue_ok q" using assms(1) q by (auto intro: queue_ok_cong)
    obtain p' where s: "sendEventDelayed t (TimeoutEvent d) q = Inr p'"
      using assms(2) q by (auto simp: sendEventDelayed_Inr)
    note k = new_key [OF qok]
    have "run_timed E n t p = Inr p'" using o Some s by (simp add: run_timed_eq)
    moreover have "poker_weight p' = poker_weight p + 1" using weight_send [OF qok s] wq by simp
    moreover have "mKey p' = mKey p + 1" "outFd p' = outFd p"
      "mQueuedEvents p' = (mQueuedEvents p)(mKey p \<mapsto> TimeoutEvent d)"
      using s q qo k by (auto simp: sendEventDelayed_Inr)
    moreover have "mQueuedEvents p (mKey p) = None" using k q by simp
    ultimately show ?thesis by auto
  qed
qed

text \<open>The caller of a handle event: answered, or still waiting in the queue.\<close>

definition answered_or_waiting :: "nat \<Rightarrow> poker \<Rightarrow> bool" where
  "answered_or_waiting c p \<longleftrightarrow> outFd p c \<noteq> None \<or> (\<exists>k n. mQueuedEvents p k = Some (PmQosOpenHandleEvent n c))"

lemma run_handle_answers: "\<exists>r. outFd (run_handle E A n c p) = (outFd p)(c \<mapsto> r)"
proof -
  have c: "createHandleForFd E A d p = (r, q) \<Longrightarrow> outFd q = outFd p" for d p r q
    by (auto simp: createHandleForFd_def listenForHandleToCloseFd_def Let_def split: option.splits if_splits)
  obtain r q where o: "open_node E n p = (r, q)" by fastforce
  have q: "outFd q = outFd p" using o by (auto simp: open_node_def split: sum.splits)
  show ?thesis
  proof (cases r)
    case None
    with o q show ?thesis by (auto simp: run_handle_eq)
  next
    case (Some d)
    obtain r' q' where "createHandleForFd E A d q = (r', q')" by fastforce
    with o q Some c [OF this] show ?thesis by (auto simp: run_handle_eq)
  qed
qed

lemma deliver_progress:
  assumes "queue_ok p" "key_room p" "i < length (mMessages p)"
  shows "\<exists>p'. deliver E A i p = Inr p' \<and> key_room p' \<and> poker_weight p' < poker_weight p \<and>
    (\<forall>c. answered_or_waiting c p \<longrightarrow> answered_or_waiting c p')"
proof -
  obtain e where e: "mQueuedEvents p (snd (mMessages p ! i)) = Some e" "deliver E A i p = run_event E A e (taken i p)"
    using deliver_eq [OF assms(1,3), of E A] by blast
  note q = taken_queue_ok [OF assms(1,3)] and w = weight_taken [OF assms(1,3) e(1)]
  show ?thesis
  proof (cases e)
    case (PmQosOpenTimedEvent n t)
    have "mKey (taken i p) < 2147483647" using assms(2) w PmQosOpenTimedEvent by (simp add: key_room_def)
    from run_timed_weight [OF q this, of E n t] obtain p' where
      p': "run_timed E n t (taken i p) = Inr p'" "poker_weight p' \<le> poker_weight (taken i p) + 1"
        "mKey p' + int (poker_weight p') \<le> mKey (taken i p) + int (poker_weight (taken i p)) + 2" "outFd p' = outFd p"
        "\<forall>k m c. mQueuedEvents (taken i p) k = Some (PmQosOpenHandleEvent m c) \<longrightarrow>
          mQueuedEvents p' k = Some (PmQosOpenHandleEvent m c)"
      by auto
    have "answered_or_waiting c p'" if "answered_or_waiting c p" for c
      using that p'(4,5) e(1) PmQosOpenTimedEvent
      unfolding answered_or_waiting_def taken_simps fun_upd_apply by (metis option.inject queued_event.distinct(1))
    with p' e(2) w assms(2) PmQosOpenTimedEvent show ?thesis by (simp add: key_room_def)
  next
    case (PmQosOpenHandleEvent n c)
    let ?p = "run_handle E A n c (taken i p)"
    obtain r where r: "outFd ?p = (outFd (taken i p))(c \<mapsto> r)" using run_handle_answers by blast
    have "answered_or_waiting b ?p" if "answered_or_waiting b p" for b
      using that r e(1) PmQosOpenHandleEvent
      unfolding answered_or_waiting_def run_handle_queue r taken_simps fun_upd_apply
      by (metis option.distinct(1) option.inject queued_event.inject(2))
    moreover have "poker_weight ?p = poker_weight (taken i p)" by (simp add: poker_weight_def)
    ultimately show ?thesis using e(2) w assms(2) PmQosOpenHandleEvent by (simp add: key_room_def)
  next
    case (TimeoutEvent d)
    let ?p = "timeoutRequest d (taken i p)"
    have "answered_or_waiting b ?p" if "answered_or_waiting b p" for b
      using that e(1) TimeoutEvent unfolding answered_or_waiting_def timeoutRequest_def
      by (auto split: if_splits) (metis queued_event.distinct(5) option.inject)
    moreover have "poker_weight ?p = poker_weight (taken i p)" by (simp add: poker_weight_def timeoutRequest_def)
    ultimately show ?thesis using e(2) w assms(2) TimeoutEvent by (simp add: key_room_def timeoutRequest_def)
  qed
qed

section \<open>The looper's order\<close>

lemma takeWhile_shorter: "m \<in> set ms \<Longrightarrow> \<not> P m \<Longrightarrow> length (takeWhile P ms) < length ms"
  by (induction ms) auto

lemma earliest_less:
  assumes "ms \<noteq> []"
  shows "earliest ms < length ms"
proof -
  have "Min (fst ` set ms) \<in> fst ` set ms" using assms by (intro Min_in) simp_all
  then obtain m where "m \<in> set ms" "fst m = Min (fst ` set ms)" by auto
  then show ?thesis unfolding earliest_def by (intro takeWhile_shorter [where m = m]) simp_all
qed

lemma poll_once_progress:
  assumes "fresh_fds E" "watches A" "poker_inv p" "key_room p" "mMessages p \<noteq> []"
  shows "\<exists>p'. poll_once E A p = Inr p' \<and> (poker_step E A)\<^sup>*\<^sup>* p p' \<and> poker_inv p' \<and> key_room p' \<and>
    poker_weight p' < poker_weight p \<and> (\<forall>c. answered_or_waiting c p \<longrightarrow> answered_or_waiting c p')"
proof -
  let ?i = "earliest (mMessages p)"
  let ?p = "p\<lparr>mNow := max (mNow p) (fst (mMessages p ! ?i))\<rparr>"
  have i: "?i < length (mMessages ?p)" using earliest_less [OF assms(5)] by simp
  have "?p = p\<lparr>mNow := mNow p + (max (mNow p) (fst (mMessages p ! ?i)) - mNow p)\<rparr>" by simp
  then have t: "poker_step E A p ?p" by (metis poker_step.Tick diff_ge_0_iff_ge max.cobounded1)
  have q: "poker_inv ?p" using poker_step_keeps [OF assms(1,2) t assms(3)] .
  have k: "key_room ?p" "poker_weight ?p = poker_weight p" using assms(4) by (simp_all add: key_room_def poker_weight_def)
  have "queue_ok ?p" using q by (simp add: poker_inv_def)
  from deliver_progress [OF this k(1) i, of E A] obtain p' where
    p': "deliver E A ?i ?p = Inr p'" "key_room p'" "poker_weight p' < poker_weight ?p"
      "\<forall>c. answered_or_waiting c ?p \<longrightarrow> answered_or_waiting c p'" by blast
  have s: "poker_step E A ?p p'" by (rule poker_step.Deliver [OF i _ p'(1)]) simp
  have "poll_once E A p = Inr p'" using p'(1) by (simp add: poll_once_def Let_def)
  moreover have "(poker_step E A)\<^sup>*\<^sup>* p p'" using t s by (meson r_into_rtranclp rtranclp_trans)
  moreover have "poker_inv p'" using poker_step_keeps [OF assms(1,2) s q] .
  ultimately show ?thesis using p' k(2) by (auto simp: answered_or_waiting_def)
qed

lemma poll_all_rests:
  assumes "fresh_fds E" "watches A" "poker_inv p" "key_room p" "poker_weight p \<le> n"
  shows "\<exists>p'. poll_all E A n p = Inr p' \<and> (poker_step E A)\<^sup>*\<^sup>* p p' \<and> poker_inv p' \<and> mMessages p' = [] \<and>
    (\<forall>c. answered_or_waiting c p \<longrightarrow> answered_or_waiting c p')"
  using assms(3-5)
proof (induction n arbitrary: p)
  case 0
  have "mMessages p = []"
  proof (rule ccontr)
    assume "mMessages p \<noteq> []"
    from poll_once_progress [OF assms(1,2) "0.prems"(1,2) this] "0.prems"(3) show False by auto
  qed
  then show ?case using "0.prems" by auto
next
  case (Suc n)
  show ?case
  proof (cases "mMessages p = []")
    case True
    then show ?thesis using Suc.prems by auto
  next
    case False
    from poll_once_progress [OF assms(1,2) Suc.prems(1,2) False] obtain q where
      q: "poll_once E A p = Inr q" "(poker_step E A)\<^sup>*\<^sup>* p q" "poker_inv q" "key_room q"
        "poker_weight q < poker_weight p" "\<forall>c. answered_or_waiting c p \<longrightarrow> answered_or_waiting c q" by blast
    with Suc.prems(3) have "poker_weight q \<le> n" by simp
    from Suc.IH [OF q(3,4) this] q False show ?thesis by (auto intro: rtranclp_trans)
  qed
qed

text \<open>At rest: no boost, no timed descriptor, and nobody waits.\<close>

lemma at_rest:
  assumes "poker_inv p" "mMessages p = []"
  shows "boosts p = {}" "open_handles fd_opens fd_closes (pcalls p) = dom (mListeners p) \<union> ran (mListeners p) \<union> callers p"
    "answered_or_waiting c p \<Longrightarrow> outFd p c \<noteq> None"
proof -
  have q: "mQueuedEvents p = Map.empty" using assms by (auto simp: poker_inv_def queue_ok_def)
  show "boosts p = {}" by (simp add: boosts_def q)
  show "answered_or_waiting c p \<Longrightarrow> outFd p c \<noteq> None" by (simp add: answered_or_waiting_def q)
  have f: "fds_ok p" using assms(1) by (simp add: poker_inv_def)
  have "(\<exists>w. holds p w d) \<longleftrightarrow> d \<in> dom (mListeners p) \<union> ran (mListeners p) \<union> callers p" for d
  proof
    assume "\<exists>w. holds p w d"
    then obtain w where "holds p w d" by blast
    then show "d \<in> dom (mListeners p) \<union> ran (mListeners p) \<union> callers p"
      by (cases w) (auto simp: q ran_def)
  next
    assume "d \<in> dom (mListeners p) \<union> ran (mListeners p) \<union> callers p"
    then consider "mListeners p d \<noteq> None" | h where "mListeners p h = Some d" | "d \<in> callers p"
      by (auto simp: ran_def)
    then show "\<exists>w. holds p w d" by cases (metis holds.simps(2), metis holds.simps(3), metis holds.simps(4))
  qed
  with fds_ok_live [OF f] show
    "open_handles fd_opens fd_closes (pcalls p) = dom (mListeners p) \<union> ran (mListeners p) \<union> callers p"
    by blast
qed

end
