(* ===== verification/PowerHal_Thms.thy ===== *)
theory PowerHal_Thms
  imports PowerHal Poker_Live
begin

text \<open>
  Lemmas about the power HAL: \<open>strtok\<close> on the list of frequencies, the throttle on hints,
  descriptors, and the shape of \<open>powerhal_info\<close>.
\<close>

section \<open>The frequency table\<close>

text \<open>What cpufreq prints: every frequency followed by a blank, then a newline.\<close>

definition freq_text :: "nat list \<Rightarrow> string" where
  "freq_text fs = concat (map (\<lambda>f. show_nat f @ '' '') fs) @ [CHR 0x0A]"

lemma freq_text_simps [simp]:
  "freq_text [] = [CHR 0x0A]" "freq_text (f # fs) = show_nat f @ CHR '' '' # freq_text fs"
  by (simp_all add: freq_text_def)

lemma show_nat_chars:
  assumes "c \<in> set (show_nat n)"
  shows "c \<noteq> CHR '' ''" "c \<noteq> NUL"
proof -
  show "c \<noteq> CHR '' ''" using show_nat_no_space [OF assms] by (auto simp: is_space_def)
  have "is_digit c" using assms
  proof (induction n rule: show_nat.induct)
    case (1 n)
    then show ?case by (subst (asm) show_nat.simps) (auto split: if_splits)
  qed
  then show "c \<noteq> NUL" by (auto simp: is_digit_def NUL_def)
qed

lemma show_nat_nonempty [simp]: "show_nat n \<noteq> []"
  using show_nat_head [of n] by auto

text \<open>One token that a blank ends, and the last one, that the NUL ends.\<close>

lemma strtok_blank:
  assumes "drop pos buf = t @ CHR '' '' # rest" "t \<noteq> []" "\<And>c. c \<in> set t \<Longrightarrow> c \<noteq> CHR '' '' \<and> c \<noteq> NUL"
  shows "strtok buf (Some pos) = Inr (Some t, buf[pos + length t := NUL], Some (pos + length t + 1))"
    "drop (pos + length t + 1) (buf[pos + length t := NUL]) = rest"
proof -
  have "pos \<le> length buf" using assms(1) by (metis append_is_Nil_conv drop_eq_Nil list.distinct(1) nat_le_linear)
  then have len: "length buf = pos + length (t @ CHR '' '' # rest)" using assms(1) by (metis le_add_diff_inverse length_drop)
  obtain c t' where t: "t = c # t'" using assms(2) by (cases t) auto
  with assms(3) have c: "c \<noteq> CHR '' ''" "c \<noteq> NUL" by auto
  have nth: "buf ! (pos + k) = (t @ CHR '' '' # rest) ! k" for k
    using assms(1) \<open>pos \<le> length buf\<close> by (metis nth_drop)
  have w: "takeWhile (\<lambda>c. c = CHR '' '') (drop pos buf) = []" using assms(1) c t by simp
  have x: "takeWhile (\<lambda>c. c \<noteq> CHR '' '' \<and> c \<noteq> NUL) (drop pos buf) = t"
    unfolding assms(1) using assms(3) by (subst takeWhile_append2) auto
  show "strtok buf (Some pos) = Inr (Some t, buf[pos + length t := NUL], Some (pos + length t + 1))"
    using len nth [of 0] nth [of "length t"] c t by (simp add: strtok_def w x [unfolded t] Let_def) (simp add: NUL_def)
  have "drop (pos + length t + 1) buf = drop (length t + 1) (drop pos buf)" by (simp add: add.commute add.left_commute)
  also have "\<dots> = rest" unfolding assms(1) by simp
  finally show "drop (pos + length t + 1) (buf[pos + length t := NUL]) = rest" by simp
qed

lemma strtok_last:
  assumes "drop pos buf = t @ NUL # rest" "t \<noteq> []" "\<And>c. c \<in> set t \<Longrightarrow> c \<noteq> CHR '' '' \<and> c \<noteq> NUL"
  shows "strtok buf (Some pos) = Inr (Some t, buf, None)"
proof -
  have "pos \<le> length buf" using assms(1) by (metis append_is_Nil_conv drop_eq_Nil list.distinct(1) nat_le_linear)
  then have len: "length buf = pos + length (t @ NUL # rest)" using assms(1) by (metis le_add_diff_inverse length_drop)
  obtain c t' where t: "t = c # t'" using assms(2) by (cases t) auto
  with assms(3) have c: "c \<noteq> CHR '' ''" "c \<noteq> NUL" by auto
  have nth: "buf ! (pos + k) = (t @ NUL # rest) ! k" for k
    using assms(1) \<open>pos \<le> length buf\<close> by (metis nth_drop)
  have w: "takeWhile (\<lambda>c. c = CHR '' '') (drop pos buf) = []" using assms(1) c t by simp
  have x: "takeWhile (\<lambda>c. c \<noteq> CHR '' '' \<and> c \<noteq> NUL) (drop pos buf) = t"
    unfolding assms(1) using assms(3) by (subst takeWhile_append2) auto
  show ?thesis
    using len nth [of 0] nth [of "length t"] c t by (simp add: strtok_def w x [unfolded t] Let_def)
qed

lemma strtok_freq:
  assumes "drop pos buf = show_nat f @ CHR '' '' # rest"
  shows "strtok buf (Some pos) = Inr (Some (show_nat f), buf[pos + length (show_nat f) := NUL], Some (pos + length (show_nat f) + 1))"
    "drop (pos + length (show_nat f) + 1) (buf[pos + length (show_nat f) := NUL]) = rest"
  using strtok_blank [OF assms] show_nat_chars by auto

lemma strtok_newline:
  "drop pos buf = [CHR 0x0A] @ NUL # rest \<Longrightarrow> strtok buf (Some pos) = Inr (Some [CHR 0x0A], buf, None)"
  by (rule strtok_last) (auto simp: NUL_def)

lemma count_frequencies:
  assumes "drop pos buf = freq_text fs @ NUL # rest"
  shows "\<exists>buf'. bind_res (strtok buf (Some pos)) (\<lambda>(pch, buf, save). count_tokens pch buf save n) =
      Inr (n + int (length fs) + 1, buf') \<and> length buf' = length buf \<and>
      drop (pos + length (freq_text fs)) buf' = NUL # rest"
  using assms
proof (induction fs arbitrary: pos buf n)
  case Nil
  from Nil have "drop (pos + 1) buf = NUL # rest"
    by (metis (no_types, lifting) append_Cons append_Nil drop0 drop_Suc_Cons drop_drop add.commute freq_text_simps(1) plus_1_eq_Suc)
  with Nil strtok_newline [of pos buf rest] show ?case
    by (simp add: count_tokens.simps [of "Some _"] count_tokens.simps [of None] strtok_None)
next
  case (Cons f fs)
  let ?b = "buf[pos + length (show_nat f) := NUL]" and ?p = "pos + length (show_nat f) + 1"
  from Cons.prems have d: "drop pos buf = show_nat f @ CHR '' '' # (freq_text fs @ NUL # rest)" by simp
  note s = strtok_freq [OF d]
  from Cons.IH [OF s(2), of "n + 1"] obtain buf' where
    "bind_res (strtok ?b (Some ?p)) (\<lambda>(pch, buf, save). count_tokens pch buf save (n + 1)) =
       Inr (n + 1 + int (length fs) + 1, buf')" "length buf' = length buf"
      "drop (?p + length (freq_text fs)) buf' = NUL # rest" by auto
  then show ?case by (simp add: s(1) count_tokens.simps [of "Some _"] add_ac)
qed

lemma store_frequencies_text:
  assumes "drop pos buf = freq_text fs @ NUL # rest" "\<forall>f \<in> set fs. f < 2147483648"
  shows "\<exists>buf'. bind_res (strtok buf (Some pos)) (\<lambda>(pch, buf, save). store_frequencies (length fs) pch buf save) =
      Inr (map int fs, buf') \<and> length buf' = length buf \<and> drop (pos + length (freq_text fs)) buf' = NUL # rest"
  using assms
proof (induction fs arbitrary: pos buf)
  case Nil
  from Nil have "drop (pos + 1) buf = NUL # rest"
    by (metis (no_types, lifting) append_Cons append_Nil drop0 drop_Suc_Cons drop_drop add.commute freq_text_simps(1) plus_1_eq_Suc)
  with Nil strtok_newline [of pos buf rest] show ?case by simp
next
  case (Cons f fs)
  let ?b = "buf[pos + length (show_nat f) := NUL]" and ?p = "pos + length (show_nat f) + 1"
  from Cons.prems have d: "drop pos buf = show_nat f @ CHR '' '' # (freq_text fs @ NUL # rest)" by simp
  note s = strtok_freq [OF d]
  have a: "atoi32 (show_nat f) = int f" using Cons.prems(2) atoi_show_nat [of "[]" f] by (simp add: atoi32_def)
  obtain x buf1 y where t: "strtok ?b (Some ?p) = Inr (x, buf1, y)" and
    "\<exists>buf'. store_frequencies (length fs) x buf1 y = Inr (map int fs, buf') \<and> length buf' = length buf \<and>
      drop (?p + length (freq_text fs)) buf' = NUL # rest"
    using Cons.IH [OF s(2)] Cons.prems(2) by (auto simp: bind_res_Inr)
  then show ?case by (auto simp: s(1) a add_ac)
qed

text \<open>A kernel whose frequency file always has the same content.\<close>

definition freq_file :: "file_env \<Rightarrow> string \<Rightarrow> bool" where
  "freq_file E data \<longleftrightarrow> (\<forall>cs. \<exists>d. f_open E cs FREQS_PATH = Inr d \<and>
     f_read E (FOpen FREQS_PATH (Some d) # cs) d 256 = Inr data)"

lemma freq_file_read:
  assumes "freq_file E data" "length buf = 256" "length data \<le> 256"
  shows "\<exists>cs'. sysfs_read E FREQS_PATH buf cs = (data @ drop (length data) buf, cs')"
proof -
  obtain d where "f_open E cs FREQS_PATH = Inr d" "f_read E (FOpen FREQS_PATH (Some d) # cs) d 256 = Inr data"
    using assms(1) unfolding freq_file_def by blast
  with assms(2,3) show ?thesis by (simp add: sysfs_read_def put_block_short)
qed

lemma read_frequencies_text:
  assumes "freq_file (kernel H) (freq_text fs)" "length (freq_text fs) < 256" "fs \<noteq> []"
    "\<forall>f \<in> set fs. f < 2147483648" "malloc_buf H" "malloc_freqs H"
  shows "\<exists>buf cs'. read_frequencies H info cs = Inr (info\<lparr>num_available_frequencies := int (length fs),
      available_frequencies := map int fs, max_frequency := int (last fs)\<rparr>, buf, cs')"
proof -
  let ?t = "freq_text fs" and ?z = "replicate (255 - length (freq_text fs)) NUL"
  let ?b = "?t @ NUL # ?z"
  have len: "length ?t \<le> 256" using assms(2) by simp
  have z: "drop (length ?t) (replicate 256 NUL) = NUL # ?z"
    using assms(2) by (simp add: Suc_diff_Suc [symmetric] flip: replicate_Suc) 
  obtain cs1 where r1: "sysfs_read (kernel H) FREQS_PATH (replicate 256 NUL) cs = (?b, cs1)"
    using freq_file_read [OF assms(1) _ len, of "replicate 256 NUL" cs] z by auto
  have d: "drop 0 ?b = freq_text fs @ NUL # ?z" by simp
  from count_frequencies [OF d, of "- 1"] obtain b1 where
    c: "bind_res (strtok ?b (Some 0)) (\<lambda>(pch, buf, save). count_tokens pch buf save (- 1)) = Inr (int (length fs), b1)"
      "length b1 = length ?b" "drop (length ?t) b1 = NUL # ?z" by auto
  have "length b1 = 256" using c(2) assms(2) by simp
  then obtain cs2 where r2: "sysfs_read (kernel H) FREQS_PATH b1 cs1 = (?b, cs2)"
    using freq_file_read [OF assms(1) _ len, of b1 cs1] c(3) by auto
  from store_frequencies_text [OF d assms(4)] obtain b2 where
    s: "bind_res (strtok ?b (Some 0)) (\<lambda>(pch, buf, save). store_frequencies (length fs) pch buf save) = Inr (map int fs, b2)"
    by auto
  obtain x y w where t: "strtok ?b (Some 0) = Inr (x, y, w)" "count_tokens x y w (- 1) = Inr (int (length fs), b1)"
      "store_frequencies (length fs) x y w = Inr (map int fs, b2)"
    using c(1) s by (auto simp: bind_res_Inr)
  have l: "map int fs ! (length fs - 1) = int (last fs)" using assms(3) by (simp add: last_conv_nth)
  show ?thesis
    using assms(3,5,6) t l by (simp add: read_frequencies_def r1 r2)
qed

text \<open>The buffer keeps its 256 bytes.\<close>

lemma strtok_length: "strtok buf save = Inr (t, buf', save') \<Longrightarrow> length buf' = length buf"
  by (auto simp: strtok_def Let_def split: option.splits if_splits)

lemma count_tokens_length: "count_tokens pch buf save n = Inr (m, buf') \<Longrightarrow> length buf' = length buf"
proof (induction pch buf save n arbitrary: m buf' rule: count_tokens.induct)
  case (1 pch buf save n)
  show ?case
  proof (cases "pch = None")
    case True
    with 1(2) show ?thesis by (simp add: count_tokens.simps)
  next
    case False
    with 1(2) obtain t b s where s: "strtok buf save = Inr (t, b, s)" "count_tokens t b s (n + 1) = Inr (m, buf')"
      by (subst (asm) count_tokens.simps) (auto simp: bind_res_Inr)
    from 1(1) [OF False s(1) refl refl s(2)] strtok_length [OF s(1)] show ?thesis by simp
  qed
qed

lemma store_frequencies_buffer: "store_frequencies n pch buf save = Inr (fs, buf') \<Longrightarrow> length buf' = length buf"
proof (induction n arbitrary: pch buf save fs)
  case (Suc n)
  then obtain t b s gs where s: "strtok buf save = Inr (t, b, s)" "store_frequencies n t b s = Inr (gs, buf')"
    by (auto simp: bind_res_Inr split: option.splits)
  from Suc.IH [OF s(2)] strtok_length [OF s(1)] show ?case by simp
qed simp

lemma read_frequencies_buffer: "read_frequencies H i cs = Inr (j, buf, cs') \<Longrightarrow> length buf = 256"
  by (fastforce simp: read_frequencies_def bind_res_Inr Let_def case_prod_beta split: if_splits
      dest!: strtok_length count_tokens_length store_frequencies_buffer)

section \<open>Input devices\<close>

lemma get_input_count_from_ends:
  assumes "\<forall>cs j. f_access E cs (input_path j ''name'') \<longleftrightarrow> j < k" "i \<le> k"
  shows "\<exists>cs'. get_input_count_from E i cs = Some (k, cs')"
  using assms(2)
proof (induction "k - i" arbitrary: i cs)
  case 0
  with assms(1) show ?case by (subst get_input_count_from.simps) simp
next
  case (Suc n)
  then have "i < k" "n = k - Suc i" by simp_all
  with Suc.hyps(1) [of "Suc i"] assms(1) show ?case by (subst get_input_count_from.simps) simp
qed

section \<open>Descriptors\<close>

abbreviation (input) fds :: "fcall list \<Rightarrow> fd set" where "fds \<equiv> open_handles fd_opens fd_closes"

lemma switch_input_fds: "fresh_fds E \<Longrightarrow> fds (switch_input E state dev cs) = fds cs"
  by (simp add: switch_input_def Let_def sysfs_write_fds)

lemma switch_inputs_fds:
  "fresh_fds E \<Longrightarrow> switch_inputs E h ds state is cs = Inr cs' \<Longrightarrow> fds cs' = fds cs"
  by (induction "is" arbitrary: cs) (auto simp: switch_input_fds split: if_splits)

lemma set_interactive_fds:
  assumes "fresh_fds (kernel H)" "common_power_set_interactive H info on s = Inr (info', s')"
  shows "fds (hcalls s') = fds (hcalls s)"
proof -
  define cs1 where "cs1 = sysfs_write (kernel H) ''/sys/devices/system/cpu/cpuquiet/tegra_cpuquiet/no_lp''
    (if on \<noteq> 0 then ''1'' else ''0'')
    (sysfs_write (kernel H) ''/sys/devices/system/cpu/cpu0/cpufreq/scaling_governor'' ''intelliactive'' (hcalls s))"
  define r where "r = (case info of None \<Rightarrow> Inr cs1 | Some i \<Rightarrow> switch_inputs (kernel H) (input_devs i) (static_devs s)
      (if 0 = on then ''0'' else ''1'') [0..<nat (input_cnt i)] cs1)"
  have f1: "fds cs1 = fds (hcalls s)" by (simp add: cs1_def sysfs_write_fds [OF assms(1)])
  have e: "common_power_set_interactive H info on s = bind_res r (\<lambda>cs.
      if on \<noteq> 0 then
        let cs = sysfs_write_int (kernel H) ''/sys/devices/system/cpu/cpufreq/intelliactive/io_is_busy'' 1 cs;
            cs = sysfs_write_int (kernel H) ''/sys/devices/system/cpu/cpufreq/intelliactive/boostpulse'' 1 cs
        in case info of
             None \<Rightarrow> Inr (None, s\<lparr>hcalls := cs\<rparr>)
           | Some i \<Rightarrow> bind_res (boost DEFAULT_MAX_ONLINE_CPUS (s2ns 5) i) (\<lambda>i. Inr (Some i, s\<lparr>hcalls := cs\<rparr>))
      else Inr (info, s\<lparr>hcalls := cs\<rparr>))"
    unfolding common_power_set_interactive_def Let_def r_def cs1_def by simp
  obtain cs where c: "r = Inr cs" using assms(2) unfolding e by (cases r) auto
  have f2: "fds cs = fds cs1" using c switch_inputs_fds [OF assms(1)] by (auto simp: r_def split: option.splits)
  have "fds (hcalls s') = fds cs"
    using assms(2) unfolding e c Let_def
    by (cases info) (auto simp: bind_res_Inr sysfs_write_int_def sysfs_write_fds [OF assms(1)] split: if_splits)
  with f1 f2 show ?thesis by simp
qed

section \<open>Hints\<close>

text \<open>The codes of the framework are different and have a place in the tables.\<close>

definition hints_ok :: "hal_env \<Rightarrow> bool" where
  "hints_ok H \<longleftrightarrow> distinct [POWER_HINT_VSYNC H, POWER_HINT_INTERACTION H, POWER_HINT_LAUNCH H] \<and>
     POWER_HINT_VSYNC H < 12 \<and> POWER_HINT_INTERACTION H < 12 \<and> POWER_HINT_LAUNCH H < 12"

text \<open>The shape of the table: what the C arrays have by their type.\<close>

definition info_ok :: "powerhal_info \<Rightarrow> bool" where
  "info_ok i \<longleftrightarrow> length (hint_time i) = MAX_POWER_HINT_COUNT \<and> length (hint_interval i) = MAX_POWER_HINT_COUNT \<and>
     num_available_frequencies i = int (length (available_frequencies i)) \<and>
     (\<forall>t \<in> set (hint_time i). 0 \<le> t \<and> t < 18446744073709551616)"

lemma calloc_info_ok: "info_ok calloc_info"
  by (simp add: info_ok_def calloc_info_def)

lemma request_fields:
  assumes "request f v t i = Inr i'"
  shows "\<exists>p p'. mTimeoutPoker i = Some p \<and> requestPmQosTimed_val f v t p = Inr p' \<and> i' = i\<lparr>mTimeoutPoker := Some p'\<rparr>"
  using assms by (auto simp: request_def bind_res_Inr split: option.splits)

lemma boost_fields:
  assumes "boost c t i = Inr i'"
  shows "\<exists>p' q p. mTimeoutPoker i = Some p \<and> requestPmQosTimed_val ''/dev/cpu_freq_min'' (max_frequency i) t p = Inr q \<and>
    requestPmQosTimed_val ''/dev/min_online_cpus'' c t q = Inr p' \<and> i' = i\<lparr>mTimeoutPoker := Some p'\<rparr>"
  using assms by (fastforce simp: boost_def bind_res_Inr dest!: request_fields)

lemma boost_ok: "info_ok i \<Longrightarrow> boost c t i = Inr i' \<Longrightarrow> info_ok i'"
  by (auto dest!: boost_fields simp: info_ok_def)

lemma store_frequencies_length:
  "store_frequencies n pch buf save = Inr x \<Longrightarrow> length (fst x) = n"
  by (induction n arbitrary: pch buf save x) (fastforce simp: bind_res_Inr split: option.splits)+

lemma read_frequencies_ok:
  assumes "read_frequencies H i cs = Inr (i', b, cs')" "info_ok i"
  shows "info_ok i' \<and> 0 < num_available_frequencies i' \<and> max_frequency i' = last (available_frequencies i')"
proof -
  obtain n fs where i': "i' = i\<lparr>num_available_frequencies := n, available_frequencies := fs, max_frequency := fs ! (nat n - 1)\<rparr>"
      "0 < n" "length fs = nat n"
    using assms(1)
    by (auto simp: read_frequencies_def bind_res_Inr Let_def case_prod_beta split: if_splits dest!: store_frequencies_length)
  then have "fs \<noteq> []" by auto
  with i' assms(2) show ?thesis by (auto simp: info_ok_def last_conv_nth)
qed

lemma set_interval_ok: "set_interval h v i = Inr i' \<Longrightarrow> info_ok i \<Longrightarrow> info_ok i'"
  by (auto simp: set_interval_def info_ok_def split: if_splits)

lemma hint_clock_range: "0 \<le> hint_clock ts \<and> hint_clock ts < 18446744073709551616"
  by (simp add: hint_clock_def)

lemma common_power_hint_ok:
  assumes "common_power_hint H (Some i) hint data ts = Inr r" "info_ok i"
  shows "\<exists>i'. r = Some i' \<and> info_ok i'"
proof (cases "check_hint i hint ts")
  case None
  with assms show ?thesis by (auto simp: common_power_hint_def)
next
  case (Some t)
  then have t: "t = hint_clock ts" by (auto simp: check_hint_def Let_def split: if_splits)
  obtain j where j: "r = Some (j\<lparr>hint_time := (hint_time j)[hint := t]\<rparr>)" "info_ok j"
    using assms Some boost_ok by (auto simp: common_power_hint_def bind_res_Inr split: if_splits)
  then have "info_ok (j\<lparr>hint_time := (hint_time j)[hint := t]\<rparr>)"
    using hint_clock_range [of ts] set_update_subset_insert [of "hint_time j" hint t] by (auto simp: info_ok_def t)
  with j show ?thesis by simp
qed

lemma scan_inputs_ok: "scan_inputs H i s = Some (i', s') \<Longrightarrow> info_ok i \<Longrightarrow> info_ok i'"
  by (auto simp: scan_inputs_def info_ok_def split: if_splits)

lemma common_power_open_ok:
  assumes "common_power_open H now i s = Inr (i', s')" "info_ok i"
  shows "info_ok i' \<and> 0 < num_available_frequencies i' \<and> max_frequency i' = last (available_frequencies i') \<and>
    (\<exists>p. mTimeoutPoker i' = Some p \<and> poker_inv p)"
proof -
  obtain i1 s1 p b where 1: "scan_inputs H i s = Some (i1, s1)"
      "TimeoutPoker (looper_prepared H) Barrier [] now = Some (p, b)"
    using assms(1) by (auto simp: common_power_open_def split: option.splits)
  then have "looper_prepared H"
    by (simp add: TimeoutPoker_def PokeHandler_def readyToRun_def Barrier_def barrier_wait_def split: if_splits)
  with 1(2) have pi: "poker_inv p" using start_inv by simp
  obtain i2 b2 cs2 where 2: "read_frequencies H (i1\<lparr>mTimeoutPoker := Some p\<rparr>) (hcalls s1) = Inr (i2, b2, cs2)"
    using assms(1) 1 by (auto simp: common_power_open_def bind_res_Inr)
  have "info_ok (i1\<lparr>mTimeoutPoker := Some p\<rparr>)" using scan_inputs_ok [OF 1(1) assms(2)] by (simp add: info_ok_def)
  note r = read_frequencies_ok [OF 2 this]
  have "mTimeoutPoker i2 = Some p"
    using 2 by (auto simp: read_frequencies_def bind_res_Inr Let_def case_prod_beta split: if_splits)
  moreover obtain lp i3 i4 where 3: "set_interval (POWER_HINT_VSYNC H) 100000 (i2\<lparr>lp_max_frequency := lp,
        interaction_boost_frequency := first_at_least 1200000 lp (available_frequencies i2),
        animation_boost_frequency := first_at_least 1000000 lp (available_frequencies i2)\<rparr>) = Inr i3"
      "set_interval (POWER_HINT_INTERACTION H) 100000 i3 = Inr i4" "set_interval (POWER_HINT_LAUNCH H) 2000000 i4 = Inr i'"
    using assms(1) 1 2 by (auto simp: common_power_open_def bind_res_Inr Let_def case_prod_beta)
  moreover have "info_ok (i2\<lparr>lp_max_frequency := lp,
        interaction_boost_frequency := first_at_least 1200000 lp (available_frequencies i2),
        animation_boost_frequency := first_at_least 1000000 lp (available_frequencies i2)\<rparr>)"
    using r by (simp add: info_ok_def)
  then have "info_ok i'" using set_interval_ok 3 by blast
  ultimately show ?thesis using r pi by (auto simp: set_interval_def split: if_splits)
qed

lemma common_power_init_ok:
  assumes "common_power_init H now i s = Inr (i', s')" "info_ok i"
  shows "info_ok i' \<and> 0 < num_available_frequencies i' \<and> max_frequency i' = last (available_frequencies i')"
proof -
  obtain i1 s1 where 1: "common_power_open H now i s = Inr (i1, s1)"
      "\<exists>fe. boost DEFAULT_MAX_ONLINE_CPUS (s2ns 60) (i1\<lparr>ftrace_enable := fe\<rparr>) = Inr i'"
    using assms(1) by (auto simp: common_power_init_def bind_res_Inr Let_def)
  then obtain fe where b: "boost DEFAULT_MAX_ONLINE_CPUS (s2ns 60) (i1\<lparr>ftrace_enable := fe\<rparr>) = Inr i'" by blast
  note o = common_power_open_ok [OF 1(1) assms(2)]
  then have "info_ok (i1\<lparr>ftrace_enable := fe\<rparr>)" by (simp add: info_ok_def)
  from boost_ok [OF this b] boost_fields [OF b] o show ?thesis by auto
qed

lemma set_interactive_ok:
  assumes "common_power_set_interactive H (Some i) on s = Inr (r, s')" "info_ok i"
  shows "\<exists>i'. r = Some i' \<and> info_ok i'"
  using assms boost_ok by (auto simp: common_power_set_interactive_def bind_res_Inr Let_def split: if_splits)

section \<open>A hint and its boost\<close>

text \<open>Two requests that the looper has handled, one after the other, on an idle poker.\<close>

lemma timed_delivery:
  assumes "fresh_fds E" "watches A" "poker_inv p" "mMessages p = (mNow p, k) # ms"
    "mQueuedEvents p k = Some (PmQosOpenTimedEvent n t)" "key_room p" "f_open E (pcalls p) (node n) = Inr d"
  shows "\<exists>p'. deliver E A 0 p = Inr p' \<and> poker_inv p' \<and> key_room p' \<and> mNow p' = mNow p \<and>
    boosts p' = insert (d, node n, node_value n, mNow p + t) (boosts p) \<and>
    mMessages p' = ms @ [(mNow p + t, mKey p)] \<and>
    mQueuedEvents p' = (mQueuedEvents p)(k := None, mKey p \<mapsto> TimeoutEvent d)"
proof -
  have inv: "queue_ok p" "fds_ok p" using assms(3) by (simp_all add: poker_inv_def)
  have i: "0 < length (mMessages p)" and k: "snd (mMessages p ! 0) = k" using assms(4) by simp_all
  have e: "deliver E A 0 p = run_event E A (PmQosOpenTimedEvent n t) (taken 0 p)"
    using deliver_eq [OF inv(1) i, of E A] assms(5) k by auto
  obtain p' where p': "deliver E A 0 p = Inr p'" "key_room p'"
    using deliver_progress [OF inv(1) assms(6) i, of E A] by blast
  have r: "run_timed E n t (taken 0 p) = Inr p'" using e p'(1) by simp
  have ne: "\<And>d. PmQosOpenTimedEvent n t \<noteq> TimeoutEvent d" by simp
  note ev = assms(5) [folded k]
  have f: "fds_ok (taken 0 p)" by (rule fds_ok_cong [OF inv(2)]) (simp_all add: taken_holds_same [OF ev ne])
  have o: "f_open E (pcalls (taken 0 p)) (node n) = Inr d" using assms(7) by simp
  note b = run_timed_opened [OF assms(1) taken_queue_ok [OF inv(1) i] f r o]
  have s: "sendEventDelayed t (TimeoutEvent d) (pcall (value_call d (node_value n)) (pcall (FOpen (node n) (Some d)) (taken 0 p))) = Inr p'"
    using r o by (simp add: run_timed_eq open_node_def)
  have "mMessages p' = ms @ [(mNow p + t, mKey p)]" "mQueuedEvents p' = (mQueuedEvents p)(k := None, mKey p \<mapsto> TimeoutEvent d)"
    using s new_key [OF inv(1)] k assms(4) by (auto simp: sendEventDelayed_Inr taken_def)
  moreover have "poker_inv p'"
    using poker_step_keeps [OF assms(1,2) poker_step.Deliver [OF i _ p'(1)] assms(3)] assms(4) by simp
  ultimately show ?thesis using p' b taken_boosts(1) [OF inv(1) i ev ne] by simp
qed

lemma request_pair:
  assumes "queue_ok p" "requestPmQosTimed_val f v t p = Inr q" "requestPmQosTimed_val g w t q = Inr p'"
  shows "mQueuedEvents p' = (mQueuedEvents p)(mKey p \<mapsto> PmQosOpenTimedEvent (default_node f v) t,
      mKey p + 1 \<mapsto> PmQosOpenTimedEvent (default_node g w) t)"
    "mMessages p' = mMessages p @ [(mNow p, mKey p), (mNow p, mKey p + 1)]" "mKey p' = mKey p + 2" "mNow p' = mNow p"
    "pcalls p' = pcalls p"
proof -
  have "queue_ok q"
    using send_queue_ok [OF assms(1)] assms(2) unfolding requestPmQosTimed_val_def pushEvent_def by blast
  with assms new_key [OF assms(1)] new_key [of q]
  show "mQueuedEvents p' = (mQueuedEvents p)(mKey p \<mapsto> PmQosOpenTimedEvent (default_node f v) t,
      mKey p + 1 \<mapsto> PmQosOpenTimedEvent (default_node g w) t)"
    "mMessages p' = mMessages p @ [(mNow p, mKey p), (mNow p, mKey p + 1)]" "mKey p' = mKey p + 2" "mNow p' = mNow p"
    "pcalls p' = pcalls p"
    by (auto simp: requestPmQosTimed_val_def pushEvent_def sendEventDelayed_Inr)
qed

lemma default_node_value: "node (default_node f x) = f" "node_value (default_node f x) = QVal x"
  by (simp_all add: default_node_def node_value.simps NODE_TYPE_DEFAULT_def NODE_TYPE_PRIORITY_def)

lemma pair_delivery:
  assumes "fresh_fds E" "watches A" "poker_inv p" "mMessages p = []" "mKey p < 2147483640"
    and "requestPmQosTimed_val f v t p = Inr a" "requestPmQosTimed_val g w t a = Inr p0"
    and "\<And>cs f. \<exists>d. f_open E cs f = Inr d"
  shows "\<exists>p1 p2 d e. deliver E A 0 p0 = Inr p1 \<and> deliver E A 0 p1 = Inr p2 \<and>
    boosts p2 = {(d, f, QVal v, mNow p + t), (e, g, QVal w, mNow p + t)}"
proof -
  have q: "queue_ok p" using assms(3) by (simp add: poker_inv_def)
  note r = request_pair [OF q assms(6,7)]
  have "poker_inv a" using poker_step_keeps [OF assms(1,2) poker_step.Timed_val [OF assms(6)] assms(3)] .
  then have i0: "poker_inv p0" using poker_step_keeps [OF assms(1,2) poker_step.Timed_val [OF assms(7)]] by blast
  have "mQueuedEvents p = Map.empty" using q assms(4) by (auto simp: queue_ok_def)
  then have b0: "boosts p0 = {}" using r(1) by (auto simp: boosts_def split: if_splits)
  have k: "key_room p0" using r assms(4,5) by (simp add: key_room_def poker_weight_def weight_in_def)
  obtain d where d: "f_open E (pcalls p0) f = Inr d" using assms(8) by blast
  have m0: "mMessages p0 = (mNow p0, mKey p) # [(mNow p, mKey p + 1)]" using r assms(4) by simp
  obtain p1 where p1: "deliver E A 0 p0 = Inr p1" "poker_inv p1" "key_room p1" "mNow p1 = mNow p"
      "boosts p1 = {(d, f, QVal v, mNow p + t)}" "mMessages p1 = [(mNow p, mKey p + 1), (mNow p + t, mKey p + 2)]"
      "mQueuedEvents p1 (mKey p + 1) = Some (PmQosOpenTimedEvent (default_node g w) t)"
    using timed_delivery [OF assms(1,2) i0 m0, of "default_node f v" t d] r d k b0 default_node_value by auto
  obtain e where e: "f_open E (pcalls p1) g = Inr e" using assms(8) by blast
  have m1: "mMessages p1 = (mNow p1, mKey p + 1) # [(mNow p + t, mKey p + 2)]" using p1 by simp
  obtain p2 where "deliver E A 0 p1 = Inr p2" "boosts p2 = {(d, f, QVal v, mNow p + t), (e, g, QVal w, mNow p + t)}"
    using timed_delivery [OF assms(1,2) p1(2) m1 p1(7) p1(3), of e] e p1(4,5) default_node_value
    by (auto simp: insert_commute)
  with p1(1) show ?thesis by blast
qed

section \<open>Initializing again\<close>

text \<open>
  \<open>common_power_open\<close> makes a new poker without looking at the old one. A HAL that is opened
  and then initialized, or initialized twice, keeps no pointer to the first poker: its thread, its
  node handles and its queue of time-outs go on without an owner.
\<close>

lemma scan_inputs_poker:
  "scan_inputs H (i\<lparr>mTimeoutPoker := p\<rparr>) s =
     map_option (\<lambda>(i', s'). (i'\<lparr>mTimeoutPoker := p\<rparr>, s')) (scan_inputs H i s)"
  by (cases i) (simp add: scan_inputs_def option.map_comp o_def case_prod_unfold)

lemma open_forgets_poker:
  "common_power_open H now (i\<lparr>mTimeoutPoker := p\<rparr>) s = common_power_open H now i s"
  by (simp add: common_power_open_def scan_inputs_poker split: option.split)

lemma init_forgets_poker:
  "common_power_init H now (i\<lparr>mTimeoutPoker := p\<rparr>) s = common_power_init H now i s"
  by (simp add: common_power_init_def open_forgets_poker)

end
