(* ===== verification/Power_System.thy ===== *)
theory Power_System
  imports PowerHal_Thms
begin

text \<open>
  The power HAL as a whole: the framework's calls through the table of \<open>tegra3_power.cpp\<close>
  and the looper thread of the timeout poker, as one step relation. The HAL's own thread closes
  every file within the call that opens it; what stays open belongs to the poker. The two threads
  use different descriptors of one process, so each keeps its own history of calls.
\<close>

section \<open>Steps of the whole HAL\<close>

text \<open>What the looper thread does when nobody else uses the poker: messages that are due, and time.\<close>

inductive looper_step :: "file_env \<Rightarrow> (fcall list \<Rightarrow> fd \<Rightarrow> bool) \<Rightarrow> poker \<Rightarrow> poker \<Rightarrow> bool" for E A where
  Deliver: "i < length (mMessages p) \<Longrightarrow> fst (mMessages p ! i) \<le> mNow p \<Longrightarrow> deliver E A i p = Inr p' \<Longrightarrow>
      looper_step E A p p'"
| Tick: "0 \<le> d \<Longrightarrow> looper_step E A p (p\<lparr>mNow := mNow p + d\<rparr>)"

text \<open>
  The library as it is loaded, then initialized or opened. After that come hints at any time, the
  screen, features, further openings, and the looper. A second initialization is left out: it makes
  a second poker and forgets the first (\<open>init_forgets_poker\<close>).
\<close>

definition loaded :: power where
  "loaded = \<lparr>pInfo = None, static_devs = initial_devs, hcalls = []\<rparr>"

inductive power_step :: "hal_env \<Rightarrow> (fcall list \<Rightarrow> fd \<Rightarrow> bool) \<Rightarrow> power \<Rightarrow> power \<Rightarrow> bool" for H A where
  Hint: "tegra3_power_hint H hint data ts s = Inr s' \<Longrightarrow> power_step H A s s'"
| Interactive: "tegra3_power_set_interactive H on s = Inr s' \<Longrightarrow> power_step H A s s'"
| Feature: "power_step H A s (tegra3_set_feature H feature state s)"
| Open: "tegra3_power_open H now name s = Inr (r, given, s') \<Longrightarrow> power_step H A s s'"
| Looper: "pInfo s = Some i \<Longrightarrow> mTimeoutPoker i = Some p \<Longrightarrow> looper_step (kernel H) A p p' \<Longrightarrow>
      power_step H A s (s\<lparr>pInfo := Some (i\<lparr>mTimeoutPoker := Some p'\<rparr>)\<rparr>)"

inductive power_reach :: "hal_env \<Rightarrow> (fcall list \<Rightarrow> fd \<Rightarrow> bool) \<Rightarrow> power \<Rightarrow> bool" for H A where
  Init: "tegra3_power_init H now loaded = Inr s \<Longrightarrow> power_reach H A s"
| Opened: "tegra3_power_open H now name loaded = Inr (0, True, s) \<Longrightarrow> power_reach H A s"
| Step: "power_reach H A s \<Longrightarrow> power_step H A s s' \<Longrightarrow> power_reach H A s'"

inductive_cases looper_stepE: "looper_step E A p p'"
inductive_cases power_stepE: "power_step H A s s'"

section \<open>The poker inside the HAL\<close>

text \<open>What the HAL asks for, given the highest frequency.\<close>

definition hal_request :: "int \<Rightarrow> string \<Rightarrow> qval \<Rightarrow> bool" where
  "hal_request mx f v \<longleftrightarrow> f = ''/dev/cpu_freq_min'' \<and> v = QVal mx \<or>
     f = ''/dev/min_online_cpus'' \<and> v \<in> {QVal DEFAULT_MIN_ONLINE_CPUS, QVal DEFAULT_MAX_ONLINE_CPUS}"

text \<open>
  The queue of a poker that only the HAL uses: nobody waits for a handle, every request is one of
  the HAL's, and nothing is due later than a minute from now.
\<close>

definition hal_poker :: "int \<Rightarrow> poker \<Rightarrow> bool" where
  "hal_poker mx p \<longleftrightarrow> mListeners p = Map.empty \<and> callers p = {} \<and>
     (\<forall>k n c. mQueuedEvents p k \<noteq> Some (PmQosOpenHandleEvent n c)) \<and>
     (\<forall>k n t. mQueuedEvents p k = Some (PmQosOpenTimedEvent n t) \<longrightarrow>
        hal_request mx (node n) (node_value n) \<and> t \<le> s2ns 60) \<and>
     (\<forall>m \<in> set (mMessages p). fst m \<le> mNow p + s2ns 60) \<and>
     (\<forall>(d, f, v, t) \<in> boosts p. hal_request mx f v)"

lemma looper_step_poker: "looper_step E A p p' \<Longrightarrow> poker_step E A p p'"
  by (auto elim!: looper_stepE intro: poker_step.intros)

lemma tick_boosts: "boosts (p\<lparr>mNow := t\<rparr>) = boosts p"
  by (simp add: boosts_def)

lemma run_timed_fields:
  assumes "queue_ok p" "run_timed E n t p = Inr p'"
  shows "mListeners p' = mListeners p" "callers p' = callers p" "mNow p' = mNow p"
    "set (mMessages p') \<subseteq> insert (mNow p + t, mKey p) (set (mMessages p))"
    "mQueuedEvents p' k = Some e \<Longrightarrow> (\<exists>d. e = TimeoutEvent d) \<or> mQueuedEvents p k = Some e"
  using assms new_key [of "pcall _ (pcall _ p)"]
  by (auto simp: run_timed_eq open_node_def sendEventDelayed_Inr split: sum.splits if_splits)

lemma deliver_hal:
  assumes "fresh_fds E" "poker_inv p" "hal_poker mx p" "i < length (mMessages p)" "deliver E A i p = Inr p'"
  shows "hal_poker mx p'"
proof -
  have inv: "queue_ok p" "fds_ok p" "held_ok p" using assms(2) by (simp_all add: poker_inv_def)
  obtain e where e: "mQueuedEvents p (snd (mMessages p ! i)) = Some e" "run_event E A e (taken i p) = Inr p'"
    using deliver_eq [OF inv(1) assms(4), of E A] assms(5) by auto
  have ms: "set (mMessages (taken i p)) \<subseteq> set (mMessages p)"
    by (auto simp: taken_def dest: in_set_takeD in_set_dropD)
  show ?thesis
  proof (cases e)
    case (PmQosOpenTimedEvent n t)
    have req: "hal_request mx (node n) (node_value n)" "t \<le> s2ns 60"
      using assms(3) e(1) PmQosOpenTimedEvent by (auto simp: hal_poker_def)
    have r: "run_timed E n t (taken i p) = Inr p'" using e(2) PmQosOpenTimedEvent by simp
    note q = taken_queue_ok [OF inv(1) assms(4)]
    have ne: "\<And>d. e \<noteq> TimeoutEvent d" by (simp add: PmQosOpenTimedEvent)
    note b = taken_boosts(1) [OF inv(1) assms(4) e(1) ne]
    have f: "fds_ok (taken i p)" by (rule fds_ok_cong [OF inv(2)]) (simp_all add: taken_holds_same [OF e(1) ne])
    note rf = run_timed_fields [OF q r]
    have bo: "boosts p' = boosts p \<or>
        (\<exists>d. boosts p' = insert (d, node n, node_value n, mNow p + t) (boosts p))"
      using run_timed_opened(1) [OF assms(1) q f r] run_timed_failed(1) [OF r] b
      by (cases "f_open E (pcalls (taken i p)) (node n)") auto
    have "\<forall>m \<in> set (mMessages p'). fst m \<le> mNow p' + s2ns 60"
      using rf(3,4) ms req(2) assms(3) by (fastforce simp: hal_poker_def)
    moreover have "\<forall>(d, f, v, t) \<in> boosts p'. hal_request mx f v"
      using bo req(1) assms(3) by (auto simp: hal_poker_def)
    moreover
    have "mQueuedEvents p' k = Some x \<Longrightarrow> (\<exists>d. x = TimeoutEvent d) \<or> mQueuedEvents p k = Some x" for k x
      using rf(5) [of k x] by (auto split: if_splits)
    then have q: "mQueuedEvents p' k = Some (PmQosOpenTimedEvent m u) \<Longrightarrow> mQueuedEvents p k = Some (PmQosOpenTimedEvent m u)"
        "mQueuedEvents p' k = Some (PmQosOpenHandleEvent m c) \<Longrightarrow> mQueuedEvents p k = Some (PmQosOpenHandleEvent m c)" for k m u c
      by blast+
    have "\<forall>k n c. mQueuedEvents p' k \<noteq> Some (PmQosOpenHandleEvent n c)"
      using q(2) assms(3) unfolding hal_poker_def by blast
    moreover have "\<forall>k n t. mQueuedEvents p' k = Some (PmQosOpenTimedEvent n t) \<longrightarrow>
        hal_request mx (node n) (node_value n) \<and> t \<le> s2ns 60"
      using q(1) assms(3) unfolding hal_poker_def by blast
    moreover have "mListeners p' = Map.empty" "callers p' = {}" using rf(1,2) assms(3) by (simp_all add: hal_poker_def)
    ultimately show ?thesis unfolding hal_poker_def by blast
  next
    case (PmQosOpenHandleEvent n c)
    with e(1) assms(3) show ?thesis by (auto simp: hal_poker_def)
  next
    case (TimeoutEvent d)
    with e have p': "p' = timeoutRequest d (taken i p)" and d: "mQueuedEvents p (snd (mMessages p ! i)) = Some (TimeoutEvent d)"
      by simp_all
    have "boosts p' \<subseteq> boosts p" using timeout_boosts(1) [OF inv assms(4) d p'] by auto
    with assms(3) ms show ?thesis by (auto simp: hal_poker_def p' timeoutRequest_def)
  qed
qed

lemma looper_step_hal:
  assumes "fresh_fds E" "poker_inv p" "hal_poker mx p" "looper_step E A p p'"
  shows "hal_poker mx p'"
  using assms(4)
proof cases
  case (Deliver i)
  with deliver_hal [OF assms(1-3)] show ?thesis by blast
next
  case (Tick d)
  with assms(3) show ?thesis by (fastforce simp: hal_poker_def tick_boosts)
qed

text \<open>A request of the HAL.\<close>

lemma request_hal:
  assumes "queue_ok p" "hal_poker mx p" "requestPmQosTimed_val f v t p = Inr p'"
    and "hal_request mx f (QVal v)" "t \<le> s2ns 60"
  shows "hal_poker mx p'" "boosts p' = boosts p" "mNow p' = mNow p" "queue_ok p'"
proof -
  let ?e = "PmQosOpenTimedEvent (default_node f v) t"
  have r: "pushEvent ?e p = Inr p'" using assms(3) by (simp add: requestPmQosTimed_val_def)
  then have s: "sendEventDelayed 0 ?e p = Inr p'" by (simp add: pushEvent_def)
  show b: "boosts p' = boosts p" "mNow p' = mNow p" using push_boosts [OF assms(1) r] by simp_all
  show "queue_ok p'" by (rule send_queue_ok [OF assms(1) s])
  have "0 \<le> s2ns 60" by (simp add: s2ns_def)
  with assms(2,4,5) b s new_key [OF assms(1)] show "hal_poker mx p'"
    by (auto simp: hal_poker_def sendEventDelayed_Inr default_node_value)
qed

section \<open>The invariant\<close>

definition power_inv :: "hal_env \<Rightarrow> (fcall list \<Rightarrow> fd \<Rightarrow> bool) \<Rightarrow> power \<Rightarrow> bool" where
  "power_inv H A s \<longleftrightarrow> fds (hcalls s) = {} \<and>
     (\<exists>i p. pInfo s = Some i \<and> mTimeoutPoker i = Some p \<and> info_ok i \<and> 0 < num_available_frequencies i \<and>
        max_frequency i = last (available_frequencies i) \<and>
        (input_devs i \<longrightarrow> input_cnt i = int (length (static_devs s))) \<and>
        poker_reach (kernel H) A p \<and> hal_poker (max_frequency i) p)"

definition the_poker :: "power \<Rightarrow> poker" where
  "the_poker s = the (mTimeoutPoker (the (pInfo s)))"

definition abs_power :: "power \<Rightarrow> promise" where
  "abs_power s = abs_poker (the_poker s)"

section \<open>Every step keeps the invariant\<close>

lemma poker_reach_queue: "poker_reach E A p \<Longrightarrow> fresh_fds E \<Longrightarrow> watches A \<Longrightarrow> queue_ok p"
  using poker_reach_inv by (auto simp: poker_inv_def)

lemma boost_keeps:
  assumes "fresh_fds (kernel H)" "watches A" "boost c t i = Inr i'" "c \<in> {DEFAULT_MIN_ONLINE_CPUS, DEFAULT_MAX_ONLINE_CPUS}"
    and "t \<le> s2ns 60" "mTimeoutPoker i = Some p" "poker_reach (kernel H) A p" "hal_poker (max_frequency i) p"
  shows "\<exists>p'. i' = i\<lparr>mTimeoutPoker := Some p'\<rparr> \<and> poker_reach (kernel H) A p' \<and> hal_poker (max_frequency i) p' \<and>
    (boost_step (refusable (kernel H)))\<^sup>*\<^sup>* (abs_poker p) (abs_poker p')"
proof -
  obtain q p' where r: "requestPmQosTimed_val ''/dev/cpu_freq_min'' (max_frequency i) t p = Inr q"
      "requestPmQosTimed_val ''/dev/min_online_cpus'' c t q = Inr p'" "i' = i\<lparr>mTimeoutPoker := Some p'\<rparr>"
    using boost_fields [OF assms(3)] assms(6) by auto
  have h: "hal_request (max_frequency i) ''/dev/cpu_freq_min'' (QVal (max_frequency i))"
      "hal_request (max_frequency i) ''/dev/min_online_cpus'' (QVal c)"
    using assms(4) by (auto simp: hal_request_def)
  note 1 = request_hal [OF poker_reach_queue [OF assms(7,1,2)] assms(8) r(1) h(1) assms(5)]
  note 2 = request_hal [OF 1(4,1) r(2) h(2) assms(5)]
  note q = poker_reach.Step [OF assms(7) poker_step.Timed_val [OF r(1)]]
  have s: "boost_step (refusable (kernel H)) (abs_poker p) (abs_poker q)" "boost_step (refusable (kernel H)) (abs_poker q) (abs_poker p')"
    using poker_step_refines [OF assms(1,2) poker_step.Timed_val [OF r(1)] poker_reach_inv [OF assms(7,1,2)]]
      poker_step_refines [OF assms(1,2) poker_step.Timed_val [OF r(2)] poker_reach_inv [OF q assms(1,2)]] by blast+
  then have "(boost_step (refusable (kernel H)))\<^sup>*\<^sup>* (abs_poker p) (abs_poker p')"
    by (meson converse_rtranclp_into_rtranclp r_into_rtranclp)
  with r(3) 2(1) poker_reach.Step [OF q poker_step.Timed_val [OF r(2)]] show ?thesis by blast
qed

text \<open>The table after a call that may have made one boost.\<close>

definition boosted :: "hal_env \<Rightarrow> (fcall list \<Rightarrow> fd \<Rightarrow> bool) \<Rightarrow> powerhal_info \<Rightarrow> powerhal_info \<Rightarrow> bool" where
  "boosted H A i i' \<longleftrightarrow> i' = i \<or> (\<exists>c t. boost c t i = Inr i' \<and> c \<in> {DEFAULT_MIN_ONLINE_CPUS, DEFAULT_MAX_ONLINE_CPUS} \<and> t \<le> s2ns 60)"

lemma boosted_inv:
  assumes "fresh_fds (kernel H)" "watches A" "power_inv H A s" "pInfo s = Some i" "boosted H A i j"
    and "info_ok (j\<lparr>hint_time := ts\<rparr>)" "fds (hcalls s') = fds (hcalls s)" "static_devs s' = static_devs s"
    and "pInfo s' = Some (j\<lparr>hint_time := ts\<rparr>)"
  shows "power_inv H A s' \<and> (boost_step (refusable (kernel H)))\<^sup>*\<^sup>* (abs_power s) (abs_power s')"
proof -
  obtain p where p: "mTimeoutPoker i = Some p" "poker_reach (kernel H) A p" "hal_poker (max_frequency i) p"
    using assms(3,4) by (auto simp: power_inv_def)
  obtain p' where "j = i\<lparr>mTimeoutPoker := Some p'\<rparr>" "poker_reach (kernel H) A p'" "hal_poker (max_frequency i) p'"
      "(boost_step (refusable (kernel H)))\<^sup>*\<^sup>* (abs_poker p) (abs_poker p')"
  proof (cases "j = i")
    case True
    with p show ?thesis by (intro that [of p]) simp_all
  next
    case False
    with assms(5) boost_keeps [OF assms(1,2) _ _ _ p] that show ?thesis by (auto simp: boosted_def)
  qed
  with assms p show ?thesis by (auto simp: power_inv_def abs_power_def the_poker_def)
qed

lemma hint_boosted:
  assumes "common_power_hint H (Some i) hint data ts = Inr r"
  shows "\<exists>j t. boosted H A i j \<and> r = Some (j\<lparr>hint_time := t\<rparr>)"
proof (cases "check_hint i hint ts")
  case None
  with assms show ?thesis by (intro exI [of _ i] exI [of _ "hint_time i"]) (simp add: common_power_hint_def boosted_def)
next
  case (Some t)
  then obtain j where "r = Some (j\<lparr>hint_time := (hint_time j)[hint := t]\<rparr>)"
      "j = i \<or> boost DEFAULT_MAX_ONLINE_CPUS (ms2ns 100) i = Inr j \<or> boost DEFAULT_MIN_ONLINE_CPUS (ms2ns 100) i = Inr j \<or>
        boost DEFAULT_MAX_ONLINE_CPUS (s2ns 2) i = Inr j"
    using assms by (auto simp: common_power_hint_def bind_res_Inr split: if_splits)
  moreover have "ms2ns 100 \<le> s2ns 60" "s2ns 2 \<le> s2ns 60" by (simp_all add: ms2ns_def s2ns_def)
  ultimately show ?thesis unfolding boosted_def by blast
qed

lemma interactive_boosted:
  assumes "common_power_set_interactive H (Some i) on s = Inr (r, s')"
  shows "\<exists>j. boosted H A i j \<and> r = Some j \<and> static_devs s' = static_devs s"
  using assms by (fastforce simp: common_power_set_interactive_def bind_res_Inr Let_def boosted_def s2ns_def split: if_splits)

lemma set_feature_fds:
  assumes "fresh_fds (kernel H)"
  shows "fds (hcalls (tegra3_set_feature H f st s)) = fds (hcalls s)" "pInfo (tegra3_set_feature H f st s) = pInfo s"
    "static_devs (tegra3_set_feature H f st s) = static_devs s"
  by (simp_all add: tegra3_set_feature_def sysfs_write_fds [OF assms])

lemma power_step_keeps:
  assumes "fresh_fds (kernel H)" "watches A" "power_step H A s s'" "power_inv H A s"
  shows "power_inv H A s' \<and> (boost_step (refusable (kernel H)))\<^sup>*\<^sup>* (abs_power s) (abs_power s')"
proof -
  obtain i p where i: "pInfo s = Some i" "mTimeoutPoker i = Some p" "info_ok i" "poker_reach (kernel H) A p"
      "hal_poker (max_frequency i) p" using assms(4) by (auto simp: power_inv_def)
  from assms(3) show ?thesis
  proof cases
    case (Hint hint data ts)
    then obtain r where r: "common_power_hint H (Some i) hint data ts = Inr r" "s' = s\<lparr>pInfo := r\<rparr>"
      using i(1) by (auto simp: tegra3_power_hint_def bind_res_Inr)
    from hint_boosted [OF r(1), of A] common_power_hint_ok [OF r(1) i(3)] r(2)
      boosted_inv [OF assms(1,2,4) i(1), where s' = s'] show ?thesis by fastforce
  next
    case (Interactive on)
    then obtain r u where r: "common_power_set_interactive H (Some i) on s = Inr (r, u)" "s' = u\<lparr>pInfo := r\<rparr>"
      using i(1) by (auto simp: tegra3_power_set_interactive_def bind_res_Inr)
    obtain j where j: "boosted H A i j" "r = Some j" "static_devs u = static_devs s"
      using interactive_boosted [OF r(1)] by blast
    have "info_ok (j\<lparr>hint_time := hint_time j\<rparr>)" using set_interactive_ok [OF r(1) i(3)] j(2) by simp
    from boosted_inv [OF assms(1,2,4) i(1) j(1) this, of s'] set_interactive_fds [OF assms(1) r(1)] j r(2)
    show ?thesis by simp
  next
    case (Feature f st)
    with i assms(4) set_feature_fds [OF assms(1)] show ?thesis
      by (auto simp: power_inv_def abs_power_def the_poker_def)
  next
    case (Open now name r given)
    then have "s' = s" using i(1) by (auto simp: tegra3_power_open_def split: if_splits)
    with assms(4) show ?thesis by simp
  next
    case (Looper i' q p')
    then have e: "i' = i" "q = p" using i by auto
    note v = poker_reach_inv [OF i(4) assms(1,2)]
    have l: "looper_step (kernel H) A p p'" using Looper e by simp
    note st = looper_step_poker [OF l]
    have "(boost_step (refusable (kernel H)))\<^sup>*\<^sup>* (abs_poker p) (abs_poker p')"
      using poker_step_refines [OF assms(1,2) st v] by blast
    moreover have "hal_poker (max_frequency i) p'" by (rule looper_step_hal [OF assms(1) v i(5) l])
    ultimately show ?thesis using poker_reach.Step [OF i(4) st] Looper e i assms(4)
      by (auto simp: power_inv_def abs_power_def the_poker_def info_ok_def)
  qed
qed

interpretation power_sim: simulation
  "\<lambda>s s'. fresh_fds (kernel H) \<and> watches A \<and> power_step H A s s'" "power_inv H A" abs_power
  "(boost_step (refusable (kernel H)))\<^sup>*\<^sup>*" for H A
  by unfold_locales (auto dest: power_step_keeps)

section \<open>The start\<close>

text \<open>The two scans of the input devices only look: they leave no descriptor and keep the array's length.\<close>

lemma get_input_count_fds:
  "get_input_count_from E i cs = Some y \<Longrightarrow> fresh_fds E \<longrightarrow> fds (snd y) = fds cs"
proof (induction rule: get_input_count_from.raw_induct [rotated, consumes 1, case_names 1])
  case (1 f E i cs y)
  show ?case
  proof (cases "f_access E cs (input_path i ''name'')")
    case True
    from 1(1) [OF 1(2) [simplified True if_True not_True_eq_False if_False]] show ?thesis by (simp add: sysfs_read_fds)
  next
    case False
    with 1(2) show ?thesis by auto
  qed
qed

lemma match_devs_length: "length (snd (match_devs name i ds)) = length ds"
  by (induction ds) (auto simp: Let_def case_prod_beta)

lemma find_ids_keeps:
  "find_ids_from E cnt i count ds cs = Some y \<Longrightarrow>
   length (fst y) = length ds \<and> (fresh_fds E \<longrightarrow> fds (snd y) = fds cs)"
proof (induction rule: find_ids_from.raw_induct [rotated, consumes 1, case_names step])
  case (step f E cnt i count ds cs y)
  let ?p = "input_path i ''name''"
  let ?c = "FAccess ?p # cs"
  let ?r = "sysfs_read E ?p (replicate MAX_CHARS NUL) ?c"
  let ?m = "match_devs (fst ?r) i (take (nat cnt) ds)"
  let ?d = "snd ?m @ drop (nat cnt) ds"
  have len: "length ?d = length ds" by (simp add: match_devs_length)
  have r: "fresh_fds E \<Longrightarrow> fds (snd ?r) = fds cs" by (simp add: sysfs_read_fds)
  show ?case
  proof (cases "f_access E cs ?p")
    case False
    with step(2) show ?thesis by auto
  next
    case True
    with step(2) have e: "(if int (count + fst ?m) = cnt then Some (?d, snd ?r) else f E cnt (Suc i) (count + fst ?m) ?d (snd ?r)) = Some y"
      by (simp add: Let_def case_prod_beta)
    then consider "y = (?d, snd ?r)" | "f E cnt (Suc i) (count + fst ?m) ?d (snd ?r) = Some y"
      by (metis option.inject)
    then show ?thesis
    proof cases
      case 1
      with r show ?thesis by (simp only: fst_conv snd_conv len) blast
    next
      case 2
      from step(1) [OF 2] r show ?thesis by (simp only: len) blast
    qed
  qed
qed

lemma scan_inputs_keeps:
  assumes "scan_inputs H i s = Some (j, u)" "fresh_fds (kernel H)"
    and "input_devs i \<longrightarrow> input_cnt i = int (length (static_devs s)) \<and> static_devs s \<noteq> []"
  shows "fds (hcalls u) = fds (hcalls s)" "input_devs j = input_devs i"
    "input_devs j \<longrightarrow> input_cnt j = int (length (static_devs u))"
proof -
  have "fds (hcalls u) = fds (hcalls s) \<and> input_devs j = input_devs i \<and>
      (input_devs j \<longrightarrow> input_cnt j = int (length (static_devs u)))"
  proof (cases "input_devs i")
    case True
    with assms have c: "\<not> (\<not> input_devs i \<or> input_cnt i = 0)" by simp
    with assms(1) obtain y where y: "find_ids_from (kernel H) (input_cnt i) 0 0 (static_devs s) (hcalls s) = Some y"
        "j = i" "u = s\<lparr>static_devs := fst y, hcalls := snd y\<rparr>"
      by (auto simp: scan_inputs_def find_input_device_ids_def)
    from find_ids_keeps [OF y(1)] y(2,3) assms(2,3) True show ?thesis by simp
  next
    case False
    with assms(1) obtain y where y: "get_input_count_from (kernel H) 0 (hcalls s) = Some y"
        "j = i\<lparr>input_cnt := int (fst y)\<rparr>" "u = s\<lparr>hcalls := snd y\<rparr>"
      by (auto simp: scan_inputs_def get_input_count_def)
    from get_input_count_fds [OF y(1)] y(2,3) assms(2) False show ?thesis by simp
  qed
  then show "fds (hcalls u) = fds (hcalls s)" "input_devs j = input_devs i"
    "input_devs j \<longrightarrow> input_cnt j = int (length (static_devs u))" by blast+
qed

lemma read_frequencies_keeps:
  assumes "read_frequencies H i cs = Inr (j, b, cs')"
  shows "fresh_fds (kernel H) \<Longrightarrow> fds cs' = fds cs" "mTimeoutPoker j = mTimeoutPoker i" "input_devs j = input_devs i"
    "input_cnt j = input_cnt i"
proof -
  let ?r = "sysfs_read (kernel H) FREQS_PATH (replicate 256 NUL) cs"
  obtain b1 where "cs' = snd (sysfs_read (kernel H) FREQS_PATH b1 (snd ?r))"
      and j: "mTimeoutPoker j = mTimeoutPoker i" "input_devs j = input_devs i" "input_cnt j = input_cnt i"
    using assms by (auto simp: read_frequencies_def bind_res_Inr Let_def case_prod_beta split: if_splits)
  then show "fresh_fds (kernel H) \<Longrightarrow> fds cs' = fds cs" by (simp add: sysfs_read_fds)
  show "mTimeoutPoker j = mTimeoutPoker i" "input_devs j = input_devs i" "input_cnt j = input_cnt i" by (fact j)+
qed

lemma open_keeps:
  assumes "common_power_open H now i s = Inr (j, u)" "fresh_fds (kernel H)"
    and "input_devs i \<longrightarrow> input_cnt i = int (length (static_devs s)) \<and> static_devs s \<noteq> []"
  shows "\<exists>p. mTimeoutPoker j = Some p \<and> poker_reach (kernel H) A p \<and> hal_poker mx p \<and> fds (hcalls u) = fds (hcalls s) \<and>
    (input_devs j \<longrightarrow> input_cnt j = int (length (static_devs u)))"
proof -
  obtain i1 s1 p b where 1: "scan_inputs H i s = Some (i1, s1)"
      "TimeoutPoker (looper_prepared H) Barrier [] now = Some (p, b)"
    using assms(1) by (auto simp: common_power_open_def split: option.splits)
  obtain i2 b2 cs2 where 2: "read_frequencies H (i1\<lparr>mTimeoutPoker := Some p\<rparr>) (hcalls s1) = Inr (i2, b2, cs2)"
    using assms(1) 1 by (auto simp: common_power_open_def bind_res_Inr)
  have 3: "hcalls u = snd (sysfs_read (kernel H) IDLE_TOP_PATH b2 cs2)" "static_devs u = static_devs s1"
      "mTimeoutPoker j = mTimeoutPoker i2" "input_devs j = input_devs i2" "input_cnt j = input_cnt i2"
    using assms(1) 1 2
    by (auto simp: common_power_open_def bind_res_Inr Let_def case_prod_beta set_interval_def split: if_splits)
  have "looper_prepared H"
    using 1(2) by (simp add: TimeoutPoker_def PokeHandler_def readyToRun_def Barrier_def barrier_wait_def split: if_splits)
  with 1(2) have t: "TimeoutPoker True Barrier [] now = Some (p, b)" by simp
  then have "hal_poker mx p"
    by (auto simp: TimeoutPoker_def PokeHandler_def readyToRun_def barrier_open_def barrier_wait_def hal_poker_def boosts_def)
  with poker_reach.Start [OF t] 3 read_frequencies_keeps [OF 2] scan_inputs_keeps [OF 1(1) assms(2,3)] show ?thesis
    by (simp add: sysfs_read_fds assms(2))
qed

lemma power_reach_inv:
  assumes "power_reach H A s" "fresh_fds (kernel H)" "watches A"
  shows "power_inv H A s"
  using assms(1)
proof (induction rule: power_reach.induct)
  case (Init now s)
  let ?i = "calloc_info\<lparr>input_devs := True, input_cnt := int (length initial_devs)\<rparr>"
  obtain j u where c: "common_power_init H now ?i loaded = Inr (j, u)" "s = u\<lparr>pInfo := Some j\<rparr>"
    using Init by (auto simp: tegra3_power_init_def loaded_def bind_res_Inr split: if_splits)
  obtain k fe where o: "common_power_open H now ?i loaded = Inr (k, u)"
      "boost DEFAULT_MAX_ONLINE_CPUS (s2ns 60) (k\<lparr>ftrace_enable := fe\<rparr>) = Inr j"
    using c(1) by (auto simp: common_power_init_def bind_res_Inr Let_def)
  have "info_ok ?i" using calloc_info_ok by (simp add: info_ok_def)
  note v = common_power_init_ok [OF c(1) this]
  obtain p where p: "mTimeoutPoker k = Some p" "poker_reach (kernel H) A p" "hal_poker (max_frequency k) p"
      "fds (hcalls u) = {}" "input_devs k \<longrightarrow> input_cnt k = int (length (static_devs u))"
    using open_keeps [OF o(1) assms(2), of A "max_frequency k"] by (auto simp: loaded_def initial_devs_def)
  from boost_keeps [OF assms(2,3) o(2) _ _ _ p(2), of] p v c(2) show ?case
    by (auto simp: power_inv_def)
next
  case (Opened now name s)
  then obtain j u where o: "common_power_open H now calloc_info (loaded\<lparr>pInfo := Some calloc_info\<rparr>) = Inr (j, u)" "s = u\<lparr>pInfo := Some j\<rparr>"
    by (force simp: tegra3_power_open_def loaded_def bind_res_Inr Let_def split: if_splits)
  from open_keeps [OF o(1) assms(2), of A "max_frequency j"] common_power_open_ok [OF o(1) calloc_info_ok] o(2)
  show ?case by (auto simp: power_inv_def loaded_def calloc_info_def)
next
  case (Step s s')
  with power_step_keeps [OF assms(2,3)] show ?case by blast
qed

section \<open>Every call returns, and everything ends\<close>

lemma boost_returns:
  "mTimeoutPoker i = Some p \<Longrightarrow> mKey p < 2147483646 \<Longrightarrow> \<exists>i'. boost c t i = Inr i'"
  by (simp add: boost_def request_def requestPmQosTimed_val_def pushEvent_def sendEventDelayed_def generateNewKey_def)

lemma switch_inputs_returns:
  "have_devs \<longrightarrow> (\<forall>i \<in> set is. i < length ds) \<Longrightarrow> \<exists>cs'. switch_inputs E have_devs ds state is cs = Inr cs'"
  by (induction "is" arbitrary: cs) auto

lemma hint_returns:
  assumes "mTimeoutPoker i = Some p" "mKey p < 2147483646"
  shows "\<exists>r. common_power_hint H (Some i) hint data ts = Inr r"
proof -
  note b = boost_returns [OF assms]
  show ?thesis
    using b [of DEFAULT_MAX_ONLINE_CPUS "ms2ns 100"] b [of DEFAULT_MIN_ONLINE_CPUS "ms2ns 100"] b [of DEFAULT_MAX_ONLINE_CPUS "s2ns 2"]
    by (auto simp: common_power_hint_def split: option.split)
qed

lemma interactive_returns:
  assumes "mTimeoutPoker i = Some p" "mKey p < 2147483646" "input_devs i \<longrightarrow> input_cnt i = int (length (static_devs s))"
  shows "\<exists>r. common_power_set_interactive H (Some i) on s = Inr r"
proof -
  have "\<exists>cs'. switch_inputs (kernel H) (input_devs i) (static_devs s) state [0..<nat (input_cnt i)] cs = Inr cs'" for state cs
    by (rule switch_inputs_returns) (use assms(3) in auto)
  then obtain f where f: "\<And>state cs. switch_inputs (kernel H) (input_devs i) (static_devs s) state [0..<nat (input_cnt i)] cs = Inr (f state cs)"
    by metis
  obtain j where "boost DEFAULT_MAX_ONLINE_CPUS (s2ns 5) i = Inr j" using boost_returns [OF assms(1,2)] by blast
  with f show ?thesis by (simp add: common_power_set_interactive_def Let_def)
qed

text \<open>The looper's own order consists of steps of the looper.\<close>

lemma poll_all_steps:
  assumes "poll_all E A n p = Inr p'"
  shows "(looper_step E A)\<^sup>*\<^sup>* p p'"
  using assms
proof (induction n arbitrary: p)
  case (Suc n)
  show ?case
  proof (cases "mMessages p = []")
    case True
    with Suc.prems show ?thesis by simp
  next
    case False
    let ?i = "earliest (mMessages p)"
    let ?p = "p\<lparr>mNow := max (mNow p) (fst (mMessages p ! ?i))\<rparr>"
    have "?p = p\<lparr>mNow := mNow p + (max (mNow p) (fst (mMessages p ! ?i)) - mNow p)\<rparr>" by simp
    then have t: "looper_step E A p ?p" by (metis looper_step.Tick diff_ge_0_iff_ge max.cobounded1)
    obtain q where q: "deliver E A ?i ?p = Inr q" "poll_all E A n q = Inr p'"
      using Suc.prems False by (auto simp: poll_once_def Let_def bind_res_Inr)
    have "looper_step E A ?p q" by (rule looper_step.Deliver [OF _ _ q(1)]) (use earliest_less [OF False] in simp_all)
    with t Suc.IH [OF q(2)] show ?thesis by (meson converse_rtranclp_into_rtranclp)
  qed
qed simp

lemma looper_steps_power:
  assumes "(looper_step (kernel H) A)\<^sup>*\<^sup>* p p'" "pInfo s = Some i" "mTimeoutPoker i = Some p"
  shows "(power_step H A)\<^sup>*\<^sup>* s (s\<lparr>pInfo := Some (i\<lparr>mTimeoutPoker := Some p'\<rparr>)\<rparr>)"
  using assms(1)
proof (induction rule: rtranclp_induct)
  case base
  have "s\<lparr>pInfo := Some (i\<lparr>mTimeoutPoker := Some p\<rparr>)\<rparr> = s" using assms(2,3) by (cases s; cases i) simp
  then show ?case by simp
next
  case (step q r)
  have "power_step H A (s\<lparr>pInfo := Some (i\<lparr>mTimeoutPoker := Some q\<rparr>)\<rparr>) (s\<lparr>pInfo := Some (i\<lparr>mTimeoutPoker := Some r\<rparr>)\<rparr>)"
    using power_step.Looper [of "s\<lparr>pInfo := Some (i\<lparr>mTimeoutPoker := Some q\<rparr>)\<rparr>" "i\<lparr>mTimeoutPoker := Some q\<rparr>" q H A r] step(2)
    by simp
  with step(3) show ?case by (rule rtranclp.rtrancl_into_rtrancl)
qed

text \<open>The descriptors the poker holds for the HAL are those of the running boosts.\<close>

lemma hal_poker_open:
  assumes "poker_inv p" "hal_poker mx p"
  shows "open_handles fd_opens fd_closes (pcalls p) = fst ` boosts p"
proof -
  have inv: "queue_ok p" "fds_ok p" "held_ok p" using assms(1) by (simp_all add: poker_inv_def)
  have "(\<exists>w. holds p w d) \<longleftrightarrow> d \<in> fst ` boosts p" for d
  proof
    assume "\<exists>w. holds p w d"
    then obtain w where w: "holds p w d" by blast
    then obtain k where k: "mQueuedEvents p k = Some (TimeoutEvent d)"
      using assms(2) by (cases w) (auto simp: hal_poker_def)
    obtain f v where "qos_value d (pcalls p) = Some (f, Some v)" using inv(3) k unfolding held_ok_def by blast
    moreover have "k \<in> dom (mQueuedEvents p)" using k by blast
    then obtain t where "(t, k) \<in> set (mMessages p)" using inv(1) by (auto simp: queue_ok_def)
    ultimately have "(d, f, v, t) \<in> boosts p" using k by (intro boostsI)
    then show "d \<in> fst ` boosts p" by force
  next
    assume "d \<in> fst ` boosts p"
    then obtain k where "mQueuedEvents p k = Some (TimeoutEvent d)" by (auto simp: boosts_def)
    then have "holds p (TimedOwner k) d" by simp
    then show "\<exists>w. holds p w d" by blast
  qed
  with fds_ok_live [OF inv(2)] show ?thesis by blast
qed

lemma hal_poker_boost:
  assumes "hal_poker mx p" "(d, f, v, t) \<in> boosts p"
  shows "hal_request mx f v" "t \<le> mNow p + s2ns 60"
proof -
  show "hal_request mx f v" using assms unfolding hal_poker_def by blast
  show "t \<le> mNow p + s2ns 60" using assms by (auto simp: hal_poker_def in_boosts)
qed

text \<open>No call of the framework shortens a boost.\<close>

lemma power_boosts_last:
  assumes "fresh_fds (kernel H)" "watches A" "power_reach H A s" "(power_step H A)\<^sup>*\<^sup>* s s'"
    and "b \<in> boosts (the_poker s)" "mNow (the_poker s') < snd (snd (snd b))"
  shows "b \<in> boosts (the_poker s')"
proof -
  have "(\<lambda>s s'. fresh_fds (kernel H) \<and> watches A \<and> power_step H A s s')\<^sup>*\<^sup>* s s'" using assms(1,2,4) by simp
  from power_sim.steps_spec [OF this power_reach_inv [OF assms(3,1,2)]]
  have "(boost_step (refusable (kernel H)))\<^sup>*\<^sup>* (abs_power s) (abs_power s')" by simp
  from boost_steps_last [OF this, of b] assms(5,6) show ?thesis by (simp add: abs_power_def abs_poker_def)
qed

section \<open>From a hint to the kernel, whatever else is queued\<close>

text \<open>A timed request made at \<open>N\<close> under the key \<open>k\<close>: still queued, or its boost runs.\<close>

definition requested :: "int \<Rightarrow> int \<Rightarrow> qos_node \<Rightarrow> int \<Rightarrow> poker \<Rightarrow> bool" where
  "requested N k n t p \<longleftrightarrow> mNow p = N \<and>
     (mQueuedEvents p k = Some (PmQosOpenTimedEvent n t) \<and> (N, k) \<in> set (mMessages p) \<or>
      (\<exists>d. (d, node n, node_value n, N + t) \<in> boosts p))"

definition none_due :: "poker \<Rightarrow> bool" where
  "none_due p \<longleftrightarrow> (\<forall>m \<in> set (mMessages p). mNow p < fst m)"

lemma run_timed_queue:
  assumes "queue_ok p" "run_timed E n t p = Inr p'"
  shows "set (mMessages p) \<subseteq> set (mMessages p')" "mQueuedEvents p k = Some e \<Longrightarrow> mQueuedEvents p' k = Some e"
proof -
  obtain r q where o: "open_node E n p = (r, q)" by fastforce
  note q = open_node_queue [OF o]
  have "queue_ok q" using queue_ok_cong [OF assms(1)] q by simp
  note k = new_key [OF this]
  have "set (mMessages p) \<subseteq> set (mMessages p') \<and> (mQueuedEvents p k = Some e \<longrightarrow> mQueuedEvents p' k = Some e)"
  proof (cases r)
    case None
    with assms(2) o q show ?thesis by (simp add: run_timed_eq)
  next
    case (Some d)
    with assms(2) o have "sendEventDelayed t (TimeoutEvent d) q = Inr p'" by (simp add: run_timed_eq)
    with k q show ?thesis by (auto simp: sendEventDelayed_Inr)
  qed
  then show "set (mMessages p) \<subseteq> set (mMessages p')" "mQueuedEvents p k = Some e \<Longrightarrow> mQueuedEvents p' k = Some e"
    by blast+
qed

lemma deliver_other:
  assumes "queue_ok p" "i < length (mMessages p)" "deliver E A i p = Inr p'" "snd (mMessages p ! i) \<noteq> k"
    and "mQueuedEvents p k = Some e" "(N, k) \<in> set (mMessages p)"
  shows "mQueuedEvents p' k = Some e \<and> (N, k) \<in> set (mMessages p')"
proof -
  obtain x where x: "run_event E A x (taken i p) = Inr p'"
    using deliver_eq [OF assms(1,2), of E A] assms(3) by auto
  have "distinct (map snd (mMessages p))" using assms(1) by (simp add: queue_ok_def)
  note ms = taken_messages(1) [OF assms(2) this]
  have "mMessages p ! i \<noteq> (N, k)" using assms(4) by (metis snd_conv)
  with assms(6) have "(N, k) \<in> set (mMessages (taken i p))" unfolding ms by (metis Diff_iff singletonD)
  moreover have "mQueuedEvents (taken i p) k = Some e" using assms(4,5) by simp
  ultimately have t: "mQueuedEvents (taken i p) k = Some e" "(N, k) \<in> set (mMessages (taken i p))" by blast+
  show ?thesis
  proof (cases x)
    case (PmQosOpenTimedEvent n u)
    with x have "run_timed E n u (taken i p) = Inr p'" by simp
    from run_timed_queue [OF taken_queue_ok [OF assms(1,2)] this] t show ?thesis by blast
  next
    case (PmQosOpenHandleEvent n c)
    with x have "p' = run_handle E A n c (taken i p)" by simp
    with t show ?thesis by simp
  next
    case (TimeoutEvent d)
    with x have "p' = timeoutRequest d (taken i p)" by simp
    with t show ?thesis by (simp add: timeoutRequest_def)
  qed
qed

lemma deliver_now:
  "queue_ok p \<Longrightarrow> i < length (mMessages p) \<Longrightarrow> deliver E A i p = Inr p' \<Longrightarrow> mNow p' = mNow p"
  using deliver_eq [of p i E A] run_timed_fields(3) taken_queue_ok
  by (fastforce simp: timeoutRequest_def elim!: run_event.elims)

lemma requested_step:
  assumes "fresh_fds E" "watches A" "\<And>cs. \<exists>d. f_open E cs (node n) = Inr d"
    and "poker_inv p" "requested N k n t p" "0 < t" "looper_step E A p p'" "mNow p' = N"
  shows "requested N k n t p'"
proof -
  have inv: "queue_ok p" "fds_ok p" using assms(4) by (simp_all add: poker_inv_def)
  have N: "mNow p = N" using assms(5) by (simp add: requested_def)
  have bs: "boost_step (refusable E) (requests p, boosts p, N) (requests p', boosts p', N)"
    using poker_step_refines [OF assms(1,2) looper_step_poker [OF assms(7)] assms(4)] assms(8) N by (simp add: abs_poker_def)
  show ?thesis
  proof (cases "\<exists>d. (d, node n, node_value n, N + t) \<in> boosts p")
    case True
    with boost_lasts [OF bs] assms(6,8) show ?thesis unfolding requested_def by fastforce
  next
    case False
    then have q: "mQueuedEvents p k = Some (PmQosOpenTimedEvent n t)" "(N, k) \<in> set (mMessages p)"
      using assms(5) by (auto simp: requested_def)
    from assms(7) show ?thesis
    proof cases
      case (Tick d)
      with q N assms(8) show ?thesis by (simp add: requested_def)
    next
      case (Deliver i)
      show ?thesis
      proof (cases "snd (mMessages p ! i) = k")
        case False
        from deliver_other [OF inv(1) Deliver(1,3) this q] assms(8) show ?thesis by (simp add: requested_def)
      next
        case True
        have ev: "mQueuedEvents p (snd (mMessages p ! i)) = Some (PmQosOpenTimedEvent n t)" using True q(1) by simp
        then have r: "run_timed E n t (taken i p) = Inr p'"
          using deliver_eq [OF inv(1) Deliver(1), of E A] Deliver(3) by auto
        have f: "fds_ok (taken i p)" by (rule fds_ok_cong [OF inv(2)]) (simp_all add: taken_holds_same [OF ev])
        obtain d where "f_open E (pcalls (taken i p)) (node n) = Inr d" using assms(3) by blast
        from run_timed_opened(1) [OF assms(1) taken_queue_ok [OF inv(1) Deliver(1)] f r this] N assms(8)
        show ?thesis by (auto simp: requested_def)
      qed
    qed
  qed
qed

lemma looper_now:
  assumes "looper_step E A p p'" "queue_ok p"
  shows "mNow p \<le> mNow p'"
  using assms(1) by cases (use deliver_now [OF assms(2)] in auto)

text \<open>
  Whatever order the looper takes, when nothing is due any more and no time has passed the boost runs.
\<close>

lemma requested_steps:
  assumes "fresh_fds E" "watches A" "\<And>cs. \<exists>d. f_open E cs (node n) = Inr d"
    and "(looper_step E A)\<^sup>*\<^sup>* p p'" "poker_inv p" "requested N k n t p" "0 < t"
  shows "poker_inv p' \<and> N \<le> mNow p' \<and> (mNow p' = N \<longrightarrow> requested N k n t p')"
  using assms(4)
proof (induction rule: rtranclp_induct)
  case base
  with assms(5,6) show ?case by (simp add: requested_def)
next
  case (step q r)
  then have v: "poker_inv q" by simp
  have m: "mNow q \<le> mNow r" using looper_now [OF step(2)] v by (simp add: poker_inv_def)
  have "requested N k n t r" if r: "mNow r = N"
  proof -
    have "mNow q = N" using step(3) m r by auto
    with step(3) have "requested N k n t q" by blast
    from requested_step [OF assms(1-3) v this assms(7) step(2) r] show ?thesis .
  qed
  with m step(3) poker_step_keeps [OF assms(1,2) looper_step_poker [OF step(2)] v] show ?case by auto
qed

lemma requested_runs: "requested N k n t p \<Longrightarrow> none_due p \<Longrightarrow> \<exists>d. (d, node n, node_value n, N + t) \<in> boosts p"
  by (force simp: requested_def none_due_def)

text \<open>The looper's own order gets there without waiting.\<close>

lemma earliest_due:
  assumes "m \<in> set ms"
  shows "fst (ms ! earliest ms) \<le> fst m"
proof -
  have "ms \<noteq> []" using assms by auto
  from nth_length_takeWhile [of "\<lambda>m. fst m \<noteq> Min (fst ` set ms)" ms] earliest_less [OF this]
  have "fst (ms ! earliest ms) = Min (fst ` set ms)" by (simp add: earliest_def)
  with assms show ?thesis by simp
qed

lemma poll_due:
  assumes "fresh_fds E" "watches A" "poker_inv p" "key_room p" "poker_weight p \<le> w"
  shows "\<exists>n p'. poll_all E A n p = Inr p' \<and> mNow p' = mNow p \<and> none_due p'"
  using assms(3-5)
proof (induction w arbitrary: p rule: less_induct)
  case (less w)
  show ?case
  proof (cases "none_due p")
    case True
    then show ?thesis by (intro exI [of _ 0]) simp
  next
    case False
    then obtain m where m: "m \<in> set (mMessages p)" "fst m \<le> mNow p" by (auto simp: none_due_def)
    then have ne: "mMessages p \<noteq> []" by auto
    have now: "max (mNow p) (fst (mMessages p ! earliest (mMessages p))) = mNow p"
      using earliest_due [OF m(1)] m(2) by simp
    from poll_once_progress [OF assms(1,2) less.prems(1,2) ne] obtain q where
      q: "poll_once E A p = Inr q" "poker_inv q" "key_room q" "poker_weight q < poker_weight p" by blast
    have "deliver E A (earliest (mMessages p)) p = Inr q" using q(1) now by (simp add: poll_once_def Let_def)
    then have nq: "mNow q = mNow p" using deliver_now earliest_less [OF ne] less.prems(1) by (auto simp: poker_inv_def)
    from less.IH [of "poker_weight q" q] q less.prems(3) obtain n p' where
      "poll_all E A n q = Inr p'" "mNow p' = mNow q" "none_due p'" by auto
    with q(1) ne nq show ?thesis by (intro exI [of _ "Suc n"] exI [of _ p']) simp
  qed
qed

text \<open>The two requests of an accepted interaction or launch hint.\<close>

lemma hint_requests:
  assumes "hints_ok H" "info_ok i" "mTimeoutPoker i = Some p" "queue_ok p" "mKey p < 2147483646"
    and "hint = POWER_HINT_INTERACTION H \<or> hint = POWER_HINT_LAUNCH H" "check_hint i hint ts = Some time"
    and "t = (if hint = POWER_HINT_LAUNCH H then 2000000000 else 100000000)"
    and "c = (if hint = POWER_HINT_LAUNCH H then 4 else 2)"
  shows "\<exists>i' p'. common_power_hint H (Some i) hint data ts = Inr (Some i') \<and> hint_time i' ! hint = time \<and>
    mTimeoutPoker i' = Some p' \<and> mNow p' = mNow p \<and>
    requested (mNow p) (mKey p) (default_node ''/dev/cpu_freq_min'' (max_frequency i)) t p' \<and>
    requested (mNow p) (mKey p + 1) (default_node ''/dev/min_online_cpus'' c) t p' \<and>
    poker_weight p' = poker_weight p + 4 \<and> mKey p' = mKey p + 2"
proof -
  obtain q p' where r: "requestPmQosTimed_val ''/dev/cpu_freq_min'' (max_frequency i) t p = Inr q"
      "requestPmQosTimed_val ''/dev/min_online_cpus'' c t q = Inr p'"
    using assms(5) by (auto simp: requestPmQosTimed_val_def pushEvent_def sendEventDelayed_Inr)
  note rp = request_pair [OF assms(4) r]
  have s: "sendEventDelayed 0 (PmQosOpenTimedEvent (default_node ''/dev/cpu_freq_min'' (max_frequency i)) t) p = Inr q"
      "sendEventDelayed 0 (PmQosOpenTimedEvent (default_node ''/dev/min_online_cpus'' c) t) q = Inr p'"
    using r by (simp_all add: requestPmQosTimed_val_def pushEvent_def)
  have w: "poker_weight p' = poker_weight p + 4"
    using weight_send [OF assms(4) s(1)] weight_send [OF send_queue_ok [OF assms(4) s(1)] s(2)] by simp
  have "boost c t i = Inr (i\<lparr>mTimeoutPoker := Some p'\<rparr>)"
    using r assms(3) by (simp add: boost_def request_def)
  then have h: "common_power_hint H (Some i) hint data ts =
      Inr (Some (i\<lparr>mTimeoutPoker := Some p', hint_time := (hint_time i)[hint := time]\<rparr>))"
    using assms(1,6-9)
    by (auto simp: common_power_hint_def hints_ok_def s2ns_def ms2ns_def DEFAULT_MAX_ONLINE_CPUS_def DEFAULT_MIN_ONLINE_CPUS_def)
  have "hint < length (hint_time i)" using assms(1,2,6) by (auto simp: hints_ok_def info_ok_def MAX_POWER_HINT_COUNT_def)
  with h w rp show ?thesis
    by (intro exI [of _ "i\<lparr>mTimeoutPoker := Some p', hint_time := (hint_time i)[hint := time]\<rparr>"] exI [of _ p'])
      (simp add: requested_def)
qed

end
