(* ===== verification/Power_Props.thy ===== *)
theory Power_Props
  imports PowerHal_Thms
begin

text \<open>The properties of the power HAL and of its timeout poker, with witnesses.\<close>

section \<open>A poker to show the properties on\<close>

definition demo_kernel :: file_env where "demo_kernel = demo_files (\<lambda>p. Some [])"

definition demo_watch :: "fcall list \<Rightarrow> fd \<Rightarrow> bool" where "demo_watch cs h = True"

definition demo_idle :: poker where
  "demo_idle = \<lparr>mKey = 0, mQueuedEvents = Map.empty, mMessages = [], mListeners = Map.empty,
     outFd = Map.empty, callers = {}, mNow = 0, pcalls = []\<rparr>"

text \<open>One request, and the same after the looper has handled it.\<close>

definition demo_asked :: poker where
  "demo_asked = demo_idle\<lparr>mKey := 1, mQueuedEvents := [0 \<mapsto> PmQosOpenTimedEvent (default_node ''/dev/cpu_freq_min'' 1300000) 5],
     mMessages := [(0, 0)]\<rparr>"

definition demo_boosted :: poker where
  "demo_boosted = demo_idle\<lparr>mKey := 2, mQueuedEvents := [1 \<mapsto> TimeoutEvent 1], mMessages := [(5, 1)],
     pcalls := [FWriteVal 1 1300000, FOpen ''/dev/cpu_freq_min'' (Some 1)]\<rparr>"

lemma demo_kernel_fresh: "fresh_fds demo_kernel"
  by (simp add: demo_kernel_def demo_files_fresh)

lemma demo_watches: "watches demo_watch"
  by (simp add: watches_def demo_watch_def)

lemma demo_kernel_open: "f_open demo_kernel cs f = Inr (next_fd cs)"
  by (simp add: demo_kernel_def demo_files_def)

lemma demo_idle_reach: "poker_reach demo_kernel demo_watch demo_idle"
  by (rule poker_reach.Start [where now = 0 and b = OPENED])
    (simp add: TimeoutPoker_def PokeHandler_def readyToRun_def barrier_open_def barrier_wait_def demo_idle_def)

lemma demo_asked_step: "poker_step demo_kernel demo_watch demo_idle demo_asked"
  by (rule poker_step.Timed_val [where f = "''/dev/cpu_freq_min''" and v = 1300000 and t = 5])
    (simp add: requestPmQosTimed_val_def pushEvent_def sendEventDelayed_Inr demo_idle_def demo_asked_def)

lemma demo_deliver: "deliver demo_kernel demo_watch 0 demo_asked = Inr demo_boosted"
  by (simp add: deliver_def handleMessage_def removeEventByKey_def demo_asked_def demo_idle_def demo_boosted_def
      run_timed_def default_node_def NODE_TYPE_DEFAULT_def NODE_TYPE_PRIORITY_def openPmQosTimed_val_def
      openPmQosNode_val_def demo_kernel_open next_fd_def pcall_def sendEventDelayed_Inr)

lemma demo_boosted_step: "poker_step demo_kernel demo_watch demo_asked demo_boosted"
  by (rule poker_step.Deliver [OF _ _ demo_deliver]) (simp_all add: demo_asked_def demo_idle_def)

lemma demo_asked_reach: "poker_reach demo_kernel demo_watch demo_asked"
  by (rule poker_reach.Step [OF demo_idle_reach demo_asked_step])

lemma demo_boosted_reach: "poker_reach demo_kernel demo_watch demo_boosted"
  by (rule poker_reach.Step [OF demo_asked_reach demo_boosted_step])

lemma demo_boosts: "boosts demo_boosted = {(1, ''/dev/cpu_freq_min'', QVal 1300000, 5)}"
  by (auto simp: boosts_def demo_boosted_def demo_idle_def split: if_splits)

section \<open>The timeout poker\<close>

text \<open>
  C2. The timeout poker implements its specification. A timed request notes exactly the node, the
  value and the time asked for, under a key of its own. Every step any thread, the looper or the kernel
  makes is, seen from the specification, one of these: time passes, a request is noted, a noted request
  becomes a boost on its node, with its value, that ends after the time asked for, a noted request
  is dropped whose node the kernel can refuse to open, or a boost whose time has come ends.
\<close>

theorem poker_refines_boosts:
  assumes "fresh_fds E" "watches A" "poker_reach E A p" "poker_step E A p p'"
  shows "boost_step (refusable E) (abs_poker p) (abs_poker p') \<and>
    (requestPmQosTimed_val f v t p = Inr q \<longrightarrow>
      abs_poker q = (insert (mKey p, f, QVal v, t) (requests p), boosts p, mNow p)) \<and>
    (requestPmQosTimed_cmd f pr mx mn t p = Inr q \<longrightarrow>
      abs_poker q = (insert (mKey p, f, QCmd (createConstraintCommand COMMAND_SIZE pr mx mn), t) (requests p), boosts p, mNow p)) \<and>
    (\<forall>f v t. (mKey p, f, v, t) \<notin> requests p)"
proof -
  have i: "poker_inv p" by (rule poker_reach_inv [OF assms(3,1,2)])
  then have k: "queue_ok p" by (simp add: poker_inv_def)
  show ?thesis using poker_sim.sim_step [of E A p p'] i request_noted [OF k] assms(1,2,4) by blast
qed

text \<open>The request of the example, its noting and the boost it becomes: the kernel there refuses nothing.\<close>

lemma demo_requests:
  "requests demo_idle = {}" "requests demo_asked = {(0, ''/dev/cpu_freq_min'', QVal 1300000, 5)}" "requests demo_boosted = {}"
  by (auto simp: requests_def demo_asked_def demo_boosted_def demo_idle_def default_node_value split: if_splits)

lemma demo_not_refusable: "refusable demo_kernel = {}"
  by (simp add: refusable_def demo_kernel_open)

theorem poker_refines_boosts_witness:
  "boost_step {} ({(0, ''/dev/cpu_freq_min'', QVal 1300000, 5)}, {}, 0) ({}, {(1, ''/dev/cpu_freq_min'', QVal 1300000, 5)}, 0) \<and>
   abs_poker demo_asked = ({(0, ''/dev/cpu_freq_min'', QVal 1300000, 5)}, {}, 0)"
proof -
  have n: "mNow demo_asked = 0" "mNow demo_boosted = 0" "boosts demo_asked = {}"
    by (auto simp: demo_asked_def demo_boosted_def demo_idle_def boosts_def split: if_splits)
  have r: "requestPmQosTimed_val ''/dev/cpu_freq_min'' 1300000 5 demo_idle = Inr demo_asked"
    by (simp add: requestPmQosTimed_val_def pushEvent_def sendEventDelayed_Inr demo_idle_def demo_asked_def)
  from poker_refines_boosts [OF demo_kernel_fresh demo_watches demo_asked_reach demo_boosted_step]
  have "boost_step {} (abs_poker demo_asked) (abs_poker demo_boosted)" by (simp add: demo_not_refusable)
  moreover from poker_refines_boosts [OF demo_kernel_fresh demo_watches demo_idle_reach demo_asked_step] r
  have "abs_poker demo_asked = (insert (mKey demo_idle, ''/dev/cpu_freq_min'', QVal 1300000, 5) (requests demo_idle), boosts demo_idle, mNow demo_idle)"
    by blast
  ultimately show ?thesis by (simp add: abs_poker_def n demo_requests demo_boosts)
qed

text \<open>
  C12. No boost is cut short: whatever happens in between, as long as its time has not come the node
  stays open with the value that was written, and the event that will end it stays queued.
\<close>

theorem boost_lasts_as_asked:
  assumes "fresh_fds E" "watches A" "poker_reach E A p" "(poker_step E A)\<^sup>*\<^sup>* p p'"
    and "(d, f, v, t) \<in> boosts p" "mNow p' < t"
  shows "(d, f, v, t) \<in> boosts p' \<and> qos_value d (pcalls p') = Some (f, Some v)"
proof -
  have "(\<lambda>p p'. fresh_fds E \<and> watches A \<and> poker_step E A p p')\<^sup>*\<^sup>* p p'" using assms(1,2,4) by simp
  from poker_sim.steps_spec [OF this poker_reach_inv [OF assms(3,1,2)]]
  have "(boost_step (refusable E))\<^sup>*\<^sup>* (abs_poker p) (abs_poker p')" .
  from boost_steps_last [OF this, of "(d, f, v, t)"] assms(5,6) have "(d, f, v, t) \<in> boosts p'"
    by (simp add: abs_poker_def)
  then show ?thesis by (simp add: in_boosts)
qed

theorem boost_lasts_as_asked_witness:
  "qos_value 1 (pcalls (demo_boosted\<lparr>mNow := 3\<rparr>)) = Some (''/dev/cpu_freq_min'', Some (QVal 1300000))"
proof -
  have "poker_step demo_kernel demo_watch demo_boosted (demo_boosted\<lparr>mNow := mNow demo_boosted + 3\<rparr>)"
    by (rule poker_step.Tick) simp
  then have s: "(poker_step demo_kernel demo_watch)\<^sup>*\<^sup>* demo_boosted (demo_boosted\<lparr>mNow := 3\<rparr>)"
    by (intro r_into_rtranclp) (simp add: demo_boosted_def demo_idle_def)
  have b: "(1, ''/dev/cpu_freq_min'', QVal 1300000, 5) \<in> boosts demo_boosted" by (simp add: demo_boosts)
  show ?thesis
    using boost_lasts_as_asked [OF demo_kernel_fresh demo_watches demo_boosted_reach s b] by simp
qed

text \<open>
  C13. Everything ends: from every reachable state with room for the keys the looper, delivering what
  is due next, comes to rest after a number of messages known beforehand. Then no boost is left, no descriptor is open
  except the watched pipes with their nodes and what callers hold, and every caller that waited for a handle has its answer.
\<close>

theorem poker_comes_to_rest:
  assumes "fresh_fds E" "watches A" "poker_reach E A p" "key_room p"
  shows "\<exists>p'. poll_all E A (poker_weight p) p = Inr p' \<and> (poker_step E A)\<^sup>*\<^sup>* p p' \<and> mMessages p' = [] \<and> boosts p' = {} \<and>
    open_handles fd_opens fd_closes (pcalls p') = dom (mListeners p') \<union> ran (mListeners p') \<union> callers p' \<and>
    (\<forall>k n c. mQueuedEvents p k = Some (PmQosOpenHandleEvent n c) \<longrightarrow> outFd p' c \<noteq> None)"
proof -
  from poll_all_rests [OF assms(1,2) poker_reach_inv [OF assms(3,1,2)] assms(4) order_refl] obtain p' where
    p': "poll_all E A (poker_weight p) p = Inr p'" "(poker_step E A)\<^sup>*\<^sup>* p p'" "poker_inv p'" "mMessages p' = []"
      "\<forall>c. answered_or_waiting c p \<longrightarrow> answered_or_waiting c p'" by blast
  have "\<forall>k n c. mQueuedEvents p k = Some (PmQosOpenHandleEvent n c) \<longrightarrow> outFd p' c \<noteq> None"
    using p'(5) at_rest(3) [OF p'(3,4)] unfolding answered_or_waiting_def by blast
  with p' at_rest(1,2) [OF p'(3,4)] show ?thesis by blast
qed

theorem poker_comes_to_rest_witness:
  "\<exists>p'. poll_all demo_kernel demo_watch 2 demo_asked = Inr p' \<and> mMessages p' = [] \<and> boosts p' = {}"
proof -
  have w: "poker_weight demo_asked = 2" by (simp add: poker_weight_def weight_in_def demo_asked_def)
  then have "key_room demo_asked" by (simp add: key_room_def demo_asked_def)
  from poker_comes_to_rest [OF demo_kernel_fresh demo_watches demo_asked_reach this] w show ?thesis by auto
qed

text \<open>
  C9. No descriptor leaks and none is closed twice: in every reachable state the open descriptors
  are exactly those of the queued time-outs, the watched pipes, their nodes and the callers, and
  each belongs to one of these only.
\<close>

theorem poker_fds_owned:
  assumes "fresh_fds E" "watches A" "poker_reach E A p"
  shows "open_handles fd_opens fd_closes (pcalls p) = {d. \<exists>w. holds p w d} \<and>
    (\<forall>v w d. holds p v d \<longrightarrow> holds p w d \<longrightarrow> v = w)"
  using poker_reach_inv [OF assms(3,1,2)] by (auto simp: poker_inv_def owned_def)

theorem poker_fds_owned_witness:
  "open_handles fd_opens fd_closes (pcalls demo_boosted) = {d. \<exists>w. holds demo_boosted w d} \<and> holds demo_boosted (TimedOwner 1) 1"
  using poker_fds_owned [OF demo_kernel_fresh demo_watches demo_boosted_reach]
  by (simp add: demo_boosted_def)

text \<open>
  C36. A handle the looper refuses to watch is reported as a success all the same: the caller gets
  its pipe end, while the PM QoS node and the other end stay open without an owner, so that closing
  the handle does not end the request.
\<close>

theorem handle_not_watched_leaks:
  assumes "fresh_fds E" "fds_ok p" "f_open E (pcalls p) (node n) = Inr d"
    and "f_pipe E (value_call d (node_value n) # FOpen (node n) (Some d) # pcalls p) = Some (c, s)"
    and "\<And>cs h. \<not> A cs h"
  shows "\<exists>p'. run_handle E A n k p = p' \<and> outFd p' k = Some (Some c) \<and> d \<in> open_handles fd_opens fd_closes (pcalls p') \<and>
    s \<in> open_handles fd_opens fd_closes (pcalls p') \<and> (\<forall>w. \<not> holds p' w d) \<and> (\<forall>w. \<not> holds p' w s)"
proof -
  let ?cs = "value_call d (node_value n) # FOpen (node n) (Some d) # pcalls p"
  have p': "run_handle E A n k p = (pcall (FPipeEnd s) (pcall (FPipeEnd c) (pcall (value_call d (node_value n))
      (pcall (FOpen (node n) (Some d)) p))))\<lparr>outFd := (outFd p)(k \<mapsto> Some c), callers := insert c (callers p)\<rparr>"
    using assms(3-5) by (simp add: run_handle_eq open_node_def createHandleForFd_def listenForHandleToCloseFd_def)
  have f: "c \<noteq> s" "c \<notin> files.live ?cs" "s \<notin> files.live ?cs" "d \<notin> files.live (pcalls p)"
    using assms(1,3,4) unfolding fresh_fds_def by blast+
  then have cd: "c \<noteq> d" "s \<notin> files.live (pcalls p)" by auto
  have h: "holds (run_handle E A n k p) w x \<longleftrightarrow> holds p w x \<or> w = CallerOwner c \<and> x = c" for w x
    by (cases w) (auto simp: p')
  have "\<not> holds p w d" "\<not> holds p w s" for w using holds_live [OF assms(2)] f(4) cd(2) by blast+
  with h f cd show ?thesis by (auto simp: p')
qed

theorem handle_not_watched_leaks_witness:
  "\<exists>d. d \<in> open_handles fd_opens fd_closes (pcalls (run_handle demo_kernel (\<lambda>cs h. False)
       (default_node ''/dev/cpu_freq_min'' 1300000) 0 demo_idle)) \<and>
     (\<forall>w. \<not> holds (run_handle demo_kernel (\<lambda>cs h. False) (default_node ''/dev/cpu_freq_min'' 1300000) 0 demo_idle) w d)"
proof -
  let ?n = "default_node ''/dev/cpu_freq_min'' 1300000"
  have f: "fds_ok demo_idle" using poker_reach_inv [OF demo_idle_reach demo_kernel_fresh demo_watches]
    by (simp add: poker_inv_def)
  obtain c s where "f_pipe demo_kernel (value_call 1 (node_value ?n) # FOpen (node ?n) (Some 1) # pcalls demo_idle) = Some (c, s)"
    by (simp add: demo_kernel_def demo_files_def)
  from handle_not_watched_leaks [OF demo_kernel_fresh f _ this, of "\<lambda>cs h. False" 0]
  show ?thesis by (auto simp: demo_kernel_open next_fd_def demo_idle_def)
qed

section \<open>The power HAL\<close>

lemma digit_chars: "digit_char 0 = CHR ''0''" "digit_char 1 = CHR ''1''" "digit_char 3 = CHR ''3''" "digit_char 5 = CHR ''5''"
  by (simp_all add: digit_char_def char_of_def bit_0)

lemma show_digits: "show_nat 0 = ''0''" "show_nat (Suc 0) = ''1''" "show_nat 3 = ''3''" "show_nat 5 = ''5''"
    "digit_char 0 = CHR ''0''" "digit_char (Suc 0) = CHR ''1''" "digit_char 3 = CHR ''3''"
  using digit_chars by (simp_all add: show_nat.simps)

lemma show_1300000: "show_nat 1300000 = ''1300000''"
  by (simp add: show_digits show_nat.simps [of 1300000] show_nat.simps [of 130000] show_nat.simps [of 13000]
      show_nat.simps [of 1300] show_nat.simps [of 130] show_nat.simps [of 13])

text \<open>
  C20. Reading the frequency table gives back what cpufreq printed: for a file with the frequencies,
  each followed by a blank, and a newline, that fits the buffer, the two passes of \<open>strtok\<close>
  over the buffer store exactly the frequencies, and the maximum is the last of them.
\<close>

theorem frequencies_roundtrip:
  assumes "freq_file (kernel H) (freq_text fs)" "length (freq_text fs) < 256" "fs \<noteq> []"
    and "\<forall>f \<in> set fs. f < 2147483648" "malloc_buf H" "malloc_freqs H"
  shows "\<exists>info' buf cs'. read_frequencies H info cs = Inr (info', buf, cs') \<and>
    available_frequencies info' = map int fs \<and> num_available_frequencies info' = int (length fs) \<and>
    max_frequency info' = int (last fs)"
  using read_frequencies_text [OF assms, of info cs] by force

definition demo_hal :: "(string \<Rightarrow> string option) \<Rightarrow> hal_env" where
  "demo_hal content = \<lparr>kernel = demo_files content, looper_prepared = True, malloc_buf = True, malloc_freqs = True,
     calloc_info_ok = True, calloc_dev_ok = True, POWER_HARDWARE_MODULE_ID = ''power'', POWER_HINT_VSYNC = 1,
     POWER_HINT_INTERACTION = 2, POWER_HINT_LAUNCH = 8, POWER_HINT_LOW_POWER = 5, POWER_FEATURE_DOUBLE_TAP_TO_WAKE = 1\<rparr>"

theorem frequencies_roundtrip_witness:
  "\<exists>info' buf cs'. read_frequencies (demo_hal (\<lambda>p. Some ''51000 1300000 \<newline>'')) calloc_info [] = Inr (info', buf, cs') \<and>
     available_frequencies info' = [51000, 1300000]"
proof -
  have t: "freq_text [51000, 1300000] = ''51000 1300000 \<newline>''"
    by (simp add: show_digits show_nat.simps [of 51000] show_nat.simps [of 5100] show_nat.simps [of 510]
        show_nat.simps [of 51] show_1300000)
  have "freq_file (kernel (demo_hal (\<lambda>p. Some ''51000 1300000 \<newline>''))) (freq_text [51000, 1300000])"
    unfolding t by (simp add: freq_file_def demo_hal_def demo_files_def)
  moreover have "length (freq_text [51000, 1300000]) < 256" unfolding t by simp
  moreover have "malloc_buf (demo_hal (\<lambda>p. Some ''51000 1300000 \<newline>''))" "malloc_freqs (demo_hal (\<lambda>p. Some ''51000 1300000 \<newline>''))"
    by (simp_all add: demo_hal_def)
  ultimately show ?thesis
    using frequencies_roundtrip [of "demo_hal (\<lambda>p. Some ''51000 1300000 \<newline>'')" "[51000, 1300000]" calloc_info "[]"] by force
qed

text \<open>
  The HAL's table keeps its shape through every operation: the time and interval arrays have
  their twelve entries, the times are unsigned 64-bit, and the count of frequencies is that of the array; after opening or initialising
  there is a frequency, the maximum is the last one, and the poker starts with its invariant.
\<close>

theorem power_info_shape:
  assumes "info_ok i"
  shows "(\<forall>H now s i' s'. common_power_open H now i s = Inr (i', s') \<longrightarrow> info_ok i' \<and>
      0 < num_available_frequencies i' \<and> max_frequency i' = last (available_frequencies i') \<and>
      (\<exists>p. mTimeoutPoker i' = Some p \<and> poker_inv p)) \<and>
    (\<forall>H now s i' s'. common_power_init H now i s = Inr (i', s') \<longrightarrow> info_ok i' \<and>
      0 < num_available_frequencies i' \<and> max_frequency i' = last (available_frequencies i')) \<and>
    (\<forall>H on s r s'. common_power_set_interactive H (Some i) on s = Inr (r, s') \<longrightarrow> (\<exists>i'. r = Some i' \<and> info_ok i')) \<and>
    (\<forall>H hint data ts r. common_power_hint H (Some i) hint data ts = Inr r \<longrightarrow> (\<exists>i'. r = Some i' \<and> info_ok i'))"
  using common_power_open_ok [OF _ assms] common_power_init_ok [OF _ assms] set_interactive_ok [OF _ assms]
    common_power_hint_ok [OF _ assms] by blast

theorem power_info_shape_witness:
  "\<exists>i'. common_power_hint (demo_hal (\<lambda>p. None)) (Some calloc_info) 3 True (1, 0) = Inr (Some i') \<and> info_ok i'"
proof -
  have "\<exists>r. common_power_hint (demo_hal (\<lambda>p. None)) (Some calloc_info) 3 True (1, 0) = Inr r"
    by (simp add: common_power_hint_def check_hint_def demo_hal_def calloc_info_def MAX_POWER_HINT_COUNT_def Let_def)
  then obtain r where "common_power_hint (demo_hal (\<lambda>p. None)) (Some calloc_info) 3 True (1, 0) = Inr r" by blast
  with power_info_shape [OF calloc_info_ok, THEN conjunct2, THEN conjunct2, THEN conjunct2] show ?thesis by fastforce
qed

text \<open>
  From the framework's hint to the kernel: an accepted interaction or launch hint, with an idle
  poker and nodes that open, holds, once the looper has handled its two requests, the maximal frequency on \<open>/dev/cpu_freq_min\<close> and the number of CPUs
  on \<open>/dev/min_online_cpus\<close> until 100 ms (two CPUs) or 2 s (four CPUs) from now, and notes the time of the hint.
\<close>

theorem hint_becomes_boost:
  assumes "fresh_fds (kernel H)" "watches A" "hints_ok H" "info_ok i" "mTimeoutPoker i = Some p" "poker_inv p" "mMessages p = []"
    and "mKey p < 2147483640" "\<And>cs f. \<exists>d. f_open (kernel H) cs f = Inr d"
    and "hint = POWER_HINT_INTERACTION H \<or> hint = POWER_HINT_LAUNCH H" "check_hint i hint ts = Some time"
  shows "\<exists>i' p0 p1 p2 d e. common_power_hint H (Some i) hint data ts = Inr (Some i') \<and> hint_time i' ! hint = time \<and>
    mTimeoutPoker i' = Some p0 \<and> deliver (kernel H) A 0 p0 = Inr p1 \<and> deliver (kernel H) A 0 p1 = Inr p2 \<and>
    (let launch = (hint = POWER_HINT_LAUNCH H); until = mNow p + (if launch then 2000000000 else 100000000) in
     boosts p2 = {(d, ''/dev/cpu_freq_min'', QVal (max_frequency i), until),
                  (e, ''/dev/min_online_cpus'', QVal (if launch then 4 else 2), until)})"
proof -
  define t c where "t = (if hint = POWER_HINT_LAUNCH H then 2000000000 else 100000000 :: int)"
    and "c = (if hint = POWER_HINT_LAUNCH H then 4 else 2 :: int)"
  obtain a p0 where a: "requestPmQosTimed_val ''/dev/cpu_freq_min'' (max_frequency i) t p = Inr a"
      "requestPmQosTimed_val ''/dev/min_online_cpus'' c t a = Inr p0"
    using assms(8) by (auto simp: requestPmQosTimed_val_def pushEvent_def sendEventDelayed_Inr)
  from pair_delivery [OF assms(1,2,6,7,8) a assms(9)] obtain p1 p2 d e where
    p1: "deliver (kernel H) A 0 p0 = Inr p1" and p2: "deliver (kernel H) A 0 p1 = Inr p2"
      "boosts p2 = {(d, ''/dev/cpu_freq_min'', QVal (max_frequency i), mNow p + t),
                    (e, ''/dev/min_online_cpus'', QVal c, mNow p + t)}" by blast
  have bo: "boost c t i = Inr (i\<lparr>mTimeoutPoker := Some p0\<rparr>)"
    using a assms(5) by (simp add: boost_def request_def)
  have h: "common_power_hint H (Some i) hint data ts =
      Inr (Some (i\<lparr>mTimeoutPoker := Some p0, hint_time := (hint_time i)[hint := time]\<rparr>))"
    using assms(3,10,11) bo
    by (auto simp: common_power_hint_def hints_ok_def t_def c_def s2ns_def ms2ns_def DEFAULT_MAX_ONLINE_CPUS_def
        DEFAULT_MIN_ONLINE_CPUS_def)
  have "hint < length (hint_time i)" using assms(3,4,10) by (auto simp: hints_ok_def info_ok_def MAX_POWER_HINT_COUNT_def)
  with h p1 p2 show ?thesis
    by - (rule exI [of _ "i\<lparr>mTimeoutPoker := Some p0, hint_time := (hint_time i)[hint := time]\<rparr>"],
      rule exI [of _ p0], rule exI [of _ p1], rule exI [of _ p2], rule exI [of _ d], rule exI [of _ e],
      simp add: t_def c_def Let_def)
qed

definition demo_info :: powerhal_info where
  "demo_info = calloc_info\<lparr>mTimeoutPoker := Some demo_idle, max_frequency := 1300000,
     hint_interval := (replicate 12 0)[8 := 2000000]\<rparr>"

lemma demo_info_ok: "info_ok demo_info"
  by (simp add: info_ok_def demo_info_def calloc_info_def MAX_POWER_HINT_COUNT_def)

lemma demo_hint_time: "check_hint demo_info 8 (1, 0) = Some 1000000"
  by (simp add: check_hint_def demo_info_def calloc_info_def MAX_POWER_HINT_COUNT_def hint_clock_def Let_def)

theorem hint_becomes_boost_witness:
  "\<exists>i' p0 p1 p2 d e. common_power_hint (demo_hal (\<lambda>p. Some [])) (Some demo_info) 8 True (1, 0) = Inr (Some i') \<and>
     mTimeoutPoker i' = Some p0 \<and> deliver demo_kernel demo_watch 0 p0 = Inr p1 \<and> deliver demo_kernel demo_watch 0 p1 = Inr p2 \<and>
     boosts p2 = {(d, ''/dev/cpu_freq_min'', QVal 1300000, 2000000000), (e, ''/dev/min_online_cpus'', QVal 4, 2000000000)}"
proof -
  let ?H = "demo_hal (\<lambda>p. Some [])"
  have k: "kernel ?H = demo_kernel" by (simp add: demo_hal_def demo_kernel_def)
  have h: "hints_ok ?H" by (simp add: hints_ok_def demo_hal_def)
  have i: "poker_inv demo_idle" by (rule poker_reach_inv [OF demo_idle_reach demo_kernel_fresh demo_watches])
  have o: "\<exists>d. f_open (kernel ?H) cs f = Inr d" for cs f by (simp add: k demo_kernel_open)
  have l: "8 = POWER_HINT_INTERACTION ?H \<or> 8 = POWER_HINT_LAUNCH ?H" by (simp add: demo_hal_def)
  have m: "mTimeoutPoker demo_info = Some demo_idle" "mMessages demo_idle = []" "mKey demo_idle < 2147483640"
      "mNow demo_idle = 0" "max_frequency demo_info = 1300000" "POWER_HINT_LAUNCH ?H = 8"
    by (simp_all add: demo_info_def demo_idle_def demo_hal_def)
  from hint_becomes_boost [OF demo_kernel_fresh [folded k] demo_watches h demo_info_ok m(1) i m(2,3) o l demo_hint_time, of True]
  show ?thesis unfolding k m(4-6) Let_def by simp meson
qed

section \<open>Where the HAL goes wrong\<close>

text \<open>
  The clock of \<open>check_hint\<close> is 32 bits wide: 2147 s after boot a launch hint one second
  after the last, inside its interval of two seconds, is let through.
\<close>

lemma hint_clock_wraps:
  "hint_clock (2147, 0) = 2147000000" "u64 (hint_clock (2148, 0) - hint_clock (2147, 0)) > 2000000"
  by (simp_all add: hint_clock_def cdiv_def s32_def u64_def)

text \<open>
  A device structure that cannot be allocated makes opening fail, but the table it has allocated
  stays, without a poker: the next opening succeeds and the first hint goes through a null pointer.
\<close>

lemma open_without_poker:
  assumes "calloc_info_ok H" "\<not> calloc_dev_ok H" "name = POWER_HARDWARE_MODULE_ID H" "pInfo s = None" "hints_ok H"
  shows "\<exists>s'. tegra3_power_open H now name s = Inr (- ENOMEM, False, s') \<and>
    tegra3_power_open H' now name s' = (if name = POWER_HARDWARE_MODULE_ID H' then Inr (0, False, s') else Inr (- EINVAL, False, s')) \<and>
    tegra3_power_hint H (POWER_HINT_LAUNCH H) data ts s' = Inl NullDeref"
  using assms
  by (auto simp: tegra3_power_open_def tegra3_power_hint_def common_power_hint_def check_hint_def calloc_info_def
      hints_ok_def MAX_POWER_HINT_COUNT_def boost_def request_def Let_def)

text \<open>A table with one frequency and no blank behind it: the maximum is read before the array.\<close>

lemma one_frequency_faults:
  assumes "freq_file (kernel H) (show_nat f @ [CHR 0x0A])" "length (show_nat f) < 255" "malloc_buf H"
  shows "read_frequencies H info cs = Inl OutOfBounds"
proof -
  let ?t = "show_nat f @ [CHR 0x0A]"
  have len: "length ?t \<le> 256" using assms(2) by simp
  obtain n where n: "256 - length ?t = Suc n" using assms(2) by (cases "256 - length ?t") auto
  let ?b = "?t @ NUL # replicate n NUL"
  have z: "drop (length ?t) (replicate 256 NUL) = NUL # replicate n NUL" using n by simp
  obtain cs1 where r1: "sysfs_read (kernel H) FREQS_PATH (replicate 256 NUL) cs = (?b, cs1)"
    using freq_file_read [OF assms(1) _ len, of "replicate 256 NUL" cs] z by auto
  have lb: "length ?b = 256" using n len by simp
  obtain cs2 where r2: "sysfs_read (kernel H) FREQS_PATH ?b cs1 = (?b, cs2)"
    using freq_file_read [OF assms(1) lb len, of cs1] by auto
  have s: "strtok ?b (Some 0) = Inr (Some ?t, ?b, None)"
    by (rule strtok_last) (use show_nat_chars in \<open>auto simp: NUL_def\<close>)
  show ?thesis
    using assms(3) s
    by (simp add: read_frequencies_def r1 r2 [simplified] count_tokens.simps [of "Some _"] count_tokens.simps [of None]
        strtok_None)
qed

text \<open>
  The command for a node with priority has 20 bytes: a request for the CPU's own frequencies loses
  its last field.
\<close>

lemma constraint_command:
  "length (createConstraintCommand COMMAND_SIZE pr mx mn) \<le> 19"
  "createConstraintCommand COMMAND_SIZE 50 1300000 1300000 = ''1300000 1300000 50 ''"
proof -
  show "length (createConstraintCommand COMMAND_SIZE pr mx mn) \<le> 19"
    by (simp add: createConstraintCommand_def COMMAND_SIZE_def)
  show "createConstraintCommand COMMAND_SIZE 50 1300000 1300000 = ''1300000 1300000 50 ''"
    by (simp add: createConstraintCommand_def COMMAND_SIZE_def show_int_def show_1300000 show_nat.simps [of 50] show_digits)
qed

text \<open>Without a looper the constructor waits for a barrier that nobody opens.\<close>

lemma constructor_blocks: "TimeoutPoker False Barrier cs now = None"
  by (simp add: TimeoutPoker_def PokeHandler_def readyToRun_def Barrier_def barrier_wait_def)

end
