(* ===== verification/Power_System_Props.thy ===== *)
theory Power_System_Props
  imports Power_System Power_Props
begin

text \<open>The properties of the power HAL with its looper, shown on a device with a frequency table.\<close>

section \<open>A device to show the properties on\<close>

definition demo_device :: hal_env where
  "demo_device = demo_hal (\<lambda>p. if p = FREQS_PATH then Some (''51000 1300000 '' @ [CHR 0x0A])
     else if p = IDLE_TOP_PATH then Some (''475000'' @ [CHR 0x0A])
     else if p = ''/dev/cpu_freq_min'' \<or> p = ''/dev/min_online_cpus'' then Some [] else None)"

lemma demo_device_fresh: "fresh_fds (kernel demo_device)"
  by (simp add: demo_device_def demo_hal_def demo_files_fresh)

lemma demo_device_simps:
  "kernel demo_device = demo_files (\<lambda>p. if p = FREQS_PATH then Some (''51000 1300000 '' @ [CHR 0x0A])
     else if p = IDLE_TOP_PATH then Some (''475000'' @ [CHR 0x0A])
     else if p = ''/dev/cpu_freq_min'' \<or> p = ''/dev/min_online_cpus'' then Some [] else None)"
  "looper_prepared demo_device" "calloc_info_ok demo_device" "malloc_buf demo_device" "malloc_freqs demo_device"
  "POWER_HINT_VSYNC demo_device = 1" "POWER_HINT_INTERACTION demo_device = 2" "POWER_HINT_LAUNCH demo_device = 8"
  by (simp_all add: demo_device_def demo_hal_def)

lemma demo_device_freqs: "\<exists>buf cs'. read_frequencies demo_device info cs = Inr (info\<lparr>num_available_frequencies := 2,
    available_frequencies := [51000, 1300000], max_frequency := 1300000\<rparr>, buf, cs')"
proof -
  have t: "freq_text [51000, 1300000] = ''51000 1300000 '' @ [CHR 0x0A]"
    by (simp add: show_digits show_nat.simps [of 51000] show_nat.simps [of 5100] show_nat.simps [of 510]
        show_nat.simps [of 51] show_1300000)
  have f: "freq_file (kernel demo_device) (freq_text [51000, 1300000])"
    unfolding t by (simp add: freq_file_def demo_device_simps demo_files_def)
  have l: "length (freq_text [51000, 1300000]) < 256" unfolding t by simp
  from read_frequencies_text [OF f l] show ?thesis by (simp add: demo_device_simps)
qed

lemma demo_device_starts:
  "\<exists>s p. tegra3_power_init demo_device 0 loaded = Inr s \<and> the_poker s = p \<and> mKey p = 2 \<and> poker_weight p = 4 \<and>
     mNow p = 0 \<and> check_hint (the (pInfo s)) 8 (1, 0) = Some 1000000 \<and>
     hint_time (the (pInfo s)) = replicate 12 0 \<and> hint_interval (the (pInfo s)) ! 2 = 100000"
proof -
  let ?i = "calloc_info\<lparr>input_devs := True, input_cnt := 3\<rparr>"
  let ?c = "FAccess (input_path 0 ''name'') # []"
  have np: "input_path 0 ''name'' \<noteq> FREQS_PATH" "input_path 0 ''name'' \<noteq> IDLE_TOP_PATH"
      "input_path 0 ''name'' \<noteq> ''/dev/cpu_freq_min''" "input_path 0 ''name'' \<noteq> ''/dev/min_online_cpus''"
    by (simp_all add: input_path_def show_digits FREQS_PATH_def IDLE_TOP_PATH_def)
  have sc: "scan_inputs demo_device ?i loaded = Some (?i, loaded\<lparr>hcalls := ?c\<rparr>)"
    using np by (simp add: scan_inputs_def find_input_device_ids_def find_ids_from.simps demo_device_simps demo_files_def loaded_def)
  have ct: "hint_time calloc_info = replicate 12 0" "hint_interval calloc_info = replicate 12 0"
    by (simp_all add: calloc_info_def MAX_POWER_HINT_COUNT_def)
  have tp: "TimeoutPoker True Barrier [] 0 = Some (demo_idle, OPENED)"
    by (simp add: TimeoutPoker_def PokeHandler_def readyToRun_def barrier_open_def barrier_wait_def demo_idle_def)
  obtain buf cs where rf: "read_frequencies demo_device (?i\<lparr>mTimeoutPoker := Some demo_idle\<rparr>) ?c =
      Inr (?i\<lparr>mTimeoutPoker := Some demo_idle, num_available_frequencies := 2,
        available_frequencies := [51000, 1300000], max_frequency := 1300000\<rparr>, buf, cs)"
    using demo_device_freqs by blast
  let ?lp = "''475000'' @ [CHR 0x0A]"
  have ne: "IDLE_TOP_PATH \<noteq> FREQS_PATH" by (simp add: FREQS_PATH_def IDLE_TOP_PATH_def)
  have len: "length ?lp \<le> length buf" using read_frequencies_buffer [OF rf] by simp
  have "f_open (kernel demo_device) cs IDLE_TOP_PATH = Inr (next_fd cs)"
      "f_read (kernel demo_device) (FOpen IDLE_TOP_PATH (Some (next_fd cs)) # cs) (next_fd cs) (length buf) = Inr ?lp"
    using ne len by (simp_all add: demo_device_simps demo_files_def)
  from sysfs_read_content [OF this len]
  have "fst (sysfs_read (kernel demo_device) IDLE_TOP_PATH buf cs) = ?lp @ drop (length ?lp) buf" .
  moreover have "\<exists>lp. atoi_buf (?lp @ b) = Inr lp" for b
    by (simp add: atoi_buf_def is_space_def is_digit_def)
  ultimately obtain b2 cs2 lp where id: "sysfs_read (kernel demo_device) IDLE_TOP_PATH buf cs = (b2, cs2)" and lp: "atoi_buf b2 = Inr lp"
    by (metis prod.collapse)
  have "\<exists>j u. common_power_open demo_device 0 ?i loaded = Inr (j, u) \<and> mTimeoutPoker j = Some demo_idle \<and>
      hint_time j = replicate 12 0 \<and> hint_interval j ! 2 = 100000"
    by (simp add: ct common_power_open_def sc demo_device_simps(2,6-8) tp rf id lp set_interval_def MAX_POWER_HINT_COUNT_def Let_def)
  then obtain j u where o: "common_power_open demo_device 0 ?i loaded = Inr (j, u)" "mTimeoutPoker j = Some demo_idle"
      "hint_time j = replicate 12 0" "hint_interval j ! 2 = 100000" by blast
  obtain q p where r: "requestPmQosTimed_val ''/dev/cpu_freq_min'' (max_frequency j) (s2ns 60) demo_idle = Inr q"
      "requestPmQosTimed_val ''/dev/min_online_cpus'' 4 (s2ns 60) q = Inr p"
    by (simp add: requestPmQosTimed_val_def pushEvent_def sendEventDelayed_def generateNewKey_def demo_idle_def)
  have qi: "queue_ok demo_idle" using poker_reach_queue [OF demo_idle_reach demo_kernel_fresh demo_watches] .
  note rp = request_pair [OF qi r]
  have w: "mKey p = 2" "poker_weight p = 4" "mNow p = 0"
    using rp by (simp_all add: demo_idle_def poker_weight_def weight_in_def)
  have "\<exists>s. tegra3_power_init demo_device 0 loaded = Inr s \<and> the_poker s = p \<and>
      check_hint (the (pInfo s)) 8 (1, 0) = Some 1000000 \<and>
      hint_time (the (pInfo s)) = replicate 12 0 \<and> hint_interval (the (pInfo s)) ! 2 = 100000"
    using r o by (simp add: tegra3_power_init_def common_power_init_def loaded_def [symmetric] initial_devs_def boost_def request_def
        demo_device_simps(3) DEFAULT_MAX_ONLINE_CPUS_def the_poker_def loaded_def
        check_hint_def MAX_POWER_HINT_COUNT_def hint_clock_def Let_def)
  with w show ?thesis by blast
qed

section \<open>Properties\<close>

text \<open>
  C8. The running HAL is safe: after an initialization or opening that succeeded, whatever the
  framework calls and however the looper is scheduled, no file of the HAL's own thread stays open,
  the descriptors the poker holds open are those of the running boosts, and each boost keeps either
  the highest frequency of the table on the frequency node or two or four CPUs on the other, for a
  minute at most.
\<close>

theorem power_hal_safe:
  assumes "fresh_fds (kernel H)" "watches A" "power_reach H A s"
  shows "\<exists>i p. pInfo s = Some i \<and> mTimeoutPoker i = Some p \<and> open_handles fd_opens fd_closes (hcalls s) = {} \<and>
    open_handles fd_opens fd_closes (pcalls p) = fst ` boosts p \<and>
    (\<forall>(d, f, v, t) \<in> boosts p. t \<le> mNow p + 60000000000 \<and>
      (f = ''/dev/cpu_freq_min'' \<and> v = QVal (last (available_frequencies i)) \<or>
       f = ''/dev/min_online_cpus'' \<and> v \<in> {QVal 2, QVal 4}))"
proof -
  obtain i p where i: "pInfo s = Some i" "mTimeoutPoker i = Some p" "fds (hcalls s) = {}" "max_frequency i = last (available_frequencies i)"
      and p: "poker_reach (kernel H) A p" "hal_poker (max_frequency i) p"
    using power_reach_inv [OF assms(3,1,2)] by (auto simp: power_inv_def)
  note b = hal_poker_boost [OF p(2), unfolded hal_request_def i(4) s2ns_def DEFAULT_MIN_ONLINE_CPUS_def DEFAULT_MAX_ONLINE_CPUS_def]
  show ?thesis
    using i(1-3) hal_poker_open [OF poker_reach_inv [OF p(1) assms(1,2)] p(2)] b by fastforce
qed

theorem power_hal_safe_witness:
  "\<exists>s p. power_reach demo_device demo_watch s \<and> the_poker s = p \<and> mKey p = 2 \<and>
     open_handles fd_opens fd_closes (pcalls p) = fst ` boosts p"
proof -
  obtain s where s: "tegra3_power_init demo_device 0 loaded = Inr s" "mKey (the_poker s) = 2"
    using demo_device_starts by blast
  note r = power_reach.Init [OF s(1), of demo_watch]
  from power_hal_safe [OF demo_device_fresh demo_watches r] obtain i p where
    "pInfo s = Some i" "mTimeoutPoker i = Some p" "open_handles fd_opens fd_closes (pcalls p) = fst ` boosts p" by blast
  with r s(2) show ?thesis by (intro exI [of _ s] exI [of _ p]) (simp add: the_poker_def)
qed

text \<open>
  C14. The running HAL serves: as long as its counter has room for the keys, every hint with any
  data at any time, the screen switched on or off, and a feature return without a fault. When the
  framework stops calling, the looper, delivering what is due next, ends every boost after a number
  of messages known beforehand, and then no descriptor is open in the whole HAL.
\<close>

theorem power_hal_serves:
  assumes "fresh_fds (kernel H)" "watches A" "power_reach H A s"
    and "mKey (the_poker s) < 2147483646" "key_room (the_poker s)"
  shows "(\<forall>hint data ts. \<exists>s'. tegra3_power_hint H hint data ts s = Inr s') \<and>
    (\<forall>on. \<exists>s'. tegra3_power_set_interactive H on s = Inr s') \<and>
    (\<exists>i p p'. pInfo s = Some i \<and> mTimeoutPoker i = Some p \<and> poll_all (kernel H) A (poker_weight p) p = Inr p' \<and>
      (power_step H A)\<^sup>*\<^sup>* s (s\<lparr>pInfo := Some (i\<lparr>mTimeoutPoker := Some p'\<rparr>)\<rparr>) \<and>
      boosts p' = {} \<and> open_handles fd_opens fd_closes (pcalls p') = {} \<and> open_handles fd_opens fd_closes (hcalls s) = {})"
proof -
  obtain i p where i: "pInfo s = Some i" "mTimeoutPoker i = Some p" "fds (hcalls s) = {}"
      "input_devs i \<longrightarrow> input_cnt i = int (length (static_devs s))"
      and p: "poker_reach (kernel H) A p"
    using power_reach_inv [OF assms(3,1,2)] by (auto simp: power_inv_def)
  have room: "mKey p < 2147483646" "key_room p" using assms(4,5) i(1,2) by (simp_all add: the_poker_def)
  obtain p' where p': "poll_all (kernel H) A (poker_weight p) p = Inr p'" "poker_inv p'" "mMessages p' = []"
    using poll_all_rests [OF assms(1,2) poker_reach_inv [OF p assms(1,2)] room(2) order_refl] by blast
  note st = looper_steps_power [OF poll_all_steps [OF p'(1)] i(1,2)]
  have "power_inv H A (s\<lparr>pInfo := Some (i\<lparr>mTimeoutPoker := Some p'\<rparr>)\<rparr>)"
    using power_sim.steps_inv [of H A s] st power_reach_inv [OF assms(3,1,2)] assms(1,2) by simp
  then have "hal_poker (max_frequency i) p'" by (auto simp: power_inv_def)
  from hal_poker_open [OF p'(2) this] at_rest(1) [OF p'(2,3)] have "boosts p' = {}" "open_handles fd_opens fd_closes (pcalls p') = {}"
    by simp_all
  moreover have "\<exists>s'. tegra3_power_hint H hint data ts s = Inr s'" for hint data ts
    using hint_returns [OF i(2) room(1), of H hint data ts] i(1) by (auto simp: tegra3_power_hint_def)
  moreover have "\<exists>s'. tegra3_power_set_interactive H on s = Inr s'" for on
    using interactive_returns [OF i(2) room(1) i(4), of H on] i(1) by (auto simp: tegra3_power_set_interactive_def)
  ultimately show ?thesis using i(1-3) p'(1) st by blast
qed

theorem power_hal_serves_witness:
  "\<exists>s s'. tegra3_power_init demo_device 0 loaded = Inr s \<and> tegra3_power_hint demo_device 8 True (1, 0) s = Inr s'"
proof -
  obtain s where s: "tegra3_power_init demo_device 0 loaded = Inr s" "mKey (the_poker s) = 2" "poker_weight (the_poker s) = 4"
    using demo_device_starts by blast
  have "mKey (the_poker s) < 2147483646" "key_room (the_poker s)" using s(2,3) by (simp_all add: key_room_def)
  from power_hal_serves [OF demo_device_fresh demo_watches power_reach.Init [OF s(1)] this] s(1) show ?thesis by blast
qed

text \<open>
  C10. From the framework's hint to the kernel, in any state of the running HAL: an accepted
  interaction or launch hint is noted with its time, and the looper, in its own order and without
  waiting, gets to a point where nothing is due. However it is scheduled, when it is there and no
  time has passed, the highest frequency is held on \<open>/dev/cpu_freq_min\<close> and two or four
  CPUs on \<open>/dev/min_online_cpus\<close>, until 100 ms or 2 s from the hint.
\<close>

theorem hint_reaches_kernel:
  assumes "fresh_fds (kernel H)" "watches A" "hints_ok H" "power_reach H A s"
    and "\<forall>cs. \<exists>d. f_open (kernel H) cs ''/dev/cpu_freq_min'' = Inr d" "\<forall>cs. \<exists>d. f_open (kernel H) cs ''/dev/min_online_cpus'' = Inr d"
    and "mKey (the_poker s) + int (poker_weight (the_poker s)) < 2147483640"
    and "hint = POWER_HINT_INTERACTION H \<or> hint = POWER_HINT_LAUNCH H" "check_hint (the (pInfo s)) hint ts = Some time"
  shows "\<exists>s' p. tegra3_power_hint H hint data ts s = Inr s' \<and> the_poker s' = p \<and> hint_time (the (pInfo s')) ! hint = time \<and>
    mNow p = mNow (the_poker s) \<and> (\<exists>n p'. poll_all (kernel H) A n p = Inr p' \<and> mNow p' = mNow p \<and> none_due p') \<and>
    (\<forall>p'. (looper_step (kernel H) A)\<^sup>*\<^sup>* p p' \<and> mNow p' = mNow p \<and> none_due p' \<longrightarrow>
      (let launch = (hint = POWER_HINT_LAUNCH H); until = mNow p + (if launch then 2000000000 else 100000000) in
       (\<exists>d. (d, ''/dev/cpu_freq_min'', QVal (last (available_frequencies (the (pInfo s)))), until) \<in> boosts p') \<and>
       (\<exists>d. (d, ''/dev/min_online_cpus'', QVal (if launch then 4 else 2), until) \<in> boosts p')))"
proof -
  obtain i p where i: "pInfo s = Some i" "mTimeoutPoker i = Some p" "info_ok i" "max_frequency i = last (available_frequencies i)"
      and p: "poker_reach (kernel H) A p"
    using power_reach_inv [OF assms(4,1,2)] by (auto simp: power_inv_def)
  have tp: "the_poker s = p" using i by (simp add: the_poker_def)
  define t c where tc: "t = (if hint = POWER_HINT_LAUNCH H then 2000000000 else 100000000 :: int)"
    "c = (if hint = POWER_HINT_LAUNCH H then 4 else 2 :: int)"
  note q = poker_reach_queue [OF p assms(1,2)]
  have k: "mKey p < 2147483646" "check_hint i hint ts = Some time" using assms(7,9) i tp by simp_all
  obtain i' p0 where h: "common_power_hint H (Some i) hint data ts = Inr (Some i')" "hint_time i' ! hint = time"
      "mTimeoutPoker i' = Some p0" "mNow p0 = mNow p"
      and rq: "requested (mNow p) (mKey p) (default_node ''/dev/cpu_freq_min'' (max_frequency i)) t p0"
        "requested (mNow p) (mKey p + 1) (default_node ''/dev/min_online_cpus'' c) t p0"
      and w: "poker_weight p0 = poker_weight p + 4" "mKey p0 = mKey p + 2"
    using hint_requests [OF assms(3) i(3,2) q k(1) assms(8) k(2) tc, of data] by blast
  let ?s = "s\<lparr>pInfo := Some i'\<rparr>"
  have hs: "tegra3_power_hint H hint data ts s = Inr ?s" using h(1) i(1) by (simp add: tegra3_power_hint_def)
  from power_reach_inv [OF power_reach.Step [OF assms(4) power_step.Hint [OF hs]] assms(1,2)] h(3)
  have "poker_reach (kernel H) A p0" by (auto simp: power_inv_def)
  note v = poker_reach_inv [OF this assms(1,2)]
  have "key_room p0" using w assms(7) tp by (simp add: key_room_def)
  from poll_due [OF assms(1,2) v this order_refl] h(4)
  have go: "\<exists>n p'. poll_all (kernel H) A n p0 = Inr p' \<and> mNow p' = mNow p0 \<and> none_due p'" by simp
  have "0 < t" by (simp add: tc)
  have held: "\<exists>d. (d, node x, node_value x, mNow p + t) \<in> boosts p'"
    if "(looper_step (kernel H) A)\<^sup>*\<^sup>* p0 p'" "mNow p' = mNow p" "none_due p'" "requested (mNow p) k x t p0"
      "\<And>cs. \<exists>d. f_open (kernel H) cs (node x) = Inr d" for p' k x
    using requested_steps [OF assms(1,2) that(5,1) v that(4) \<open>0 < t\<close>] requested_runs that(2,3) by blast
  have all: "(\<exists>d. (d, ''/dev/cpu_freq_min'', QVal (max_frequency i), mNow p + t) \<in> boosts p') \<and>
      (\<exists>d. (d, ''/dev/min_online_cpus'', QVal c, mNow p + t) \<in> boosts p')"
    if "(looper_step (kernel H) A)\<^sup>*\<^sup>* p0 p'" "mNow p' = mNow p" "none_due p'" for p'
    using held [OF that rq(1)] held [OF that rq(2)] assms(5,6) by (simp add: default_node_value)
  have "the_poker ?s = p0" "hint_time (the (pInfo ?s)) ! hint = time" using h(2,3) by (simp_all add: the_poker_def)
  moreover have "max_frequency i = last (available_frequencies (the (pInfo s)))" using i(1,4) by simp
  note all [unfolded this tc]
  ultimately show ?thesis using hs h(4) go unfolding tp Let_def
    by (intro exI [of _ ?s] exI [of _ p0]) simp
qed

theorem hint_reaches_kernel_witness:
  "\<exists>s s' n p'. tegra3_power_init demo_device 0 loaded = Inr s \<and> tegra3_power_hint demo_device 8 True (1, 0) s = Inr s' \<and>
     poll_all (kernel demo_device) demo_watch n (the_poker s') = Inr p' \<and>
     (\<exists>d. (d, ''/dev/min_online_cpus'', QVal 4, 2000000000) \<in> boosts p')"
proof -
  obtain s where s: "tegra3_power_init demo_device 0 loaded = Inr s" "mKey (the_poker s) = 2" "poker_weight (the_poker s) = 4"
      "mNow (the_poker s) = 0" "check_hint (the (pInfo s)) 8 (1, 0) = Some 1000000"
    using demo_device_starts by blast
  have h: "hints_ok demo_device" "8 = POWER_HINT_INTERACTION demo_device \<or> 8 = POWER_HINT_LAUNCH demo_device"
      "POWER_HINT_LAUNCH demo_device = 8"
    by (simp_all add: hints_ok_def demo_device_simps)
  have f: "\<forall>cs. \<exists>d. f_open (kernel demo_device) cs ''/dev/cpu_freq_min'' = Inr d"
      "\<forall>cs. \<exists>d. f_open (kernel demo_device) cs ''/dev/min_online_cpus'' = Inr d"
    by (simp_all add: demo_device_simps demo_files_def)
  have k: "mKey (the_poker s) + int (poker_weight (the_poker s)) < 2147483640" using s by simp
  from hint_reaches_kernel [OF demo_device_fresh demo_watches h(1) power_reach.Init [OF s(1)] f k h(2) s(5), of True]
  obtain s' where s': "tegra3_power_hint demo_device 8 True (1, 0) s = Inr s'" "mNow (the_poker s') = mNow (the_poker s)"
      and go: "\<exists>n p'. poll_all (kernel demo_device) demo_watch n (the_poker s') = Inr p' \<and> mNow p' = mNow (the_poker s') \<and> none_due p'"
      and held: "\<forall>p'. (looper_step (kernel demo_device) demo_watch)\<^sup>*\<^sup>* (the_poker s') p' \<and> mNow p' = mNow (the_poker s') \<and> none_due p' \<longrightarrow>
        (\<exists>d. (d, ''/dev/min_online_cpus'', QVal 4, mNow (the_poker s') + 2000000000) \<in> boosts p')"
    unfolding h(3) Let_def if_True simp_thms by blast
  from go obtain n p' where p': "poll_all (kernel demo_device) demo_watch n (the_poker s') = Inr p'"
      "mNow p' = mNow (the_poker s')" "none_due p'" by blast
  have "\<exists>d. (d, ''/dev/min_online_cpus'', QVal 4, mNow (the_poker s') + 2000000000) \<in> boosts p'"
    using held poll_all_steps [OF p'(1)] p'(2,3) by blast
  with s(1) s' p'(1) s(4) show ?thesis by auto
qed

section \<open>Throttling\<close>

text \<open>The monotonic time of a hint in microseconds, and what a \<open>timespec\<close> can hold.\<close>

definition micros :: "int \<times> int \<Rightarrow> int" where
  "micros ts = fst ts * 1000000 + snd ts div 1000"

definition time_ok :: "int \<times> int \<Rightarrow> bool" where
  "time_ok ts \<longleftrightarrow> 0 \<le> fst ts \<and> 0 \<le> snd ts \<and> snd ts < 1000000000"

text \<open>The clock of \<open>check_hint\<close> is right until it wraps.\<close>

lemma hint_clock_micros:
  assumes "time_ok ts" "micros ts < 2147483648"
  shows "hint_clock ts = micros ts"
proof -
  have "0 \<le> fst ts * 1000000" "0 \<le> snd ts div 1000" using assms(1) by (simp_all add: time_ok_def div_int_pos_iff)
  moreover from this have "fst ts * 1000000 < 2147483648" "0 \<le> micros ts" using assms(2) by (simp_all add: micros_def)
  moreover have "cdiv (snd ts) 1000 = snd ts div 1000" using assms(1) by (simp add: cdiv_def time_ok_def)
  ultimately show ?thesis using assms(2) by (simp add: hint_clock_def s32_def u64_def micros_def)
qed

text \<open>
  Whatever happens while hints of the kind \<open>hint\<close> come only between the times \<open>lo\<close> and
  \<open>hi\<close>: those hints, hints of other kinds at any time, the screen, features, openings and the looper.
\<close>

inductive between_step :: "hal_env \<Rightarrow> (fcall list \<Rightarrow> fd \<Rightarrow> bool) \<Rightarrow> nat \<Rightarrow> int \<Rightarrow> int \<Rightarrow> power \<Rightarrow> power \<Rightarrow> bool"
  for H A hint lo hi where
  Same: "tegra3_power_hint H hint data ts s = Inr s' \<Longrightarrow> time_ok ts \<Longrightarrow> lo \<le> micros ts \<Longrightarrow> micros ts \<le> hi \<Longrightarrow>
      between_step H A hint lo hi s s'"
| Hint: "tegra3_power_hint H h data ts s = Inr s' \<Longrightarrow> h \<noteq> hint \<Longrightarrow> between_step H A hint lo hi s s'"
| Interactive: "tegra3_power_set_interactive H on s = Inr s' \<Longrightarrow> between_step H A hint lo hi s s'"
| Feature: "between_step H A hint lo hi s (tegra3_set_feature H feature state s)"
| Open: "tegra3_power_open H now name s = Inr (r, given, s') \<Longrightarrow> between_step H A hint lo hi s s'"
| Looper: "pInfo s = Some i \<Longrightarrow> mTimeoutPoker i = Some p \<Longrightarrow> looper_step (kernel H) A p p' \<Longrightarrow>
      between_step H A hint lo hi s (s\<lparr>pInfo := Some (i\<lparr>mTimeoutPoker := Some p'\<rparr>)\<rparr>)"

text \<open>The time noted for a kind of hint and its interval, after an accepted hint.\<close>

definition noted :: "nat \<Rightarrow> int \<Rightarrow> int \<Rightarrow> power \<Rightarrow> bool" where
  "noted hint t d s \<longleftrightarrow> (\<exists>i. pInfo s = Some i \<and> hint < length (hint_time i) \<and> hint_time i ! hint = t \<and> hint_interval i ! hint = d)"

lemma hint_effect:
  assumes "common_power_hint H (Some i) hint data ts = Inr r" "check_hint i hint ts = Some t"
  shows "\<exists>j. r = Some j \<and> hint_time j = (hint_time i)[hint := t] \<and> hint_interval j = hint_interval i"
  using assms by (fastforce simp: common_power_hint_def bind_res_Inr split: if_splits dest!: boost_fields)

text \<open>A hint of the same kind within the interval is dropped.\<close>

lemma hint_dropped:
  assumes "noted hint t d s" "0 < t" "time_ok ts" "t \<le> micros ts" "micros ts < 2147483648" "micros ts - t < d"
  shows "tegra3_power_hint H hint data ts s = Inr s"
proof -
  obtain i where i: "pInfo s = Some i" "hint_time i ! hint = t" "hint_interval i ! hint = d"
    using assms(1) by (auto simp: noted_def)
  have "u64 (hint_clock ts - t) = micros ts - t" "d \<noteq> 0"
    using assms hint_clock_micros [OF assms(3,5)] by (simp_all add: u64_def)
  then have "check_hint i hint ts = None" using i assms(2,6) by (simp add: check_hint_def Let_def)
  then show ?thesis using i by (simp add: tegra3_power_hint_def common_power_hint_def)
qed

lemma between_step_noted:
  assumes "between_step H A hint t hi s s'" "noted hint t d s" "0 < t" "hi < 2147483648" "hi - t < d"
  shows "noted hint t d s'"
proof -
  obtain i where i: "pInfo s = Some i" "hint < length (hint_time i)" "hint_time i ! hint = t" "hint_interval i ! hint = d"
    using assms(2) by (auto simp: noted_def)
  from assms(1) show ?thesis
  proof cases
    case (Same data ts)
    with hint_dropped [OF assms(2,3) Same(2,3), of H data] assms show ?thesis by simp
  next
    case (Hint h data ts)
    then obtain r where r: "common_power_hint H (Some i) h data ts = Inr r" "s' = s\<lparr>pInfo := r\<rparr>"
      using i(1) by (auto simp: tegra3_power_hint_def bind_res_Inr)
    show ?thesis
    proof (cases "check_hint i h ts")
      case None
      with r(1) have "r = Some i" by (simp add: common_power_hint_def)
      with r(2) i show ?thesis by (simp add: noted_def)
    next
      case (Some u)
      from hint_effect [OF r(1) this] r(2) i Hint(2) show ?thesis by (auto simp: noted_def)
    qed
  next
    case (Interactive on)
    then obtain r u where r: "common_power_set_interactive H (Some i) on s = Inr (r, u)" "s' = u\<lparr>pInfo := r\<rparr>"
      using i(1) by (auto simp: tegra3_power_set_interactive_def bind_res_Inr)
    obtain j where "boosted H A i j" "r = Some j" using interactive_boosted [OF r(1)] by blast
    with r(2) i show ?thesis by (auto simp: noted_def boosted_def dest!: boost_fields)
  next
    case (Feature feature state)
    with i show ?thesis by (simp add: noted_def tegra3_set_feature_def)
  next
    case (Open now name r given)
    then have "s' = s" using i(1) by (auto simp: tegra3_power_open_def split: if_splits)
    with assms(2) show ?thesis by simp
  next
    case (Looper j p p')
    with i show ?thesis by (simp add: noted_def)
  qed
qed

text \<open>
  C25. Hints are throttled, in the first 2147 s after boot, before the clock of the HAL wraps: after
  an accepted hint every hint of the same kind that comes within its interval changes nothing at all,
  whatever came in between: earlier hints of the same kind, hints of other kinds, the screen, features,
  openings and the looper. Times are those of the monotonic clock, in microseconds, and not 0.
\<close>

theorem hint_throttled:
  assumes "pInfo s = Some i" "info_ok i" "check_hint i hint ts \<noteq> None" "tegra3_power_hint H hint data ts s = Inr s1"
    and "(between_step H A hint (micros ts) (micros ts'))\<^sup>*\<^sup>* s1 s2"
    and "time_ok ts" "time_ok ts'" "0 < micros ts" "micros ts \<le> micros ts'" "micros ts' < 2147483648"
    and "micros ts' - micros ts < hint_interval i ! hint"
  shows "tegra3_power_hint H hint data' ts' s2 = Inr s2"
proof -
  have "micros ts < 2147483648" using assms(9,10) by simp
  note c = hint_clock_micros [OF assms(6) this]
  have k: "check_hint i hint ts = Some (micros ts)" "hint < 12"
    using assms(3) c by (auto simp: check_hint_def Let_def MAX_POWER_HINT_COUNT_def split: if_splits)
  obtain r where r: "common_power_hint H (Some i) hint data ts = Inr r" "s1 = s\<lparr>pInfo := r\<rparr>"
    using assms(1,4) by (auto simp: tegra3_power_hint_def bind_res_Inr)
  have "noted hint (micros ts) (hint_interval i ! hint) s1"
    using hint_effect [OF r(1) k(1)] r(2) k(2) assms(2) by (auto simp: noted_def info_ok_def MAX_POWER_HINT_COUNT_def)
  with assms(5) have "noted hint (micros ts) (hint_interval i ! hint) s2"
    by (induction rule: rtranclp_induct) (use between_step_noted assms(8,10,11) in blast)+
  from hint_dropped [OF this assms(8,7,9,10,11)] show ?thesis .
qed

text \<open>An interaction hint 1 s after boot; a launch hint; an interaction hint 99 ms after the first.\<close>

theorem hint_throttled_witness:
  "\<exists>s s1 s2. tegra3_power_init demo_device 0 loaded = Inr s \<and> tegra3_power_hint demo_device 2 True (1, 0) s = Inr s1 \<and>
     tegra3_power_hint demo_device 8 True (1, 5000000) s1 = Inr s2 \<and> mKey (the_poker s2) = 6 \<and>
     tegra3_power_hint demo_device 2 True (1, 99000000) s2 = Inr s2"
proof -
  obtain s where s: "tegra3_power_init demo_device 0 loaded = Inr s" "mKey (the_poker s) = 2"
      "hint_time (the (pInfo s)) = replicate 12 0" "hint_interval (the (pInfo s)) ! 2 = 100000"
    using demo_device_starts by blast
  note r0 = power_reach.Init [OF s(1), of demo_watch]
  obtain i p where i: "pInfo s = Some i" "mTimeoutPoker i = Some p" "info_ok i" "poker_reach (kernel demo_device) demo_watch p"
    using power_reach_inv [OF r0 demo_device_fresh demo_watches] by (auto simp: power_inv_def)
  note h = demo_device_simps(6-8)
  have ok: "hints_ok demo_device" by (simp add: hints_ok_def h)
  have c: "check_hint i 2 (1, 0) = Some 1000000"
    using s(3) i(1) by (simp add: check_hint_def MAX_POWER_HINT_COUNT_def hint_clock_def Let_def)
  obtain i1 p1 where 1: "common_power_hint demo_device (Some i) 2 True (1, 0) = Inr (Some i1)" "mTimeoutPoker i1 = Some p1" "mKey p1 = 4"
    using hint_requests [OF ok i(3,2) poker_reach_queue [OF i(4) demo_device_fresh demo_watches], of 2 "(1, 0)"] c s(2) i(1,2)
    by (fastforce simp: h the_poker_def)
  let ?s1 = "s\<lparr>pInfo := Some i1\<rparr>"
  have s1: "tegra3_power_hint demo_device 2 True (1, 0) s = Inr ?s1" using 1 i by (simp add: tegra3_power_hint_def)
  obtain q where q: "info_ok i1" "poker_reach (kernel demo_device) demo_watch q" "mTimeoutPoker i1 = Some q"
    using power_reach_inv [OF power_reach.Step [OF r0 power_step.Hint [OF s1]] demo_device_fresh demo_watches]
    by (auto simp: power_inv_def)
  then have q1: "queue_ok p1" using poker_reach_queue [OF q(2) demo_device_fresh demo_watches] 1(2) by simp
  have "hint_time i1 ! 8 = 0" using hint_effect [OF 1(1) c] s(3) i(1) by auto
  then have c1: "check_hint i1 8 (1, 5000000) = Some 1005000"
    by (simp add: check_hint_def MAX_POWER_HINT_COUNT_def hint_clock_def Let_def)
  obtain i2 p2 where 2: "common_power_hint demo_device (Some i1) 8 True (1, 5000000) = Inr (Some i2)" "mTimeoutPoker i2 = Some p2" "mKey p2 = 6"
    using hint_requests [OF ok q(1) 1(2) q1, of 8 "(1, 5000000)"] c1 1(3) by (fastforce simp: h)
  let ?s2 = "?s1\<lparr>pInfo := Some i2\<rparr>"
  have s2: "tegra3_power_hint demo_device 8 True (1, 5000000) ?s1 = Inr ?s2" using 2 by (simp add: tegra3_power_hint_def)
  have "(between_step demo_device demo_watch 2 (micros (1, 0)) (micros (1, 99000000)))\<^sup>*\<^sup>* ?s1 ?s2"
    by (rule r_into_rtranclp) (rule between_step.Hint [OF s2], simp)
  from hint_throttled [OF i(1,3) _ s1 this, of True] c s(4) i(1)
  have "tegra3_power_hint demo_device 2 True (1, 99000000) ?s2 = Inr ?s2" by (simp add: micros_def time_ok_def)
  with s(1) s1 s2 2(2,3) show ?thesis by (intro exI [of _ s] exI [of _ ?s1] exI [of _ ?s2]) (simp add: the_poker_def)
qed

text \<open>
  The interval between interaction hints is as long as the boost of one, not shorter: a hint just
  before the boost ends is dropped, and nothing holds the frequency until the next one.
\<close>

lemma interaction_interval:
  assumes "common_power_open H now i s = Inr (j, u)" "info_ok i" "hints_ok H"
  shows "hint_interval j ! POWER_HINT_INTERACTION H * 1000 = ms2ns 100"
proof -
  have l: "length (hint_interval j) = 12" using common_power_open_ok [OF assms(1,2)] by (simp add: info_ok_def MAX_POWER_HINT_COUNT_def)
  obtain k where k: "hint_interval j = k[POWER_HINT_INTERACTION H := 100000, POWER_HINT_LAUNCH H := 2000000]"
    using assms(1)
    by (auto simp: common_power_open_def bind_res_Inr Let_def case_prod_beta set_interval_def split: if_splits option.splits)
  with l assms(3) show ?thesis by (auto simp: hints_ok_def ms2ns_def)
qed

end
