(* ===== verification/Nfc.thy ===== *)
theory Nfc
  imports Prelude "HOL-Library.Multiset"
begin

text \<open>
  \<open>nfc/nfc_hw.c\<close>: the NFC HAL hands the service its link parameters and a table of
  EEPROM settings. The service's library writes the settings to the chip; it is not part of the
  repository. \<open>grouper\<close> is the macro the build sets for this device. The firmware image
  \<open>nfc/pn544_fw.c\<close> is a vendor's binary in the form of an array and is not modelled.
\<close>

section \<open>The table\<close>

definition pn544_eedata_settings :: "bool \<Rightarrow> u8 list list" where
  "pn544_eedata_settings grouper =
     [
      [0x00, 0x9b, 0xd1, 0x0d], [0x00, 0x9b, 0xd2, 0x24], [0x00, 0x9b, 0xd3, 0x0a], [0x00, 0x9b, 0xd4, 0x22],
      [0x00, 0x9b, 0xd5, 0x08], [0x00, 0x9b, 0xd6, 0x1e], [0x00, 0x9b, 0xdd, 0x1c], [0x00, 0x9b, 0x84, 0x13],
      [0x00, 0x99, 0x81, 0x7f], [0x00, 0x99, 0x7a, 0x3e], [0x00, 0x99, 0x77, 0xff], [0x00, 0x99, 0x31, 0x70],
      [0x00, 0x99, 0x2a, 0xf5]] @
     [if grouper then [0x00, 0x99, 0x29, 0xf5] else [0x00, 0x99, 0x29, 0xff]] @
     [
      [0x00, 0x98, 0x00, 0x3f], [0x00, 0x9f, 0x09, 0x00], [0x00, 0x9f, 0x0a, 0x05], [0x00, 0x9e, 0xd1, 0xa1],
      [0x00, 0x99, 0x23, 0x00], [0x00, 0x9e, 0x74, 0xb0], [0x00, 0x9e, 0x7d, 0xb0], [0x00, 0x9f, 0x28, 0x01],
      [0x00, 0x9f, 0x35, 0x14], [0x00, 0x9f, 0x36, 0x60], [0x00, 0x9c, 0x31, 0x00], [0x00, 0x9c, 0x32, 0xc8],
      [0x00, 0x9c, 0x19, 0x40], [0x00, 0x9c, 0x1a, 0x40], [0x00, 0x9c, 0x0c, 0x00], [0x00, 0x9c, 0x0d, 0x00],
      [0x00, 0x9c, 0x12, 0x00], [0x00, 0x9c, 0x13, 0x00], [0x00, 0x98, 0xa2, 0x0e], [0x00, 0x98, 0x93, 0x40],
      [0x00, 0x98, 0x7d, 0x02], [0x00, 0x98, 0x7e, 0x00], [0x00, 0x9f, 0xc8, 0x01], [0x00, 0x9f, 0x9a, 0x00],
      [0x00, 0x9f, 0x09, 0x00]]"

section \<open>The device\<close>

record nfc_pn544_device =
  num_eeprom_settings :: nat
  eeprom_settings :: "u8 list"
  linktype :: nat
  device_node :: string
  enable_i2c_workaround :: nat
  i2c_device_address :: nat

text \<open>The addresses of the device structures that are allocated, with their content.\<close>

type_synonym nfc_heap = "nat \<rightharpoonup> nfc_pn544_device"

text \<open>\<open>mem\<close> is what \<open>calloc\<close> returned; the result is not tested.\<close>

definition nfc_open ::
  "bool \<Rightarrow> string \<Rightarrow> nat \<Rightarrow> string \<Rightarrow> nat option \<Rightarrow> nfc_heap \<Rightarrow> (int \<times> nat option \<times> nfc_heap) res" where
  "nfc_open grouper NFC_PN544_CONTROLLER PN544_LINK_TYPE_I2C name mem h =
     (if name = NFC_PN544_CONTROLLER then
        (case mem of
           None \<Rightarrow> Inl NullDeref
         | Some p \<Rightarrow> Inr (0, Some p, h(p \<mapsto>
             \<lparr>num_eeprom_settings = length (concat (pn544_eedata_settings grouper)) div 4,
              eeprom_settings = concat (pn544_eedata_settings grouper),
              linktype = PN544_LINK_TYPE_I2C,
              device_node = ''/dev/pn544'',
              enable_i2c_workaround = 1,
              i2c_device_address = 0x51\<rparr>)))
      else Inr (- EINVAL, None, h))"

definition pn544_close :: "nat \<Rightarrow> nfc_heap \<Rightarrow> int \<times> nfc_heap" where
  "pn544_close dev h = (0, h(dev := None))"

section \<open>What a client reads from the flat array\<close>

text \<open>Setting \<open>i\<close> is the four bytes from \<open>4 * i\<close>: a 16-bit address in bytes 1 and 2, a value in byte 3.\<close>

definition setting :: "u8 list \<Rightarrow> nat \<Rightarrow> u8 list res" where
  "setting bytes i = (if 4 * i + 4 \<le> length bytes then Inr (take 4 (drop (4 * i) bytes)) else Inl OutOfBounds)"

definition setting_addr :: "u8 list \<Rightarrow> int" where
  "setting_addr r = be_value [r ! 1, r ! 2]"

text \<open>Writing settings one after the other to the EEPROM.\<close>

fun write_settings :: "u8 list list \<Rightarrow> (int \<rightharpoonup> u8) \<Rightarrow> int \<rightharpoonup> u8" where
  "write_settings [] rom = rom"
| "write_settings (r # rs) rom = write_settings rs (rom(setting_addr r \<mapsto> r ! 3))"

lemma settings_rows: "\<forall>r \<in> set (pn544_eedata_settings g). length r = 4 \<and> r ! 0 = 0"
  by (simp add: pn544_eedata_settings_def)

lemma length_concat_rows: "(\<forall>r \<in> set rs. length r = 4) \<Longrightarrow> length (concat rs) = 4 * length rs"
  by (induction rs) auto

lemma setting_row:
  assumes "\<forall>r \<in> set rs. length r = 4" "i < length rs"
  shows "setting (concat rs) i = Inr (rs ! i)"
  using assms
proof (induction rs arbitrary: i)
  case (Cons r rs)
  then have l: "length (concat rs) = 4 * length rs" by (simp add: length_concat_rows)
  show ?case
  proof (cases i)
    case 0
    with Cons.prems show ?thesis by (simp add: setting_def)
  next
    case (Suc j)
    with Cons.prems have "j < length rs" "length r = 4" by auto
    with Cons.IH [of j] Cons.prems l Suc show ?thesis by (simp add: setting_def split: if_splits)
  qed
qed simp

text \<open>Settings that agree wherever they have the same address can be written in any order.\<close>

definition consistent :: "u8 list list \<Rightarrow> bool" where
  "consistent rs \<longleftrightarrow> (\<forall>r \<in> set rs. \<forall>s \<in> set rs. setting_addr r = setting_addr s \<longrightarrow> r ! 3 = s ! 3)"

lemma write_settings_miss: "a \<notin> setting_addr ` set rs \<Longrightarrow> write_settings rs rom a = rom a"
  by (induction rs arbitrary: rom) auto

lemma write_settings_hit:
  assumes "\<forall>r \<in> set rs. setting_addr r = a \<longrightarrow> r ! 3 = v" "a \<in> setting_addr ` set rs"
  shows "write_settings rs rom a = Some v"
  using assms
proof (induction rs arbitrary: rom)
  case (Cons r rs)
  then show ?case
    by (cases "a \<in> setting_addr ` set rs") (auto simp: write_settings_miss)
qed simp

lemma write_settings_order:
  assumes "consistent rs" "mset rs = mset ss"
  shows "write_settings rs rom = write_settings ss rom"
proof
  fix a
  have s: "set rs = set ss" using assms(2) by (metis set_mset_mset)
  show "write_settings rs rom a = write_settings ss rom a"
  proof (cases "a \<in> setting_addr ` set rs")
    case True
    then obtain r where r: "r \<in> set rs" "setting_addr r = a" by blast
    then have v: "\<forall>q \<in> set rs. setting_addr q = a \<longrightarrow> q ! 3 = r ! 3"
      using assms(1) unfolding consistent_def by (intro ballI impI) metis
    show ?thesis using write_settings_hit [OF v True] write_settings_hit [OF v [unfolded s] True [unfolded s]] by simp
  next
    case False
    then show ?thesis using s by (simp add: write_settings_miss)
  qed
qed

lemma consistentI:
  assumes "distinct (map setting_addr qs)" "set rs \<subseteq> set qs"
  shows "consistent rs"
  using assms unfolding consistent_def by (auto simp: distinct_map dest: inj_onD)

text \<open>The last row repeats an earlier one; the others have different addresses.\<close>

lemma settings_consistent: "consistent (pn544_eedata_settings g)"
proof (rule consistentI)
  let ?qs = "butlast (pn544_eedata_settings g)"
  have "map setting_addr ?qs = map (\<lambda>r. uint (r ! 1) * 256 + uint (r ! 2)) ?qs"
    by (simp add: setting_addr_def be_value_def)
  then show "distinct (map setting_addr ?qs)" by (simp add: pn544_eedata_settings_def)
  have "last (pn544_eedata_settings g) \<in> set ?qs" by (simp add: pn544_eedata_settings_def)
  moreover have "pn544_eedata_settings g = ?qs @ [last (pn544_eedata_settings g)]"
    by (rule append_butlast_last_id [symmetric]) (simp add: pn544_eedata_settings_def)
  ultimately show "set (pn544_eedata_settings g) \<subseteq> set ?qs"
    by (metis Un_insert_right append_Nil2 empty_subsetI insert_subset list.simps(15) order_refl set_append)
qed

section \<open>Property\<close>

text \<open>
  C33. The settings the HAL hands out are whole: the count it gives covers the flat array exactly, so a
  client that reads that many settings of four bytes stays inside it and sees the rows of the table,
  and no two rows contradict each other, so that the order of writing them does not matter. Closing
  the device gives its memory back; another name is refused.
\<close>

theorem nfc_settings_whole:
  assumes "nfc_open g ctrl i2c name mem h = Inr r"
  shows "(name \<noteq> ctrl \<and> r = (- EINVAL, None, h)) \<or>
    (\<exists>p dev. r = (0, Some p, h(p \<mapsto> dev)) \<and> length (eeprom_settings dev) = 4 * num_eeprom_settings dev \<and>
      num_eeprom_settings dev = length (pn544_eedata_settings g) \<and>
      (\<forall>i < num_eeprom_settings dev. setting (eeprom_settings dev) i = Inr (pn544_eedata_settings g ! i)) \<and>
      (\<forall>rs rom. mset rs = mset (pn544_eedata_settings g) \<longrightarrow>
         write_settings rs rom = write_settings (pn544_eedata_settings g) rom) \<and>
      pn544_close p (h(p \<mapsto> dev)) = (0, h(p := None)))"
proof (cases "name = ctrl")
  case False
  with assms show ?thesis by (auto simp: nfc_open_def)
next
  case True
  have l: "\<forall>r \<in> set (pn544_eedata_settings g). length r = 4" using settings_rows by blast
  obtain p where "mem = Some p" using assms True by (auto simp: nfc_open_def split: option.splits)
  then have r: "r = (0, Some p, h(p \<mapsto> \<lparr>num_eeprom_settings = length (pn544_eedata_settings g),
      eeprom_settings = concat (pn544_eedata_settings g), linktype = i2c, device_node = ''/dev/pn544'',
      enable_i2c_workaround = 1, i2c_device_address = 0x51\<rparr>))" (is "r = (0, Some p, h(p \<mapsto> ?dev))")
    using assms True length_concat_rows [OF l] by (simp add: nfc_open_def)
  have "\<forall>i < num_eeprom_settings ?dev. setting (eeprom_settings ?dev) i = Inr (pn544_eedata_settings g ! i)"
    using setting_row [OF l] by simp
  moreover have "\<forall>rs rom. mset rs = mset (pn544_eedata_settings g) \<longrightarrow>
      write_settings rs rom = write_settings (pn544_eedata_settings g) rom"
    using write_settings_order [OF settings_consistent] by metis
  moreover have "length (eeprom_settings ?dev) = 4 * num_eeprom_settings ?dev" using length_concat_rows [OF l] by simp
  moreover have "pn544_close p (h(p \<mapsto> ?dev)) = (0, h(p := None))" by (simp add: pn544_close_def)
  moreover have "num_eeprom_settings ?dev = length (pn544_eedata_settings g)" by simp
  ultimately show ?thesis using r
    by - (rule disjI2, rule exI [of _ p], rule exI [of _ ?dev], intro conjI; assumption)
qed

theorem nfc_settings_whole_witness:
  "\<exists>dev. nfc_open True ''pn544'' 1 ''pn544'' (Some 7) Map.empty = Inr (0, Some 7, [7 \<mapsto> dev]) \<and>
     setting (eeprom_settings dev) 13 = Inr [0x00, 0x99, 0x29, 0xf5] \<and> num_eeprom_settings dev = 39"
proof -
  have "\<exists>r. nfc_open True ''pn544'' 1 ''pn544'' (Some 7) Map.empty = Inr r" by (simp add: nfc_open_def)
  then obtain r where r: "nfc_open True ''pn544'' 1 ''pn544'' (Some 7) Map.empty = Inr r" by blast
  then have "r \<noteq> (- EINVAL, None, Map.empty)" by (auto simp: nfc_open_def)
  with nfc_settings_whole [OF r] obtain p dev where d: "r = (0, Some p, [p \<mapsto> dev])"
      "num_eeprom_settings dev = length (pn544_eedata_settings True)"
      "\<forall>i < num_eeprom_settings dev. setting (eeprom_settings dev) i = Inr (pn544_eedata_settings True ! i)"
    by blast
  have n: "length (pn544_eedata_settings True) = 39" "pn544_eedata_settings True ! 13 = [0x00, 0x99, 0x29, 0xf5]"
    by (simp_all add: pn544_eedata_settings_def)
  have "p = 7" using r d(1) by (simp add: nfc_open_def)
  with r d n show ?thesis by auto
qed

end
