(* ===== verification/Omx.thy ===== *)
theory Omx
  imports Prelude Ledger
begin

text \<open>
  \<open>libstagefrighthw/NVOMXPlugin.cpp\<close>: the plugin that forwards the media framework's
  calls to NVIDIA's OpenMAX library, which it loads at run time. The library and the dynamic loader
  are the parameter \<open>omx_env\<close>.
\<close>

section \<open>The library\<close>

datatype ocall =
    DlOpen string "nat option" | DlClose nat | OmxInit | OmxDeinit
  | OmxGetHandle string | OmxFreeHandle nat | OmxNameEnum int | OmxGetRoles string bool
  | NewBuffer nat | DeleteBuffer nat

text \<open>
  \<open>get_roles\<close> is called with the number of buffers, or without any; it answers with an
  error, the number of roles it stores through its pointer, and the text in each buffer.
\<close>

record omx_env =
  dl_open :: "ocall list \<Rightarrow> string \<Rightarrow> nat option"
  dl_sym :: "nat \<Rightarrow> string \<Rightarrow> bool"
  get_handle :: "ocall list \<Rightarrow> string \<Rightarrow> int \<times> nat option"
  free_handle :: "ocall list \<Rightarrow> nat \<Rightarrow> int"
  name_enum :: "ocall list \<Rightarrow> int \<Rightarrow> int \<times> string"
  get_roles :: "ocall list \<Rightarrow> string \<Rightarrow> nat option \<Rightarrow> int \<times> nat \<times> string list"
  OMX_ErrorNone :: int
  OMX_ErrorUndefined :: int

text \<open>The function pointers of the plugin: whether they are set.\<close>

record omx_plugin =
  mLibHandle :: "nat option"
  mInit :: bool
  mDeinit :: bool
  mComponentNameEnum :: bool
  mGetHandle :: bool
  mFreeHandle :: bool
  mGetRolesOfComponentHandle :: bool

section \<open>Operations\<close>

definition LIBOMX :: string where "LIBOMX = ''libnvomx.so''"

definition NVOMXPlugin :: "omx_env \<Rightarrow> ocall list \<Rightarrow> (omx_plugin \<times> ocall list) res" where
  "NVOMXPlugin E cs =
     (let h = dl_open E cs LIBOMX; cs = DlOpen LIBOMX h # cs in
      case h of
        None \<Rightarrow> Inr (\<lparr>mLibHandle = None, mInit = False, mDeinit = False, mComponentNameEnum = False,
                    mGetHandle = False, mFreeHandle = False, mGetRolesOfComponentHandle = False\<rparr>, cs)
      | Some l \<Rightarrow>
          let p = \<lparr>mLibHandle = Some l, mInit = dl_sym E l ''OMX_Init'', mDeinit = dl_sym E l ''OMX_Deinit'',
                   mComponentNameEnum = dl_sym E l ''OMX_ComponentNameEnum'',
                   mGetHandle = dl_sym E l ''OMX_GetHandle'', mFreeHandle = dl_sym E l ''OMX_FreeHandle'',
                   mGetRolesOfComponentHandle = dl_sym E l ''OMX_GetRolesOfComponent''\<rparr>
          in if mInit p then Inr (p, OmxInit # cs) else Inl NullDeref)"

definition createOMXPlugin :: "omx_env \<Rightarrow> ocall list \<Rightarrow> (omx_plugin \<times> ocall list) res" where
  "createOMXPlugin E cs = NVOMXPlugin E cs"

definition destroyOMXPlugin :: "omx_plugin \<Rightarrow> ocall list \<Rightarrow> (omx_plugin \<times> ocall list) res" where
  "destroyOMXPlugin p cs =
     (case mLibHandle p of
        None \<Rightarrow> Inr (p, cs)
      | Some l \<Rightarrow> if mDeinit p then Inr (p\<lparr>mLibHandle := None\<rparr>, DlClose l # OmxDeinit # cs) else Inl NullDeref)"

definition makeComponentInstance ::
  "omx_env \<Rightarrow> omx_plugin \<Rightarrow> string \<Rightarrow> ocall list \<Rightarrow> (int \<times> nat option \<times> ocall list) res" where
  "makeComponentInstance E p name cs =
     (if mLibHandle p = None then Inr (OMX_ErrorUndefined E, None, cs)
      else if \<not> mGetHandle p then Inl NullDeref
      else let (err, c) = get_handle E cs name in Inr (err, c, OmxGetHandle name # cs))"

definition destroyComponentInstance ::
  "omx_env \<Rightarrow> omx_plugin \<Rightarrow> nat \<Rightarrow> ocall list \<Rightarrow> (int \<times> ocall list) res" where
  "destroyComponentInstance E p component cs =
     (if mLibHandle p = None then Inr (OMX_ErrorUndefined E, cs)
      else if \<not> mFreeHandle p then Inl NullDeref
      else Inr (free_handle E cs component, OmxFreeHandle component # cs))"

definition enumerateComponents ::
  "omx_env \<Rightarrow> omx_plugin \<Rightarrow> int \<Rightarrow> ocall list \<Rightarrow> (int \<times> string \<times> ocall list) res" where
  "enumerateComponents E p index cs =
     (if mLibHandle p = None then Inr (OMX_ErrorUndefined E, [], cs)
      else if \<not> mComponentNameEnum p then Inl NullDeref
      else let (err, name) = name_enum E cs index in Inr (err, name, OmxNameEnum index # cs))"

text \<open>
  The loop over the buffers after the second call: it copies the text of each if there was no
  error, and frees the buffer. \<open>array\<close> are the buffers' texts; the loop runs to the number of
  roles the library stored.
\<close>

fun collect_roles :: "bool \<Rightarrow> string list \<Rightarrow> nat list \<Rightarrow> string list \<Rightarrow> ocall list \<Rightarrow> (string list \<times> ocall list) res" where
  "collect_roles ok array [] roles cs = Inr (roles, cs)"
| "collect_roles ok array (i # is) roles cs =
     (if length array \<le> i then Inl OutOfBounds
      else collect_roles ok array is (if ok then roles @ [array ! i] else roles) (DeleteBuffer i # cs))"

definition getRolesOfComponent ::
  "omx_env \<Rightarrow> omx_plugin \<Rightarrow> string \<Rightarrow> ocall list \<Rightarrow> (int \<times> string list \<times> ocall list) res" where
  "getRolesOfComponent E p name cs =
     (if mLibHandle p = None then Inr (OMX_ErrorUndefined E, [], cs)
      else if \<not> mGetRolesOfComponentHandle p then Inl NullDeref
      else
        let (err, numRoles, texts) = get_roles E cs name None;
            cs = OmxGetRoles name False # cs
        in if err \<noteq> OMX_ErrorNone E then Inr (err, [], cs)
           else if numRoles > 0 then
             let cs = rev (map NewBuffer [0..<numRoles]) @ cs;
                 (err, numRoles', texts) = get_roles E cs name (Some numRoles);
                 array = take numRoles texts @ replicate (numRoles - length texts) [];
                 cs = OmxGetRoles name True # cs
             in bind_res (collect_roles (err = OMX_ErrorNone E) array [0..<numRoles'] [] cs)
                  (\<lambda>(roles, cs). Inr (err, roles, cs))
           else Inr (err, [], cs))"

section \<open>The library handle and the buffers\<close>

fun lib_opens :: "ocall \<Rightarrow> nat option" where
  "lib_opens (DlOpen n h) = h"
| "lib_opens _ = None"

fun lib_closes :: "ocall \<Rightarrow> nat option" where
  "lib_closes (DlClose h) = Some h"
| "lib_closes _ = None"

fun buf_opens :: "ocall \<Rightarrow> nat option" where
  "buf_opens (NewBuffer i) = Some i"
| "buf_opens _ = None"

fun buf_closes :: "ocall \<Rightarrow> nat option" where
  "buf_closes (DeleteBuffer i) = Some i"
| "buf_closes _ = None"

interpretation omx_lib: handle_ledger lib_opens lib_closes
proof
  show "lib_closes c = None" if "lib_opens c = Some h" for c h using that by (cases c) auto
qed

interpretation omx_buf: handle_ledger buf_opens buf_closes
proof
  show "buf_closes c = None" if "buf_opens c = Some h" for c h using that by (cases c) auto
qed

lemma plugin_lifetime:
  assumes "createOMXPlugin E cs = Inr (p, cs1)" "destroyOMXPlugin p cs1 = Inr (q, cs2)"
    "\<And>cs n h. dl_open E cs n = Some h \<Longrightarrow> h \<notin> omx_lib.live cs"
  shows "omx_lib.live cs2 = omx_lib.live cs \<and> mLibHandle q = None \<and> destroyOMXPlugin q cs2 = Inr (q, cs2)"
proof (cases "dl_open E cs LIBOMX")
  case None
  with assms(1,2) show ?thesis by (auto simp: createOMXPlugin_def NVOMXPlugin_def destroyOMXPlugin_def)
next
  case (Some l)
  with assms(3) have "l \<notin> omx_lib.live cs" by blast
  with Some assms(1,2) show ?thesis
    by (auto simp: createOMXPlugin_def NVOMXPlugin_def destroyOMXPlugin_def Let_def split: if_splits)
qed

lemma new_buffers_live: "omx_buf.live (rev (map NewBuffer [0..<n]) @ cs) = {..<n} \<union> omx_buf.live cs"
  by (induction n) (auto simp: lessThan_Suc)

lemma collect_roles_ok:
  assumes "n \<le> length array" "k \<le> n"
  shows "\<exists>cs'. collect_roles ok array [k..<n] roles cs =
      Inr (roles @ (if ok then take (n - k) (drop k array) else []), cs') \<and>
    omx_buf.live cs' = omx_buf.live cs - {k..<n}"
  using assms(2)
proof (induction "n - k" arbitrary: k roles cs)
  case 0
  then show ?case by simp
next
  case (Suc m)
  then have k: "k < n" "[k..<n] = k # [Suc k..<n]" by (simp_all add: upt_conv_Cons)
  have "m = n - Suc k" using Suc.hyps(2) by simp
  from Suc.hyps(1) [OF this, of "if ok then roles @ [array ! k] else roles" "DeleteBuffer k # cs"] k(1) obtain cs' where
    c: "collect_roles ok array [Suc k..<n] (if ok then roles @ [array ! k] else roles) (DeleteBuffer k # cs) =
        Inr ((if ok then roles @ [array ! k] else roles) @ (if ok then take (n - Suc k) (drop (Suc k) array) else []), cs')"
      "omx_buf.live cs' = omx_buf.live (DeleteBuffer k # cs) - {Suc k..<n}" by auto
  have "take (n - k) (drop k array) = array ! k # take (n - Suc k) (drop (Suc k) array)"
    using k(1) assms(1) by (metis Cons_nth_drop_Suc Suc_diff_Suc less_le_trans take_Suc_Cons)
  moreover have "{k..<n} = insert k {Suc k..<n}" using k(1) by auto
  ultimately show ?case using c k assms(1) by auto
qed

lemma collect_roles_beyond:
  assumes "length array < n"
  shows "collect_roles ok array [0..<n] roles cs = Inl OutOfBounds"
proof -
  have "collect_roles ok array is roles cs = Inl OutOfBounds" if "length array \<in> set is" for "is"
    using that by (induction "is" arbitrary: roles cs) auto
  with assms show ?thesis by simp
qed

section \<open>Property\<close>

text \<open>
  C35. The roles of a component: when the library tells the same number twice, the plugin returns
  the library's error and, without one, exactly the texts of the buffers, and it has freed every
  buffer it allocated. A second number that is larger makes it read and free behind the array; a
  smaller one leaks the buffers in between.
\<close>

theorem omx_roles:
  assumes "mLibHandle p \<noteq> None" "mGetRolesOfComponentHandle p"
    and "get_roles E cs name None = (OMX_ErrorNone E, n, unused)" "0 < n"
    and "get_roles E (rev (map NewBuffer [0..<n]) @ OmxGetRoles name False # cs) name (Some n) = (err, m, texts)"
    and "length texts = n" "omx_buf.live cs = {}"
  shows "case getRolesOfComponent E p name cs of
      Inl f \<Rightarrow> n < m \<and> f = OutOfBounds
    | Inr (e, roles, cs') \<Rightarrow> m \<le> n \<and> e = err \<and> roles = (if err = OMX_ErrorNone E then take m texts else []) \<and>
        omx_buf.live cs' = {m..<n}"
proof -
  let ?cs = "OmxGetRoles name True # rev (map NewBuffer [0..<n]) @ OmxGetRoles name False # cs"
  have e: "getRolesOfComponent E p name cs =
      bind_res (collect_roles (err = OMX_ErrorNone E) texts [0..<m] [] ?cs) (\<lambda>(roles, cs). Inr (err, roles, cs))"
    using assms by (auto simp: getRolesOfComponent_def Let_def)
  have live: "omx_buf.live ?cs = {..<n}" using assms(7) new_buffers_live [of n "OmxGetRoles name False # cs"] by simp
  show ?thesis
  proof (cases "m \<le> n")
    case True
    then have "m \<le> length texts" using assms(6) by simp
    from collect_roles_ok [OF this, of 0 "err = OMX_ErrorNone E" "[]" ?cs] obtain cs' where
      "collect_roles (err = OMX_ErrorNone E) texts [0..<m] [] ?cs =
         Inr (if err = OMX_ErrorNone E then take m texts else [], cs')" "omx_buf.live cs' = {..<n} - {0..<m}"
      unfolding live by auto
    moreover have "{..<n} - {0..<m} = {m..<n}" by auto
    ultimately show ?thesis using e True by simp
  next
    case False
    with collect_roles_beyond [of texts m "err = OMX_ErrorNone E" "[]" ?cs] assms(6) e show ?thesis by simp
  qed
qed

definition demo_omx :: omx_env where
  "demo_omx = \<lparr>dl_open = (\<lambda>cs n. Some 1), dl_sym = (\<lambda>l n. True), get_handle = (\<lambda>cs n. (0, Some 1)),
     free_handle = (\<lambda>cs c. 0), name_enum = (\<lambda>cs i. (0, ''OMX.Nvidia'')),
     get_roles = (\<lambda>cs n b. (0, 1, [''video_decoder.avc''])), OMX_ErrorNone = 0, OMX_ErrorUndefined = 1\<rparr>"

theorem omx_roles_witness:
  "\<exists>p cs cs'. createOMXPlugin demo_omx [] = Inr (p, cs) \<and>
     getRolesOfComponent demo_omx p ''OMX.Nvidia'' cs = Inr (0, [''video_decoder.avc''], cs') \<and> omx_buf.live cs' = {}"
proof -
  let ?p = "\<lparr>mLibHandle = Some 1, mInit = True, mDeinit = True, mComponentNameEnum = True, mGetHandle = True,
    mFreeHandle = True, mGetRolesOfComponentHandle = True\<rparr>"
  let ?cs = "[OmxInit, DlOpen LIBOMX (Some 1)]"
  have "createOMXPlugin demo_omx [] = Inr (?p, ?cs)"
    by (simp add: createOMXPlugin_def NVOMXPlugin_def demo_omx_def Let_def)
  moreover have "case getRolesOfComponent demo_omx ?p ''OMX.Nvidia'' ?cs of
      Inl f \<Rightarrow> (1 :: nat) < 1 \<and> f = OutOfBounds
    | Inr (e, roles, cs') \<Rightarrow> (1 :: nat) \<le> 1 \<and> e = 0 \<and>
        roles = (if 0 = OMX_ErrorNone demo_omx then take 1 [''video_decoder.avc''] else []) \<and> omx_buf.live cs' = {1..<1}"
    by (rule omx_roles [where unused = "[''video_decoder.avc'']"]) (simp_all add: demo_omx_def)
  then have "\<exists>cs'. getRolesOfComponent demo_omx ?p ''OMX.Nvidia'' ?cs = Inr (0, [''video_decoder.avc''], cs') \<and> omx_buf.live cs' = {}"
    by (simp add: demo_omx_def split: sum.splits prod.splits)
  ultimately show ?thesis by blast
qed

end
