(* ===== verification/Board.thy ===== *)
theory Board
  imports Prelude
begin

text \<open>
  The small libraries of the board: \<open>libgpsd-compat\<close> (the shim between the GPS library and
  the sensor service), \<open>dumpstate\<close> (the files of a bug report) and \<open>libhealthd\<close>
  (where the battery is read).
\<close>

section \<open>\<open>libgpsd-compat.c\<close>\<close>

text \<open>
  The calls of mangled C++ functions. A string object lives on the stack of the function that
  makes it; \<open>ManagerD\<close> is the destructor of a sensor manager.
\<close>

datatype gcall =
    String16C string | String16D | String8C string | String8D
  | ManagerC nat string | ManagerD nat | CreateEventQueue nat string int

record gps_state =
  sInstance :: "nat option"
  gcalls :: "gcall list"

definition gps_initial :: gps_state where "gps_initial = \<lparr>sInstance = None, gcalls = []\<rparr>"

definition gcall :: "gcall \<Rightarrow> gps_state \<Rightarrow> gps_state" where
  "gcall c s = s\<lparr>gcalls := c # gcalls s\<rparr>"

text \<open>\<open>_ZN7android13SensorManagerC1Ev\<close> and \<open>_ZN7android13SensorManager16createEventQueueEv\<close>.\<close>

definition SensorManager_ctor :: "nat \<Rightarrow> gps_state \<Rightarrow> gps_state" where
  "SensorManager_ctor sensorMgr s =
     gcall String16D (gcall (ManagerC sensorMgr ''gps.tegra3'') (gcall (String16C ''gps.tegra3'') s))"

definition createEventQueue :: "nat \<Rightarrow> gps_state \<Rightarrow> gps_state" where
  "createEventQueue sensorMgr s =
     gcall String8D (gcall (CreateEventQueue sensorMgr [] 0) (gcall (String8C []) s))"

definition libEvtUnloading :: "gps_state \<Rightarrow> gps_state" where
  "libEvtUnloading s =
     (case sInstance s of
        None \<Rightarrow> s
      | Some m \<Rightarrow> (gcall (ManagerD m) s)\<lparr>sInstance := None\<rparr>)"

text \<open>Every string that was made is destroyed, in the order of a stack.\<close>

fun strings :: "gcall list \<Rightarrow> int" where
  "strings [] = 0"
| "strings (String16C t # cs) = strings cs + 1"
| "strings (String8C t # cs) = strings cs + 1"
| "strings (String16D # cs) = strings cs - 1"
| "strings (String8D # cs) = strings cs - 1"
| "strings (_ # cs) = strings cs"

lemma gps_strings_balanced:
  "strings (gcalls (SensorManager_ctor m s)) = strings (gcalls s)"
  "strings (gcalls (createEventQueue m s)) = strings (gcalls s)"
  "strings (gcalls (libEvtUnloading s)) = strings (gcalls s)"
  by (simp_all add: SensorManager_ctor_def createEventQueue_def libEvtUnloading_def gcall_def split: option.split)

text \<open>Unloading destroys an instance that is left, and only once.\<close>

lemma gps_unload_once:
  "sInstance (libEvtUnloading s) = None" "libEvtUnloading (libEvtUnloading s) = libEvtUnloading s"
  "gcalls (libEvtUnloading s) = (case sInstance s of None \<Rightarrow> [] | Some m \<Rightarrow> [ManagerD m]) @ gcalls s"
  by (simp_all add: libEvtUnloading_def gcall_def split: option.split)

section \<open>\<open>dumpstate.c\<close>\<close>

text \<open>The titles and paths of the calls of \<open>dump_file\<close>, in order.\<close>

definition dumpstate_board :: "(string \<times> string) list" where
  "dumpstate_board =
     [(''board revision'', ''/sys/devices/platform/grouper_misc/grouper_pcbid''),
      (''board gpio status'', ''/d/gpio''),
      (''soc fuse production mode'', ''/sys/firmware/fuse/odm_production_mode''),
      (''emmc revision'', ''/sys/devices/platform/sdhci-tegra.3/mmc_host/mmc0/mmc0:0001/'' @ ''prv''),
      (''emmc capacity'', ''/sys/devices/platform/sdhci-tegra.3/mmc_host/mmc0/mmc0:0001/'' @ ''sec_count''),
      (''wlan'', ''/sys/module/bcmdhd/parameters/info_string''),
      (''touch panel vendor and firmware version'', ''/sys/class/switch/touch/name'')]"

section \<open>\<open>healthd_board_tegra3.cpp\<close>\<close>

record healthd_config =
  batteryCapacityPath :: string
  batteryStatusPath :: string
  batteryVoltagePath :: string
  batteryCurrentNowPath :: string
  batteryPresentPath :: string
  batteryHealthPath :: string
  batteryTemperaturePath :: string
  batteryTechnologyPath :: string

definition healthd_board_init :: "'a healthd_config_scheme \<Rightarrow> 'a healthd_config_scheme" where
  "healthd_board_init config = config\<lparr>
     batteryCapacityPath := ''/sys/class/power_supply/battery/capacity'',
     batteryStatusPath := ''/sys/class/power_supply/battery/status'',
     batteryVoltagePath := ''/sys/class/power_supply/battery/voltage_now'',
     batteryCurrentNowPath := ''/sys/class/power_supply/battery/current_now'',
     batteryPresentPath := ''/sys/class/power_supply/battery/present'',
     batteryHealthPath := ''/sys/class/power_supply/battery/health'',
     batteryTemperaturePath := ''/sys/class/power_supply/battery/temp'',
     batteryTechnologyPath := ''/sys/class/power_supply/battery/technology''\<rparr>"

definition healthd_board_battery_update :: "'p \<Rightarrow> int \<times> 'p" where
  "healthd_board_battery_update props = (0, props)"

text \<open>The fields the board does not set keep their defaults.\<close>

lemma healthd_keeps_others: "healthd_config.more (healthd_board_init c) = healthd_config.more c"
  by (simp add: healthd_board_init_def)

end
