(* ===== verification/Modules.thy ===== *)
theory Modules
  imports Audio_Adev Keymaster Lights Nfc PowerHal
begin

unbundle bit_operations_syntax

text \<open>
  How the framework gets at the HALs: each library exports one table, \<open>HAL_MODULE_INFO_SYM\<close>, with
  the name it is found by and one method, \<open>open\<close>, that is given the name of an interface and hands out a
  device. The tables are those of the five libraries; what all \<open>open\<close> methods promise is the
  locale \<open>named_open\<close>, interpreted with the methods of the tables.
\<close>

section \<open>The tables\<close>

text \<open>The constants of the framework's headers.\<close>

record hw_consts =
  HARDWARE_MODULE_TAG :: int
  HARDWARE_HAL_API_VERSION :: int
  AUDIO_MODULE_API_VERSION_0_1 :: int
  KEYMASTER_MODULE_API_VERSION_0_3 :: int
  POWER_MODULE_API_VERSION_0_3 :: int
  AUDIO_HARDWARE_MODULE_ID :: string
  KEYSTORE_HARDWARE_MODULE_ID :: string
  LIGHTS_HARDWARE_MODULE_ID :: string
  NFC_HARDWARE_MODULE_ID :: string
  LIGHT_ID_BACKLIGHT :: string
  NFC_PN544_CONTROLLER :: string
  PN544_LINK_TYPE_I2C :: nat

text \<open>A module; \<open>version_major\<close> and \<open>version_minor\<close> are the older names of the two version fields.\<close>

record 'o hw_module =
  tag :: int
  module_api_version :: int
  hal_api_version :: int
  mod_id :: string
  mod_name :: string
  mod_author :: string
  mod_open :: 'o

definition audio_module :: "hw_consts \<Rightarrow> audio_env \<Rightarrow> (string \<Rightarrow> int \<times> audio_state option) hw_module" where
  "audio_module K E = \<lparr>tag = HARDWARE_MODULE_TAG K, module_api_version = AUDIO_MODULE_API_VERSION_0_1 K,
     hal_api_version = HARDWARE_HAL_API_VERSION K, mod_id = AUDIO_HARDWARE_MODULE_ID K,
     mod_name = ''Grouper audio HW HAL'', mod_author = ''The Android Open Source Project'',
     mod_open = adev_open E\<rparr>"

definition keystore_module ::
  "hw_consts \<Rightarrow> tee_env \<Rightarrow> (string \<Rightarrow> bool \<Rightarrow> tcall list \<Rightarrow> int \<times> session option \<times> tcall list) hw_module" where
  "keystore_module K E = \<lparr>tag = HARDWARE_MODULE_TAG K, module_api_version = KEYMASTER_MODULE_API_VERSION_0_3 K,
     hal_api_version = HARDWARE_HAL_API_VERSION K, mod_id = KEYSTORE_HARDWARE_MODULE_ID K,
     mod_name = ''Keymaster TEE HAL'', mod_author = ''The Android Open Source Project'',
     mod_open = tee_open E\<rparr>"

definition lights_module ::
  "hw_consts \<Rightarrow> (string \<Rightarrow> nat option \<Rightarrow> lights_state \<Rightarrow> (int \<times> (nat \<times> light_fun) option \<times> lights_state) res) hw_module"
where
  "lights_module K = \<lparr>tag = HARDWARE_MODULE_TAG K, module_api_version = 1, hal_api_version = 0,
     mod_id = LIGHTS_HARDWARE_MODULE_ID K, mod_name = ''NVIDIA Kai lights module'', mod_author = ''NVIDIA'',
     mod_open = open_lights (LIGHT_ID_BACKLIGHT K)\<rparr>"

definition nfc_module ::
  "hw_consts \<Rightarrow> (string \<Rightarrow> nat option \<Rightarrow> nfc_heap \<Rightarrow> (int \<times> nat option \<times> nfc_heap) res) hw_module" where
  "nfc_module K = \<lparr>tag = HARDWARE_MODULE_TAG K, module_api_version = 1, hal_api_version = 0,
     mod_id = NFC_HARDWARE_MODULE_ID K, mod_name = ''Tegra NFC HW HAL'',
     mod_author = ''The Android Open Source Project'',
     mod_open = nfc_open True (NFC_PN544_CONTROLLER K) (PN544_LINK_TYPE_I2C K)\<rparr>"

text \<open>The power module has its operations in the module itself. The build sets \<open>ANDROID_API_LP_OR_LATER\<close>.\<close>

record 'o power_module = "'o hw_module" +
  pm_init :: "int \<Rightarrow> power \<Rightarrow> power res"
  pm_setInteractive :: "int \<Rightarrow> power \<Rightarrow> power res"
  pm_powerHint :: "nat \<Rightarrow> bool \<Rightarrow> int \<times> int \<Rightarrow> power \<Rightarrow> power res"
  pm_setFeature :: "nat \<Rightarrow> int \<Rightarrow> power \<Rightarrow> power"

definition power_module ::
  "hw_consts \<Rightarrow> hal_env \<Rightarrow> (int \<Rightarrow> string \<Rightarrow> power \<Rightarrow> (int \<times> bool \<times> power) res) power_module" where
  "power_module K H = \<lparr>tag = HARDWARE_MODULE_TAG K, module_api_version = POWER_MODULE_API_VERSION_0_3 K,
     hal_api_version = HARDWARE_HAL_API_VERSION K, mod_id = POWER_HARDWARE_MODULE_ID H,
     mod_name = ''Tegra 3 Power HAL'', mod_author = ''NVIDIA'', mod_open = tegra3_power_open H,
     pm_init = tegra3_power_init H, pm_setInteractive = tegra3_power_set_interactive H,
     pm_powerHint = tegra3_power_hint H, pm_setFeature = tegra3_set_feature H\<rparr>"

section \<open>What an open method promises\<close>

text \<open>
  The two promises, of one call of the method itself: an unknown name gives -EINVAL, no device and no effect;
  and a call that returns hands out a device exactly when the result is 0, and then the name was the known one;
  any other result is one of the error codes named.
\<close>

definition refuses_unknown :: "string \<Rightarrow> (string \<Rightarrow> 's \<Rightarrow> (int \<times> 'd option \<times> 's) res) \<Rightarrow> bool" where
  "refuses_unknown known opn \<longleftrightarrow> (\<forall>name s. name \<noteq> known \<longrightarrow> opn name s = Inr (- EINVAL, None, s))"

definition gives_device :: "string \<Rightarrow> int set \<Rightarrow> (string \<Rightarrow> 's \<Rightarrow> (int \<times> 'd option \<times> 's) res) \<Rightarrow> bool" where
  "gives_device known errors opn \<longleftrightarrow> (\<forall>name s r d s'. opn name s = Inr (r, d, s') \<longrightarrow>
     (r = 0 \<longleftrightarrow> d \<noteq> None) \<and> (r = 0 \<longrightarrow> name = known) \<and> (r \<noteq> 0 \<longrightarrow> r \<in> errors \<and> r < 0))"

text \<open>A name that is not the one of the interface is refused and nothing happens.\<close>

locale named_open =
  fixes known :: string
    and opn :: "string \<Rightarrow> 's \<Rightarrow> (int \<times> 'd option \<times> 's) res"
  assumes refuses: "name \<noteq> known \<Longrightarrow> opn name s = Inr (- EINVAL, None, s)"
begin

lemma refuses_names: "refuses_unknown known opn"
  using refuses by (simp add: refuses_unknown_def)

end

text \<open>A device is handed out exactly when 0 is returned; the other results are error codes from a known set.\<close>

locale device_open = named_open known opn
  for known :: string and opn :: "string \<Rightarrow> 's \<Rightarrow> (int \<times> 'd option \<times> 's) res" +
  fixes errors :: "int set"
  assumes gives: "opn known s = Inr (r, d, s') \<Longrightarrow> r = 0 \<longleftrightarrow> d \<noteq> None"
    and codes: "opn known s = Inr (r, d, s') \<Longrightarrow> r \<noteq> 0 \<Longrightarrow> r \<in> errors \<and> r < 0"
begin

lemma gives_devices: "gives_device known (insert (- EINVAL) errors) opn"
  unfolding gives_device_def
proof (intro allI impI)
  fix name s r d s'
  assume o: "opn name s = Inr (r, d, s')"
  show "(r = 0 \<longleftrightarrow> d \<noteq> None) \<and> (r = 0 \<longrightarrow> name = known) \<and> (r \<noteq> 0 \<longrightarrow> r \<in> insert (- EINVAL) errors \<and> r < 0)"
  proof (cases "name = known")
    case True
    with o gives codes show ?thesis by blast
  next
    case False
    with o refuses [of name s] show ?thesis by auto
  qed
qed

end

section \<open>The five methods\<close>

text \<open>The methods with their state and result in the form of the interface.\<close>

definition audio_opn :: "hw_consts \<Rightarrow> audio_env \<Rightarrow> string \<Rightarrow> audio_state option \<Rightarrow>
  (int \<times> unit option \<times> audio_state option) res" where
  "audio_opn K E name s =
     (let (r, d) = mod_open (audio_module K E) name
      in Inr (r, map_option (\<lambda>_. ()) d, if d = None then s else d))"

definition keystore_opn :: "hw_consts \<Rightarrow> tee_env \<Rightarrow> bool \<Rightarrow> string \<Rightarrow> tcall list \<Rightarrow>
  (int \<times> session option \<times> tcall list) res" where
  "keystore_opn K E ok name cs = Inr (mod_open (keystore_module K E) name ok cs)"

definition lights_opn :: "hw_consts \<Rightarrow> nat option \<Rightarrow> string \<Rightarrow> lights_state \<Rightarrow>
  (int \<times> (nat \<times> light_fun) option \<times> lights_state) res" where
  "lights_opn K mem name = mod_open (lights_module K) name mem"

definition nfc_opn :: "hw_consts \<Rightarrow> nat option \<Rightarrow> string \<Rightarrow> nfc_heap \<Rightarrow> (int \<times> nat option \<times> nfc_heap) res" where
  "nfc_opn K mem name = mod_open (nfc_module K) name mem"

definition power_opn :: "hw_consts \<Rightarrow> hal_env \<Rightarrow> int \<Rightarrow> string \<Rightarrow> power \<Rightarrow> (int \<times> unit option \<times> power) res" where
  "power_opn K H now name s =
     bind_res (mod_open (power_module K H) now name s)
       (\<lambda>(r, given, s). Inr (r, if given then Some () else None, s))"

interpretation audio_open: device_open "AUDIO_HARDWARE_INTERFACE E" "audio_opn K E" "{- ENOMEM}"
  by unfold_locales (auto simp: audio_opn_def audio_module_def adev_open_def Let_def split: if_splits)

interpretation keystore_open: device_open "KEYSTORE_KEYMASTER E" "keystore_opn K E ok" "{- ENOMEM, - ENODEV, - 1}"
  by unfold_locales
    (auto simp: keystore_opn_def keystore_module_def tee_open_def Let_def
      split: if_splits prod.splits)

interpretation lights_open: device_open "LIGHT_ID_BACKLIGHT K" "lights_opn K mem" "{}"
  by unfold_locales (auto simp: lights_opn_def lights_module_def open_lights_def split: option.splits)

interpretation nfc_open: device_open "NFC_PN544_CONTROLLER K" "nfc_opn K mem" "{}"
  by unfold_locales (auto simp: nfc_opn_def nfc_module_def nfc_open_def split: option.splits)

interpretation power_open: named_open "POWER_HARDWARE_MODULE_ID H" "power_opn K H now"
  by unfold_locales (simp add: power_opn_def power_module_def tegra3_power_open_def)

section \<open>Properties\<close>

lemma keystore_serves:
  "(\<exists>h cs'. keystore_opn K T ok (KEYSTORE_KEYMASTER T) cs = Inr (0, Some h, cs')) \<longleftrightarrow>
     ok \<and> C_Initialize T cs = CKR_OK \<and> C_GetInfo T (CInitialize # cs) = CKR_OK \<and>
     (\<exists>h. h \<noteq> CK_INVALID_HANDLE \<and>
       C_OpenSession T (CGetInfo # CInitialize # cs) (CKF_SERIAL_SESSION OR CKF_RW_SESSION) CK_INVALID_HANDLE = (CKR_OK, h))"
  by (auto simp: keystore_opn_def keystore_module_def tee_open_def Let_def
      split: prod.splits)

text \<open>
  C26. The \<open>open\<close> methods of all five HALs refuse names they do not know with \<open>-EINVAL\<close>,
  without a device and without any effect. Those of audio, keymaster, lights and NFC, when they return,
  hand out a device exactly when they return 0, and otherwise return a negative code of a known set; they do
  return 0 for the right name when the memory, and for the keymaster the secure element, are
  there. The power HAL breaks the second promise: once it is initialized, opening it returns 0
  without a device.
\<close>

theorem hal_open_contract:
  "refuses_unknown (AUDIO_HARDWARE_INTERFACE A) (audio_opn K A) \<and>
   gives_device (AUDIO_HARDWARE_INTERFACE A) {- EINVAL, - ENOMEM} (audio_opn K A) \<and>
   ((\<exists>t'. audio_opn K A (AUDIO_HARDWARE_INTERFACE A) t = Inr (0, Some (), t')) \<longleftrightarrow> calloc_device A) \<and>
   refuses_unknown (KEYSTORE_KEYMASTER T) (keystore_opn K T ok) \<and>
   gives_device (KEYSTORE_KEYMASTER T) {- EINVAL, - ENOMEM, - ENODEV, - 1} (keystore_opn K T ok) \<and>
   ((\<exists>h cs'. keystore_opn K T ok (KEYSTORE_KEYMASTER T) cs = Inr (0, Some h, cs')) \<longleftrightarrow>
     ok \<and> C_Initialize T cs = CKR_OK \<and> C_GetInfo T (CInitialize # cs) = CKR_OK \<and>
     (\<exists>h. h \<noteq> CK_INVALID_HANDLE \<and>
       C_OpenSession T (CGetInfo # CInitialize # cs) (CKF_SERIAL_SESSION OR CKF_RW_SESSION) CK_INVALID_HANDLE = (CKR_OK, h))) \<and>
   refuses_unknown (LIGHT_ID_BACKLIGHT K) (lights_opn K mem) \<and> gives_device (LIGHT_ID_BACKLIGHT K) {- EINVAL} (lights_opn K mem) \<and>
   (\<exists>l'. lights_opn K (Some p) (LIGHT_ID_BACKLIGHT K) l = Inr (0, Some (p, SET_LIGHT_BACKLIGHT), l')) \<and>
   refuses_unknown (NFC_PN544_CONTROLLER K) (nfc_opn K mem) \<and> gives_device (NFC_PN544_CONTROLLER K) {- EINVAL} (nfc_opn K mem) \<and>
   (\<exists>n'. nfc_opn K (Some p) (NFC_PN544_CONTROLLER K) n = Inr (0, Some p, n')) \<and>
   refuses_unknown (POWER_HARDWARE_MODULE_ID H) (power_opn K H now) \<and>
   power_opn K H now (POWER_HARDWARE_MODULE_ID H) (s\<lparr>pInfo := Some i\<rparr>) = Inr (0, None, s\<lparr>pInfo := Some i\<rparr>)"
proof (intro conjI)
  show "refuses_unknown (AUDIO_HARDWARE_INTERFACE A) (audio_opn K A)"
    by (rule audio_open.refuses_names)
  show "gives_device (AUDIO_HARDWARE_INTERFACE A) {- EINVAL, - ENOMEM} (audio_opn K A)"
    by (rule audio_open.gives_devices)
  show "(\<exists>t'. audio_opn K A (AUDIO_HARDWARE_INTERFACE A) t = Inr (0, Some (), t')) \<longleftrightarrow> calloc_device A"
    by (simp add: audio_opn_def audio_module_def adev_open_def Let_def)
  show "refuses_unknown (KEYSTORE_KEYMASTER T) (keystore_opn K T ok)"
    by (rule keystore_open.refuses_names)
  show "gives_device (KEYSTORE_KEYMASTER T) {- EINVAL, - ENOMEM, - ENODEV, - 1} (keystore_opn K T ok)"
    by (rule keystore_open.gives_devices)
  show "(\<exists>h cs'. keystore_opn K T ok (KEYSTORE_KEYMASTER T) cs = Inr (0, Some h, cs')) \<longleftrightarrow>
     ok \<and> C_Initialize T cs = CKR_OK \<and> C_GetInfo T (CInitialize # cs) = CKR_OK \<and>
     (\<exists>h. h \<noteq> CK_INVALID_HANDLE \<and>
       C_OpenSession T (CGetInfo # CInitialize # cs) (CKF_SERIAL_SESSION OR CKF_RW_SESSION) CK_INVALID_HANDLE = (CKR_OK, h))"
    by (rule keystore_serves)
  show "refuses_unknown (LIGHT_ID_BACKLIGHT K) (lights_opn K mem)"
    by (rule lights_open.refuses_names)
  show "gives_device (LIGHT_ID_BACKLIGHT K) {- EINVAL} (lights_opn K mem)"
    by (rule lights_open.gives_devices)
  show "\<exists>l'. lights_opn K (Some p) (LIGHT_ID_BACKLIGHT K) l = Inr (0, Some (p, SET_LIGHT_BACKLIGHT), l')"
    by (simp add: lights_opn_def lights_module_def open_lights_def)
  show "refuses_unknown (NFC_PN544_CONTROLLER K) (nfc_opn K mem)"
    by (rule nfc_open.refuses_names)
  show "gives_device (NFC_PN544_CONTROLLER K) {- EINVAL} (nfc_opn K mem)"
    by (rule nfc_open.gives_devices)
  show "\<exists>n'. nfc_opn K (Some p) (NFC_PN544_CONTROLLER K) n = Inr (0, Some p, n')"
    by (simp add: nfc_opn_def nfc_module_def nfc_open_def)
  show "refuses_unknown (POWER_HARDWARE_MODULE_ID H) (power_opn K H now)"
    by (rule power_open.refuses_names)
  show "power_opn K H now (POWER_HARDWARE_MODULE_ID H) (s\<lparr>pInfo := Some i\<rparr>) = Inr (0, None, s\<lparr>pInfo := Some i\<rparr>)"
    by (simp add: power_opn_def power_module_def tegra3_power_open_def)
qed

end
