(* ===== verification/Spec2Isabelle.thy ===== *)
theory Spec2Isabelle
  imports Audio_Props Lights Keymaster_Token Key_Memory Pkcs11 Power_System_Props Nfc Omx Board Modules
begin

text \<open>
  \<^bold>\<open>The device support code of the Asus Nexus 7 (grouper), verified.\<close>

  The repository is an Android device tree: hardware abstraction libraries (HALs) in C and C++ that
  the framework loads, and configuration. The HALs do not call each other; each sits between the
  framework and a driver or a vendor library. This development models all of them.

  \<^bold>\<open>Shared theories.\<close>
  \<^item> \<open>Prelude\<close>: C integers of the 32-bit ARM build with their wrap-around written out, faults of C
    (null pointer, overrun, division by zero, signed overflow, abort, endless wait) as the left side of a sum,
    decimal text and \<open>atoi\<close>, big-endian byte strings, the loop that drops the right channel.
  \<^item> \<open>Ledger\<close>: the locale \<open>handle_ledger\<close> for handles that are obtained and given back.
    Its laws give the ownership lemmas; it is interpreted for PCM devices and resamplers (audio), sessions and object
    handles (keymaster), file descriptors (power, lights), the loaded library and its buffers (media).
  \<^item> \<open>Lock_Order\<close>: threads that take locks by scripts; the locale of gated operations gives
    freedom from deadlock for operations that complete. \<open>Audio_System\<close> interprets it with what
    each call of the HAL adds to the lock events of the trace (\<open>op_script\<close>), for the calls that return.
  \<^item> \<open>Simulation\<close>: the locale for forward simulation; \<open>Poker_Refine\<close> and \<open>Power_System\<close> interpret it.
  \<^item> \<open>Sysfs\<close>: the kernel's file calls as a parameter that answers from the history of calls, C
    strings in buffers, and all of \<open>power/powerhal_utils.cpp\<close>.

  \<^bold>\<open>Audio\<close> (\<open>audio/audio_hw.c\<close>). \<open>Audio_Types\<close> has the structs
  (\<open>audio_device\<close>, \<open>stream_out\<close>, \<open>stream_in\<close>), the configurations and the environment
  (tinyalsa, audio_route, the resampler, the allocator); \<open>Audio_Device\<close> and
  \<open>Audio_Start\<close> routing, standby and starting a stream; \<open>Audio_Out\<close>,
  \<open>Audio_In\<close> and \<open>Audio_Adev\<close> the three function tables; \<open>Audio_System\<close>
  the client's calls as steps and the reachable states. Shown in \<open>Audio_Props\<close>: open handles are owned by running
  streams, the two directions never run with conflicting rates, no deadlock, what a write plays and a read
  records, that the read loop returns without a fault, bounds of the wait for every answer of the driver, positions,
  buffer sizes, and two errors of the code. The two signed operations of the wait (\<open>write_wait\<close>) that depend on the
  driver overflow as the fault \<open>Overflow\<close>; the threshold arithmetic wraps, as the conversions from and to
  \<^verbatim>\<open>size_t\<close> in it do.

  \<^bold>\<open>Lights\<close> (\<open>liblights/lights.c\<close>). \<open>Lights\<close>: from the colour to the
  text the driver gets, its bounds and monotonicity, errors.

  \<^bold>\<open>Keymaster\<close> (\<open>keymaster/keymaster_grouper.cpp\<close> and its headers).
  \<open>Keymaster_Types\<close> and \<open>Keymaster\<close> follow the C++ scopes: a session and object handles are opened by
  constructors and closed by destructors at every return. OpenSSL and the secure element are the
  parameter \<open>tee_env\<close>, which also answers the closing calls: a close it refuses closes nothing
  (\<open>live_sessions\<close>, \<open>live_objects\<close>), and a successful \<open>C_Finalize\<close> ends everything.
  Shown in \<open>Keymaster_Props\<close>: blobs survive a round trip
  and nothing else is accepted, only handles whose close was refused stay behind, signatures are asked for only when
  allowed and accepted only when the element accepts them, a failed import leaves an object, and a
  sub-session that fails ends the session of the device.
  \<open>Keymaster_Token\<close> puts the operations together with an element that behaves as PKCS#11 documents
  (\<open>honest\<close>): a generated key signs, its signatures verify, and a deleted key is gone.
  \<open>Byte_Array\<close> has the class \<open>ByteArray\<close> and the functions that build byte arrays on an
  explicit heap; they refine the byte strings of \<open>Keymaster\<close>. \<open>Key_Memory\<close> has the generation and the
  import of keys on that heap with all their arrays: one object per created key leaks, and nothing else.
  \<open>Pkcs11\<close> has the structures and tables of \<open>pkcs11.h\<close> and shows every template the keymaster
  sends, those of searches and queries too, well formed by them.

  \<^bold>\<open>Power\<close> (\<open>power/\<close>). \<open>Poker\<close> is the timeout poker: its event queue, the
  PM QoS nodes it holds open, pipes as handles, and a step relation of the looper, the callers and the kernel.
  \<open>Poker_Thms\<close> has its invariant, \<open>Poker_Refine\<close> the specification (requests with node, value and
  time, which become boosts that end after that time) and the simulation, \<open>Poker_Live\<close> that the looper comes to rest. \<open>PowerHal\<close> is
  \<open>nvpowerhal.cpp\<close> and \<open>tegra3_power.cpp\<close>, with \<open>strtok\<close> on the real buffer.
  \<open>Power_System\<close> puts the HAL, its poker and the looper together as one step relation, shows its invariant and
  that it refines the specification of boosts. \<open>Power_Props\<close> and \<open>Power_System_Props\<close> have the
  properties, among them the path from a framework hint to the value held in the kernel in every reachable
  state, and that every call returns while the counter of keys has room (a call takes two, its requests two more). A second
  initialization is no step of the system: it forgets the first poker (\<open>init_forgets_poker\<close>).

  \<^bold>\<open>NFC, media, GPS, dumpstate, healthd.\<close> \<open>Nfc\<close> (\<open>nfc/nfc_hw.c\<close>),
  \<open>Omx\<close> (\<open>libstagefrighthw/NVOMXPlugin.cpp\<close>) and \<open>Board\<close>
  (\<open>libgpsd-compat\<close>, \<open>dumpstate\<close>, \<open>libhealthd\<close>).

  \<^bold>\<open>Registration.\<close> \<open>Modules\<close> has the five tables \<open>HAL_MODULE_INFO_SYM\<close> and the
  locales \<open>named_open\<close> and \<open>device_open\<close>: what the framework relies on when it opens a HAL by
  name, of the result and the device of one call. They are interpreted with the five \<open>open\<close> functions; the one of
  the power HAL keeps only the first.

  \<^bold>\<open>Conventions.\<close> A stateful function takes its state and returns it changed; a trace lists the
  library calls, newest first. What is not in the repository (drivers, libraries, allocators, the
  looper, framework constants) is a parameter; hypotheses name what is relied upon:
  a handle that is handed out is not in use (\<open>fresh_fds\<close>, \<open>fresh_tee\<close>), the looper watches what it is
  asked to (\<open>watches\<close>), hint codes differ (\<open>hints_ok\<close>), the secure element keeps what it is
  given (\<open>honest\<close>). Each has a concrete instance in a witness.
  Log messages are kept only where the code decides whether to log.

  \<^bold>\<open>Bounds and fuel.\<close> \<open>poll_all\<close> counts deliveries: the weight of the queue (two for a
  timed request, one for any other event) is enough, since each delivery lowers it. \<open>key_room\<close>
  leaves the signed key counter room for the pending requests; beyond it the model faults where C has
  no defined behaviour. The device scans of the power HAL are partial functions that are \<open>None\<close> on a
  kernel with a device for every number. The frequency file is read into 256 bytes, so the round trip asks
  for a text of at most 255.

  \<^bold>\<open>Not modelled.\<close> The firmware image \<open>nfc/pn544_fw.c\<close> (a vendor binary as an array that no
  code here reads), the prototypes of \<open>pkcs11.h\<close> (a library outside of the repository), \<open>s_type.h\<close>
  (integer types by preprocessor conditions), \<open>bluetooth/bdroid_buildcfg.h\<close>, the Java class under
  \<open>cmhw\<close>, and configuration, scripts, policies and resources: they are data for other programs.
\<close>

end
